(* ===== verification/Go_Time.thy ===== *)
theory Go_Time
  imports Prelude
begin

text \<open>
  The part of Go's \<^verbatim>\<open>time\<close> package the gateway uses, at its machine width: a \<^verbatim>\<open>time.Time\<close> is
  a signed 64-bit number of seconds since 1 January of year 1 and a nanosecond field, and
  \<^verbatim>\<open>time.Unix\<close> adds the epoch offset with wrap-around.  Monotonic clock readings are left
  out: every comparison the gateway makes has an operand built by \<^verbatim>\<open>time.Unix\<close>, which has
  none, so Go compares wall seconds and nanoseconds as here.
\<close>

record gotime =
  t_sec :: int64
  t_nsec :: int

definition unixToInternal :: int64 where
  "unixToInternal = 62135596800"

definition time_Unix :: "int64 \<Rightarrow> gotime" where
  "time_Unix s = \<lparr>t_sec = s + unixToInternal, t_nsec = 0\<rparr>"

definition time_After :: "gotime \<Rightarrow> gotime \<Rightarrow> bool" where
  "time_After t u \<longleftrightarrow>
     sint (t_sec u) < sint (t_sec t) \<or> t_sec t = t_sec u \<and> t_nsec u < t_nsec t"

definition time_Before :: "gotime \<Rightarrow> gotime \<Rightarrow> bool" where
  "time_Before t u \<longleftrightarrow>
     sint (t_sec t) < sint (t_sec u) \<or> t_sec t = t_sec u \<and> t_nsec t < t_nsec u"

definition time_Equal :: "gotime \<Rightarrow> gotime \<Rightarrow> bool" where
  "time_Equal t u \<longleftrightarrow> t_sec t = t_sec u \<and> t_nsec t = t_nsec u"

definition time_IsZero :: "gotime \<Rightarrow> bool" where
  "time_IsZero t \<longleftrightarrow> t_sec t = 0 \<and> t_nsec t = 0"

definition time_addSec :: "int64 \<Rightarrow> int64 \<Rightarrow> int64" where
  "time_addSec s d =
     (let sum = s + d in
      if (sint s < sint sum) = (0 < sint d) then sum
      else if 0 < sint d then word_of_int (2 ^ 63 - 1) else word_of_int (- (2 ^ 63 - 1)))"

definition time_Add :: "gotime \<Rightarrow> duration \<Rightarrow> gotime" where
  "time_Add t d =
     (let dsec = sint d sdiv 1000000000;
          nsec = t_nsec t + sint d smod 1000000000;
          (dsec, nsec) = (if 1000000000 \<le> nsec then (dsec + 1, nsec - 1000000000)
                          else if nsec < 0 then (dsec - 1, nsec + 1000000000)
                          else (dsec, nsec))
      in \<lparr>t_sec = time_addSec (t_sec t) (word_of_int dsec), t_nsec = nsec\<rparr>)"

definition minDuration :: duration where
  "minDuration = word_of_int (- (2 ^ 63))"

definition maxDuration :: duration where
  "maxDuration = word_of_int (2 ^ 63 - 1)"

definition time_Sub :: "gotime \<Rightarrow> gotime \<Rightarrow> duration" where
  "time_Sub t u =
     (let d = (t_sec t - t_sec u) * 1000000000 + word_of_int (t_nsec t - t_nsec u) in
      if time_Equal (time_Add u d) t then d
      else if time_Before t u then minDuration
      else maxDuration)"

text \<open>\<^verbatim>\<open>time.Until(t)\<close> with the clock reading made explicit.\<close>

definition time_Until :: "gotime \<Rightarrow> gotime \<Rightarrow> duration" where
  "time_Until now t = time_Sub t now"

definition second :: duration where
  "second = 1000000000"

definition minute :: duration where
  "minute = 60000000000"

text \<open>\<^verbatim>\<open>Duration.Milliseconds\<close>: division truncated towards zero.\<close>

definition duration_Milliseconds :: "duration \<Rightarrow> int" where
  "duration_Milliseconds d = sint d sdiv 1000000"

section \<open>Instants as integers\<close>

text \<open>
  The instant a well-formed time denotes, in nanoseconds since year 1.  All comparisons
  become integer comparisons of instants.
\<close>

definition time_ns :: "gotime \<Rightarrow> int" where
  "time_ns t = sint (t_sec t) * 1000000000 + t_nsec t"

definition valid_time :: "gotime \<Rightarrow> bool" where
  "valid_time t \<longleftrightarrow> 0 \<le> t_nsec t \<and> t_nsec t < 1000000000"

text \<open>A clock reading between 1970 and the year 146 billion: far from every wrap-around.\<close>

definition sane_time :: "gotime \<Rightarrow> bool" where
  "sane_time t \<longleftrightarrow>
     valid_time t \<and> 62135596800 \<le> sint (t_sec t) \<and> sint (t_sec t) < 2 ^ 62"

section \<open>Lemmas\<close>

lemma sint_word_of_int64: "- (2 ^ 63) \<le> x \<Longrightarrow> x < 2 ^ 63 \<Longrightarrow> sint (word_of_int x :: int64) = x"
  by (simp add: int_word_sint)

lemma sint_range64: "- (2 ^ 63) \<le> sint (w :: int64)" "sint (w :: int64) < 2 ^ 63"
  using sint_ge [of w] sint_lt [of w] by simp_all

lemma sint_inj64: "sint (v :: int64) = sint w \<longleftrightarrow> v = w"
  by (auto dest: signed_word_eqI)

lemma sint_add64:
  "- (2 ^ 63) \<le> sint v + sint w \<Longrightarrow> sint v + sint w < 2 ^ 63 \<Longrightarrow>
   sint (v + w :: int64) = sint v + sint w"
  using sint_word_of_int64 [of "sint v + sint w"] by simp

lemma sint_unixToInternal: "sint unixToInternal = 62135596800"
  by (simp add: unixToInternal_def)

lemma sec_nsec_unique:
  fixes a b :: int
  assumes "0 \<le> m" "m < 1000000000" "0 \<le> n" "n < 1000000000"
  shows "a * 1000000000 + m = b * 1000000000 + n \<longleftrightarrow> a = b \<and> m = n"
  using assms by (cases "a = b") auto

lemma time_ns_eq_iff:
  "valid_time t \<Longrightarrow> valid_time u \<Longrightarrow>
   time_ns t = time_ns u \<longleftrightarrow> t_sec t = t_sec u \<and> t_nsec t = t_nsec u"
  by (simp add: time_ns_def valid_time_def sec_nsec_unique sint_inj64)

lemma time_Equal_iff_ns:
  "valid_time t \<Longrightarrow> valid_time u \<Longrightarrow> time_Equal t u \<longleftrightarrow> time_ns t = time_ns u"
  by (simp add: time_Equal_def time_ns_eq_iff)

lemma time_After_iff_ns:
  assumes "valid_time t" "valid_time u"
  shows "time_After t u \<longleftrightarrow> time_ns u < time_ns t"
proof -
  have "t_sec t = t_sec u \<longleftrightarrow> sint (t_sec t) = sint (t_sec u)"
    by (simp add: sint_inj64)
  with assms show ?thesis
    unfolding time_After_def time_ns_def valid_time_def by auto
qed

lemma time_Before_After: "time_Before t u \<longleftrightarrow> time_After u t"
  by (auto simp: time_Before_def time_After_def)

lemma time_Before_iff_ns:
  "valid_time t \<Longrightarrow> valid_time u \<Longrightarrow> time_Before t u \<longleftrightarrow> time_ns t < time_ns u"
  by (simp add: time_Before_After time_After_iff_ns)

lemma time_After_irrefl [simp]: "\<not> time_After t t"
  by (simp add: time_After_def)

lemma time_After_trans:
  "\<not> time_After t v" if "\<not> time_After t u" "\<not> time_After u v"
proof -
  have "t_sec t = t_sec u \<longleftrightarrow> sint (t_sec t) = sint (t_sec u)"
    "t_sec u = t_sec v \<longleftrightarrow> sint (t_sec u) = sint (t_sec v)"
    "t_sec t = t_sec v \<longleftrightarrow> sint (t_sec t) = sint (t_sec v)"
    by (simp_all add: sint_inj64)
  with that show ?thesis
    unfolding time_After_def by auto
qed

lemma valid_time_Unix [simp]: "valid_time (time_Unix s)"
  by (simp add: valid_time_def time_Unix_def)

lemma sane_valid [simp]: "sane_time t \<Longrightarrow> valid_time t"
  by (simp add: sane_time_def)

lemma sane_le_not_zero: "sane_time now \<Longrightarrow> \<not> time_After now t \<Longrightarrow> \<not> time_IsZero t"
  by (auto simp: sane_time_def time_After_def time_IsZero_def)

text \<open>The instant \<^verbatim>\<open>time.Unix\<close> denotes, where the epoch offset does not wrap.\<close>

lemma time_ns_Unix:
  "sint s < 2 ^ 63 - 62135596800 \<Longrightarrow>
   time_ns (time_Unix s) = (sint s + 62135596800) * 1000000000"
  using sint_range64 [of s]
  by (simp add: time_ns_def time_Unix_def sint_add64 sint_unixToInternal)

text \<open>Where it does, the instant lies before year 1.\<close>

lemma sec_Unix_wraps:
  assumes "2 ^ 63 - 62135596800 \<le> sint s"
  shows "sint (t_sec (time_Unix s)) = sint s + 62135596800 - 2 ^ 64"
    and "sint (t_sec (time_Unix s)) < 0"
proof -
  have eq: "s + unixToInternal = word_of_int (sint s + 62135596800 - 2 ^ 64)"
    by (simp add: unixToInternal_def)
  have "sint (s + unixToInternal) = sint s + 62135596800 - 2 ^ 64"
    unfolding eq using assms sint_range64 [of s] by (intro sint_word_of_int64) auto
  then show "sint (t_sec (time_Unix s)) = sint s + 62135596800 - 2 ^ 64"
    by (simp add: time_Unix_def)
  then show "sint (t_sec (time_Unix s)) < 0"
    using sint_range64 [of s] by simp
qed

lemma time_addSec_exact:
  assumes "- (2 ^ 63) \<le> sint s + sint d" "sint s + sint d < 2 ^ 63"
  shows "sint (time_addSec s d) = sint s + sint d"
  using assms by (simp add: time_addSec_def Let_def sint_add64)

text \<open>One carry step brings the nanosecond field back into range.\<close>

lemma smod_ns_bounds: "- 1000000000 < (d :: int) smod 1000000000" "(d :: int) smod 1000000000 < 1000000000"
  by (auto simp: signed_modulo_int_def sgn_if)

lemma smod_sdiv_ns: "(d :: int) = (d sdiv 1000000000) * 1000000000 + d smod 1000000000"
  by (simp add: sdiv_mult_smod_eq)

lemma time_Add_correct:
  assumes v: "valid_time t" and lo: "- (2 ^ 62) \<le> sint (t_sec t)" and hi: "sint (t_sec t) < 2 ^ 62"
  shows "valid_time (time_Add t d)" and "time_ns (time_Add t d) = time_ns t + sint d"
proof -
  define q r where "q = sint d sdiv 1000000000" and "r = sint d smod 1000000000"
  have d: "sint d = q * 1000000000 + r" and r: "- 1000000000 < r" "r < 1000000000"
    unfolding q_def r_def using smod_sdiv_ns smod_ns_bounds by blast+
  have q: "- (2 ^ 40) < q" "q < 2 ^ 40"
    using sint_range64 [of d] d r by simp_all
  have sec: "sint (time_addSec (t_sec t) (word_of_int k)) = sint (t_sec t) + k"
    if "- (2 ^ 41) < k" "k < 2 ^ 41" for k
    using that lo hi by (simp add: time_addSec_exact sint_word_of_int64)
  show "valid_time (time_Add t d)"
    using v r unfolding valid_time_def time_Add_def Let_def q_def [symmetric] r_def [symmetric]
    by (auto split: if_splits)
  show "time_ns (time_Add t d) = time_ns t + sint d"
    using sec [of q] sec [of "q + 1"] sec [of "q - 1"] q v r d
    unfolding valid_time_def time_ns_def time_Add_def Let_def q_def [symmetric] r_def [symmetric]
    by auto
qed

lemma sint_minDuration: "sint minDuration = - (2 ^ 63)"
  by (simp add: minDuration_def sint_word_of_int64)

lemma sint_maxDuration: "sint maxDuration = 2 ^ 63 - 1"
  by (simp add: maxDuration_def sint_word_of_int64)

text \<open>\<^verbatim>\<open>Sub\<close> is the exact difference of the instants, saturated at the ends of int64.\<close>

lemma time_Sub_saturates:
  assumes t: "valid_time t" and u: "valid_time u"
    and lo: "- (2 ^ 62) \<le> sint (t_sec u)" and hi: "sint (t_sec u) < 2 ^ 62"
  shows "sint (time_Sub t u) = max (- (2 ^ 63)) (min (2 ^ 63 - 1) (time_ns t - time_ns u))"
proof -
  define d where "d = (t_sec t - t_sec u) * 1000000000 + word_of_int (t_nsec t - t_nsec u)"
  have d: "d = word_of_int (time_ns t - time_ns u)"
    by (simp add: d_def time_ns_def algebra_simps)
  have eq: "time_Equal (time_Add u d) t \<longleftrightarrow> sint d = time_ns t - time_ns u"
    using time_Add_correct [OF u lo hi, of d] t by (auto simp: time_Equal_iff_ns)
  have fits: "sint d = time_ns t - time_ns u"
    if "- (2 ^ 63) \<le> time_ns t - time_ns u" "time_ns t - time_ns u < 2 ^ 63"
    unfolding d using that by (rule sint_word_of_int64)
  show ?thesis
    unfolding time_Sub_def Let_def d_def [symmetric] eq
    using fits sint_range64 [of d] time_Before_iff_ns [OF t u]
    by (auto simp: sint_minDuration sint_maxDuration max_def min_def)
qed

lemmas time_simps = time_After_iff_ns time_Before_iff_ns time_Equal_iff_ns

end
