(* ===== verification/Go_Yaml.thy ===== *)
theory Go_Yaml
  imports Go_Time "HOL-Library.Monad_Syntax"
begin

text \<open>
  How \<^verbatim>\<open>gopkg.in/yaml.v3\<close> fills Go values from a document, as far as the repository's types use
  it.  The parser is a third-party package and stays a parameter: it turns a text into a tree.
  What the struct tags of \<^verbatim>\<open>internal/config\<close> and of the controller select from such a tree is
  defined on these decoders, so that the two sets of tags are part of the model.
\<close>

section \<open>Documents\<close>

text \<open>A document after anchors and merge keys are resolved; a scalar that is not null is its text.\<close>

datatype yaml =
    YNull
  | YScalar string
  | YSeq "yaml list"
  | YMap "(string \<times> yaml) list"

section \<open>Decoding\<close>

text \<open>
  A missing key and a null leave the zero value; a node of the wrong kind is an error
  (\<^verbatim>\<open>None\<close>), and so is a mapping with a key twice; keys the struct does not name are ignored.
\<close>

fun decode_string :: "yaml \<Rightarrow> string option" where
  "decode_string YNull = Some ''''"
| "decode_string (YScalar s) = Some s"
| "decode_string _ = None"

text \<open>\<^verbatim>\<open>dur\<close> is what the library makes of a scalar for a \<^verbatim>\<open>time.Duration\<close>, through \<^verbatim>\<open>time.ParseDuration\<close>.\<close>

fun decode_duration :: "(string \<Rightarrow> duration option) \<Rightarrow> yaml \<Rightarrow> duration option" where
  "decode_duration dur YNull = Some 0"
| "decode_duration dur (YScalar s) = dur s"
| "decode_duration dur _ = None"

fun decode_list :: "(yaml \<Rightarrow> 'a option) \<Rightarrow> yaml \<Rightarrow> 'a list option" where
  "decode_list dec YNull = Some []"
| "decode_list dec (YSeq ts) = those (map dec ts)"
| "decode_list dec _ = None"

fun decode_struct :: "((string \<Rightarrow> yaml) \<Rightarrow> 'a option) \<Rightarrow> yaml \<Rightarrow> 'a option" where
  "decode_struct dec YNull = dec (\<lambda>_. YNull)"
| "decode_struct dec (YMap m) =
     (if distinct (map fst m)
      then dec (\<lambda>k. case map_of m k of None \<Rightarrow> YNull | Some t \<Rightarrow> t)
      else None)"
| "decode_struct dec _ = None"

text \<open>\<^verbatim>\<open>yaml.Unmarshal\<close>: an error of the parser, or the joint error of the nodes that do not fit.\<close>

definition yaml_Unmarshal_with :: "(bytes \<Rightarrow> string + yaml) \<Rightarrow> (yaml \<Rightarrow> 'a option) \<Rightarrow> bytes \<Rightarrow> string + 'a" where
  "yaml_Unmarshal_with parse dec raw =
     (case parse raw of
        Inl err \<Rightarrow> Inl err
      | Inr t \<Rightarrow> (case dec t of None \<Rightarrow> Inl ''yaml: unmarshal errors'' | Some x \<Rightarrow> Inr x))"

section \<open>Encoding\<close>

text \<open>A string field, one that is left out when empty (\<^verbatim>\<open>omitempty\<close>), and a slice.\<close>

definition encode_field :: "string \<Rightarrow> string \<Rightarrow> (string \<times> yaml) list" where
  "encode_field k s = [(k, YScalar s)]"

definition encode_omitempty :: "string \<Rightarrow> string \<Rightarrow> (string \<times> yaml) list" where
  "encode_omitempty k s = (if s = '''' then [] else [(k, YScalar s)])"

definition encode_list :: "string \<Rightarrow> ('a \<Rightarrow> yaml) \<Rightarrow> 'a list \<Rightarrow> (string \<times> yaml) list" where
  "encode_list k enc xs = [(k, YSeq (map enc xs))]"

lemmas encode_defs = encode_field_def encode_omitempty_def encode_list_def

section \<open>Lemmas\<close>

lemma those_map_Some [simp]: "those (map (\<lambda>x. Some (g x)) xs) = Some (map g xs)"
  by (induction xs) auto

text \<open>Decoding a list of encoded elements.\<close>

lemma decode_encoded_list:
  "(\<And>x. dec (enc x) = Some (g x)) \<Longrightarrow> decode_list dec (YSeq (map enc xs)) = Some (map g xs)"
  by (simp add: comp_def)

lemma decode_scalars [simp]: "decode_list decode_string (YSeq (map YScalar xs)) = Some xs"
  using decode_encoded_list [of decode_string YScalar "\<lambda>x. x" xs] by simp

text \<open>A field left out when empty decodes to what it was.\<close>

lemma decode_omitempty [simp]:
  "decode_string (case map_of (encode_omitempty k s @ m) k of None \<Rightarrow> YNull | Some t \<Rightarrow> t)
   = (if s = '''' then decode_string (case map_of m k of None \<Rightarrow> YNull | Some t \<Rightarrow> t) else Some s)"
  by (simp add: encode_omitempty_def)

end
