(* ===== verification/Config.thy ===== *)
theory Config
  imports Go_Yaml
begin

text \<open>
  \<^verbatim>\<open>internal/config/config.go\<close>: the configuration the gateway loads at start-up.  Reading the
  file and parsing the YAML text (\<^verbatim>\<open>gopkg.in/yaml.v3\<close>, a third-party package) are parameters of
  \<^verbatim>\<open>Load\<close>; what the struct tags select from the parsed document, the defaults and the checks that
  follow are the repository's own.
\<close>

record ClientKey =
  ck_Kid :: string
  ck_PubBase64 :: string
  ck_Subject :: string
  ck_Scopes :: "string list"

record CfgBackend =
  cb_ID :: string
  cb_Addr :: string  \<comment> \<open>https://host:port\<close>

record CfgService =
  svc_Name :: string
  svc_HealthPath :: string
  svc_Backends :: "CfgBackend list"

record CfgRoute =
  rt_Prefix :: string
  rt_Service :: string
  rt_RequiredScope :: string

record Config =
  ListenAddr :: string
  MetricsAddr :: string
  cfg_Issuer :: string
  cfg_Audience :: string
  NonceTTL :: duration
  RedisURL :: string
  ListenCertPath :: string
  ListenKeyPath :: string
  CACertPath :: string
  GatewayCertPath :: string
  GatewayKeyPath :: string
  ClientKeys :: "ClientKey list"
  Services :: "CfgService list"
  Routes :: "CfgRoute list"

section \<open>The tags of the structs\<close>

definition decode_ClientKey :: "yaml \<Rightarrow> ClientKey option" where
  "decode_ClientKey = decode_struct (\<lambda>f. do {
     k \<leftarrow> decode_string (f ''kid'');
     p \<leftarrow> decode_string (f ''pub'');
     s \<leftarrow> decode_string (f ''sub'');
     sc \<leftarrow> decode_list decode_string (f ''scopes'');
     Some \<lparr>ck_Kid = k, ck_PubBase64 = p, ck_Subject = s, ck_Scopes = sc\<rparr> })"

definition decode_CfgBackend :: "yaml \<Rightarrow> CfgBackend option" where
  "decode_CfgBackend = decode_struct (\<lambda>f. do {
     i \<leftarrow> decode_string (f ''id'');
     a \<leftarrow> decode_string (f ''addr'');
     Some \<lparr>cb_ID = i, cb_Addr = a\<rparr> })"

definition decode_CfgService :: "yaml \<Rightarrow> CfgService option" where
  "decode_CfgService = decode_struct (\<lambda>f. do {
     n \<leftarrow> decode_string (f ''name'');
     h \<leftarrow> decode_string (f ''health_path'');
     bs \<leftarrow> decode_list decode_CfgBackend (f ''backends'');
     Some \<lparr>svc_Name = n, svc_HealthPath = h, svc_Backends = bs\<rparr> })"

definition decode_CfgRoute :: "yaml \<Rightarrow> CfgRoute option" where
  "decode_CfgRoute = decode_struct (\<lambda>f. do {
     p \<leftarrow> decode_string (f ''prefix'');
     s \<leftarrow> decode_string (f ''service'');
     q \<leftarrow> decode_string (f ''required_scope'');
     Some \<lparr>rt_Prefix = p, rt_Service = s, rt_RequiredScope = q\<rparr> })"

definition decode_Config :: "(string \<Rightarrow> duration option) \<Rightarrow> yaml \<Rightarrow> Config option" where
  "decode_Config dur = decode_struct (\<lambda>f. do {
     la \<leftarrow> decode_string (f ''listen_addr'');
     ma \<leftarrow> decode_string (f ''metrics_addr'');
     iss \<leftarrow> decode_string (f ''issuer'');
     aud \<leftarrow> decode_string (f ''audience'');
     ttl \<leftarrow> decode_duration dur (f ''nonce_ttl'');
     red \<leftarrow> decode_string (f ''redis_url'');
     lc \<leftarrow> decode_string (f ''listen_cert'');
     lk \<leftarrow> decode_string (f ''listen_key'');
     ca \<leftarrow> decode_string (f ''ca_cert'');
     gc \<leftarrow> decode_string (f ''gateway_cert'');
     gk \<leftarrow> decode_string (f ''gateway_key'');
     cks \<leftarrow> decode_list decode_ClientKey (f ''client_keys'');
     svcs \<leftarrow> decode_list decode_CfgService (f ''services'');
     rts \<leftarrow> decode_list decode_CfgRoute (f ''routes'');
     Some \<lparr>ListenAddr = la, MetricsAddr = ma, cfg_Issuer = iss, cfg_Audience = aud, NonceTTL = ttl,
       RedisURL = red, ListenCertPath = lc, ListenKeyPath = lk, CACertPath = ca,
       GatewayCertPath = gc, GatewayKeyPath = gk, ClientKeys = cks, Services = svcs, Routes = rts\<rparr> })"

text \<open>\<^verbatim>\<open>yaml.Unmarshal(raw, &c)\<close> into an empty \<^verbatim>\<open>Config\<close>.\<close>

definition Config_Unmarshal :: "(bytes \<Rightarrow> string + yaml) \<Rightarrow> (string \<Rightarrow> duration option) \<Rightarrow> bytes \<Rightarrow> string + Config" where
  "Config_Unmarshal parse dur = yaml_Unmarshal_with parse (decode_Config dur)"

lemmas decode_defs = decode_ClientKey_def decode_CfgBackend_def decode_CfgService_def decode_CfgRoute_def

section \<open>Loading\<close>

datatype config_error =
    ReadConfig string
  | ParseConfig string
  | NoRoutes
  | NoServices

definition Load ::
  "(string \<Rightarrow> string + bytes) \<Rightarrow> (bytes \<Rightarrow> string + Config) \<Rightarrow> string \<Rightarrow> config_error + Config" where
  "Load readFile unmarshal path =
     (case readFile path of
        Inl err \<Rightarrow> Inl (ReadConfig err)
      | Inr raw \<Rightarrow>
     (case unmarshal raw of
        Inl err \<Rightarrow> Inl (ParseConfig err)
      | Inr c \<Rightarrow>
          let c = (if ListenAddr c = '''' then c\<lparr>ListenAddr := '':8080''\<rparr> else c);
              c = (if MetricsAddr c = '''' then c\<lparr>MetricsAddr := '':9090''\<rparr> else c);
              c = (if NonceTTL c = 0 then c\<lparr>NonceTTL := 5 * minute\<rparr> else c);
              c = (if cfg_Audience c = '''' then c\<lparr>cfg_Audience := ''gateway''\<rparr> else c)
          in if length (Routes c) = 0 then Inl NoRoutes
             else if length (Services c) = 0 then Inl NoServices
             else Inr c))"

text \<open>What a loaded configuration always satisfies.\<close>

definition wf_config :: "Config \<Rightarrow> bool" where
  "wf_config c \<longleftrightarrow>
     ListenAddr c \<noteq> '''' \<and> MetricsAddr c \<noteq> '''' \<and> NonceTTL c \<noteq> 0 \<and> cfg_Audience c \<noteq> ''''
     \<and> Routes c \<noteq> [] \<and> Services c \<noteq> []"

text \<open>The configuration with its defaults filled in.\<close>

definition with_defaults :: "Config \<Rightarrow> Config" where
  "with_defaults c =
     c\<lparr>ListenAddr := (if ListenAddr c = '''' then '':8080'' else ListenAddr c),
       MetricsAddr := (if MetricsAddr c = '''' then '':9090'' else MetricsAddr c),
       NonceTTL := (if NonceTTL c = 0 then 5 * minute else NonceTTL c),
       cfg_Audience := (if cfg_Audience c = '''' then ''gateway'' else cfg_Audience c)\<rparr>"

lemma Load_cases:
  "Load readFile unmarshal path =
     (case readFile path of
        Inl err \<Rightarrow> Inl (ReadConfig err)
      | Inr raw \<Rightarrow>
     (case unmarshal raw of
        Inl err \<Rightarrow> Inl (ParseConfig err)
      | Inr c \<Rightarrow> if Routes c = [] then Inl NoRoutes else if Services c = [] then Inl NoServices
                 else Inr (with_defaults c)))"
  by (simp add: Load_def with_defaults_def Let_def split: sum.split)

lemma wf_with_defaults: "Routes c \<noteq> [] \<Longrightarrow> Services c \<noteq> [] \<Longrightarrow> wf_config (with_defaults c)"
  by (simp add: wf_config_def with_defaults_def minute_def)

text \<open>
  \<^verbatim>\<open>Load\<close> succeeds exactly when the file is readable, parses, and has a route and a
  service; the result is then the parsed configuration with empty addresses, TTL and
  audience replaced by their defaults, and it is well formed.
\<close>

lemma Load_Inr_iff:
  "Load readFile unmarshal path = Inr c \<longleftrightarrow>
   (\<exists>raw c0. readFile path = Inr raw \<and> unmarshal raw = Inr c0 \<and> Routes c0 \<noteq> [] \<and> Services c0 \<noteq> []
      \<and> c = with_defaults c0 \<and> wf_config c)"
  unfolding Load_cases by (auto simp: wf_with_defaults split: sum.splits)

end
