(* ===== verification/Go_Float.thy ===== *)
theory Go_Float
  imports Prelude Complex_Main
begin

text \<open>
  Go's \<^verbatim>\<open>float64\<close> for the load balancer's latency scores.  A finite double is the rational
  number it denotes; an arithmetic operation is the exact one followed by \<^verbatim>\<open>rnd64\<close>, IEEE 754
  rounding to nearest, ties to even, with 53 significant bits and gradual underflow at
  exponent -1074.  Overflow to infinity is out of reach of the scores (bounded in
  \<^verbatim>\<open>Lb_Pool\<close>), and no operation fuses a multiplication with an addition.
\<close>

type_synonym float64 = rat

fun nat_log2 :: "nat \<Rightarrow> nat" where
  "nat_log2 n = (if n < 2 then 0 else Suc (nat_log2 (n div 2)))"

declare nat_log2.simps [simp del]

text \<open>The binary exponent of a positive rational: \<^verbatim>\<open>floor (log2 x)\<close>.\<close>

definition ilog2 :: "rat \<Rightarrow> int" where
  "ilog2 x =
     (if 1 \<le> x then int (nat_log2 (nat \<lfloor>x\<rfloor>))
      else - int (nat_log2 (nat (\<lceil>1 / x\<rceil> - 1))) - 1)"

definition round_half_even :: "rat \<Rightarrow> int" where
  "round_half_even y =
     (let f = \<lfloor>y\<rfloor>; r = y - of_int f in
      if r < 1 / 2 then f else if 1 / 2 < r then f + 1 else if even f then f else f + 1)"

text \<open>The spacing of the doubles around \<^verbatim>\<open>x\<close>.\<close>

definition ulp64 :: "rat \<Rightarrow> rat" where
  "ulp64 x = 2 powi (max (ilog2 \<bar>x\<bar>) (- 1022) - 52)"

definition rnd64 :: "rat \<Rightarrow> float64" where
  "rnd64 x = (if x = 0 then 0 else of_int (round_half_even (x / ulp64 x)) * ulp64 x)"

definition f64_add :: "float64 \<Rightarrow> float64 \<Rightarrow> float64" where
  "f64_add x y = rnd64 (x + y)"

definition f64_mul :: "float64 \<Rightarrow> float64 \<Rightarrow> float64" where
  "f64_mul x y = rnd64 (x * y)"

definition f64_of_int :: "int \<Rightarrow> float64" where
  "f64_of_int i = rnd64 (of_int i)"

text \<open>The values that are doubles.\<close>

definition is_f64 :: "rat \<Rightarrow> bool" where
  "is_f64 x \<longleftrightarrow> rnd64 x = x"

section \<open>Exponents\<close>

lemma nat_log2_bounds: "0 < n \<Longrightarrow> 2 ^ nat_log2 n \<le> n \<and> n < 2 ^ Suc (nat_log2 n)"
proof (induction n rule: nat_log2.induct)
  case (1 n)
  show ?case
  proof (cases "n < 2")
    case True
    with "1.prems" show ?thesis by (simp add: nat_log2.simps)
  next
    case False
    then have "nat_log2 n = Suc (nat_log2 (n div 2))"
      by (simp add: nat_log2.simps [of n])
    with "1.IH" [OF False] False show ?thesis by auto
  qed
qed

lemma nat_log2_bounds_rat:
  "0 < n \<Longrightarrow> (2 :: rat) ^ nat_log2 n \<le> of_nat n \<and> (of_nat n :: rat) + 1 \<le> 2 ^ Suc (nat_log2 n)"
  using nat_log2_bounds [of n]
  by (metis Suc_leI of_nat_Suc of_nat_le_iff of_nat_numeral of_nat_power add.commute)

lemma powi_Suc_exp: "(2 :: rat) powi (e + 1) = 2 * 2 powi e"
  by (simp add: power_int_add)

lemma ilog2_bounds:
  assumes "0 < x"
  shows "2 powi ilog2 x \<le> x" and "x < 2 powi (ilog2 x + 1)"
proof -
  have "2 powi ilog2 x \<le> x \<and> x < 2 powi (ilog2 x + 1)"
  proof (cases "1 \<le> x")
    case True
    define n where "n = nat \<lfloor>x\<rfloor>"
    have n: "0 < n" "of_nat n \<le> x" "x < of_nat n + 1"
      using True by (auto simp: n_def le_nat_floor of_nat_nat) linarith+
    with nat_log2_bounds_rat [OF n(1)] have "2 ^ nat_log2 n \<le> x" "x < 2 ^ Suc (nat_log2 n)"
      by linarith+
    with True show ?thesis
      by (simp add: ilog2_def n_def [symmetric] powi_Suc_exp)
  next
    case False
    define m where "m = nat (\<lceil>1 / x\<rceil> - 1)"
    have y: "1 < 1 / x" using assms False by simp
    have m: "0 < m" "of_nat m < 1 / x" "1 / x \<le> of_nat m + 1"
      using y by (auto simp: m_def of_nat_nat) linarith+
    with nat_log2_bounds_rat [OF m(1)]
    have k: "2 ^ nat_log2 m < 1 / x" "1 / x \<le> 2 ^ Suc (nat_log2 m)" by linarith+
    have e: "ilog2 x = - int (Suc (nat_log2 m))"
      using False by (simp add: ilog2_def m_def)
    have "(2 :: rat) powi ilog2 x = 1 / 2 ^ Suc (nat_log2 m)"
      unfolding e power_int_minus power_int_of_nat by (simp add: field_simps)
    moreover have e': "ilog2 x + 1 = - int (nat_log2 m)"
      using e by simp
    moreover have "(2 :: rat) powi (ilog2 x + 1) = 1 / 2 ^ nat_log2 m"
      unfolding e' power_int_minus power_int_of_nat by (simp add: field_simps)
    moreover have "1 / 2 ^ Suc (nat_log2 m) \<le> x" "x < 1 / 2 ^ nat_log2 m"
      using k assms by (simp_all add: field_simps)
    ultimately show ?thesis by simp
  qed
  then show "2 powi ilog2 x \<le> x" and "x < 2 powi (ilog2 x + 1)" by auto
qed

lemma powi_mono: "a \<le> b \<Longrightarrow> (2 :: rat) powi a \<le> 2 powi b"
  by (simp add: power_int_increasing)

lemma powi_less_iff: "(2 :: rat) powi a < 2 powi b \<longleftrightarrow> a < b"
  by (metis linorder_not_less one_less_numeral_iff power_int_strict_increasing powi_mono semiring_norm(76))

lemma ilog2_eqI: "2 powi e \<le> x \<Longrightarrow> x < 2 powi (e + 1) \<Longrightarrow> ilog2 x = e"
proof -
  assume x: "2 powi e \<le> x" "x < 2 powi (e + 1)"
  have "0 < x" using x(1) by (metis less_le_trans zero_less_numeral zero_less_power_int)
  from ilog2_bounds [OF this] x have "2 powi ilog2 x < (2 :: rat) powi (e + 1)"
    "(2 :: rat) powi e < 2 powi (ilog2 x + 1)" by linarith+
  then show ?thesis by (simp add: powi_less_iff)
qed

lemma ilog2_mono: "0 < x \<Longrightarrow> x \<le> y \<Longrightarrow> ilog2 x \<le> ilog2 y"
  using ilog2_bounds [of x] ilog2_bounds [of y] powi_less_iff [of "ilog2 x" "ilog2 y + 1"] by linarith

section \<open>Rounding to an integer\<close>

lemma round_half_even_of_int [simp]: "round_half_even (of_int n) = n"
  by (simp add: round_half_even_def Let_def)

lemma round_half_even_error: "\<bar>of_int (round_half_even y) - y\<bar> \<le> 1 / 2"
  unfolding round_half_even_def Let_def abs_le_iff
  by (auto simp: field_simps; linarith)

lemma round_half_even_floor: "\<lfloor>y\<rfloor> \<le> round_half_even y" "round_half_even y \<le> \<lfloor>y\<rfloor> + 1"
  unfolding round_half_even_def Let_def by auto

lemma round_half_even_mono: "y \<le> z \<Longrightarrow> round_half_even y \<le> round_half_even z"
proof (cases "\<lfloor>y\<rfloor> = \<lfloor>z\<rfloor>")
  case True
  assume "y \<le> z"
  with True show ?thesis unfolding round_half_even_def Let_def by auto
next
  case False
  assume "y \<le> z"
  with False have "\<lfloor>y\<rfloor> + 1 \<le> \<lfloor>z\<rfloor>" using floor_mono [of y z] by linarith
  then show ?thesis using round_half_even_floor(2) [of y] round_half_even_floor(1) [of z] by linarith
qed

lemma round_half_even_le: "y \<le> of_int n \<Longrightarrow> round_half_even y \<le> n"
  using round_half_even_mono [of y "of_int n"] by simp

lemma round_half_even_ge: "of_int n \<le> y \<Longrightarrow> n \<le> round_half_even y"
  using round_half_even_mono [of "of_int n" y] by simp

lemma round_half_even_down: "y < of_int n + 1 / 2 \<Longrightarrow> round_half_even y \<le> n"
proof (cases "of_int n \<le> y")
  case True
  assume "y < of_int n + 1 / 2"
  with True have "\<lfloor>y\<rfloor> = n" by (simp add: floor_eq_iff)
  then show ?thesis using \<open>y < of_int n + 1 / 2\<close> by (simp add: round_half_even_def)
next
  case False
  then show ?thesis using round_half_even_le [of y n] by simp
qed

section \<open>Rounding to a double\<close>

lemma ulp64_pos [simp]: "0 < ulp64 x"
  by (simp add: ulp64_def)

lemma ulp64_nonzero [simp]: "ulp64 x \<noteq> 0"
  using ulp64_pos [of x] by linarith

lemma rnd64_zero [simp]: "rnd64 0 = 0"
  by (simp add: rnd64_def)

lemma rnd64_eq: "rnd64 x = of_int (round_half_even (x / ulp64 x)) * ulp64 x"
proof (cases "x = 0")
  case True
  have "round_half_even 0 = 0" using round_half_even_of_int [of 0] by simp
  with True show ?thesis by (simp add: rnd64_def)
qed (simp add: rnd64_def)

lemma rnd64_nonneg: "0 \<le> x \<Longrightarrow> 0 \<le> rnd64 x"
proof -
  assume "0 \<le> x"
  then have "(0 :: int) \<le> round_half_even (x / ulp64 x)"
    by (intro round_half_even_ge) (simp add: divide_nonneg_pos)
  then show ?thesis by (simp add: rnd64_eq less_imp_le)
qed

lemma rnd64_error: "\<bar>rnd64 x - x\<bar> \<le> ulp64 x / 2"
proof -
  have "rnd64 x - x = (of_int (round_half_even (x / ulp64 x)) - x / ulp64 x) * ulp64 x"
    by (simp add: rnd64_eq algebra_simps)
  then have "\<bar>rnd64 x - x\<bar> = \<bar>of_int (round_half_even (x / ulp64 x)) - x / ulp64 x\<bar> * ulp64 x"
    by (simp add: abs_mult abs_of_pos)
  also have "\<dots> \<le> 1 / 2 * ulp64 x"
    by (intro mult_right_mono round_half_even_error) (simp add: less_imp_le)
  finally show ?thesis by simp
qed

text \<open>The mantissa of a positive value lies below 53 bits, and above 52 when it is normal.\<close>

lemma mantissa_upper: "0 < x \<Longrightarrow> x < 2 ^ 53 * ulp64 x"
proof -
  assume "0 < x"
  then have "x < 2 powi (ilog2 x + 1)" by (rule ilog2_bounds)
  also have "\<dots> \<le> 2 powi (53 + (max (ilog2 x) (- 1022) - 52))" by (rule powi_mono) simp
  also have "\<dots> = 2 ^ 53 * ulp64 x" using \<open>0 < x\<close> by (subst power_int_add) (simp_all add: ulp64_def)
  finally show ?thesis .
qed

lemma ulp64_normal: "2 powi (- 1022) \<le> x \<Longrightarrow> 2 ^ 52 * ulp64 x \<le> x"
proof -
  assume x: "2 powi (- 1022) \<le> x"
  then have pos: "0 < x" by (metis less_le_trans zero_less_numeral zero_less_power_int)
  have "(2 :: rat) powi (- 1022) < 2 powi (ilog2 x + 1)"
    using x ilog2_bounds(2) [OF pos] by linarith
  then have e: "- 1022 \<le> ilog2 x" by (simp only: powi_less_iff)
  have "2 ^ 52 * ulp64 x = 2 powi (52 + (ilog2 x - 52))"
    using e pos by (subst power_int_add) (simp_all add: ulp64_def)
  also have "\<dots> \<le> x" using ilog2_bounds(1) [OF pos] by simp
  finally show ?thesis .
qed

lemma rnd64_relative_error: "2 powi (- 1022) \<le> x \<Longrightarrow> \<bar>rnd64 x - x\<bar> \<le> x / 2 ^ 53"
  using rnd64_error [of x] ulp64_normal [of x] by simp

lemma ulp64_mono: "0 < x \<Longrightarrow> x \<le> y \<Longrightarrow> ulp64 x \<le> ulp64 y"
  unfolding ulp64_def by (rule powi_mono) (use ilog2_mono [of x y] in auto)

text \<open>Across binades the powers of two separate the rounded values.\<close>

lemma rnd64_mono_pos:
  assumes "0 < x" and "x \<le> y"
  shows "rnd64 x \<le> rnd64 y"
proof (cases "ulp64 x = ulp64 y")
  case True
  have "round_half_even (x / ulp64 x) \<le> round_half_even (y / ulp64 y)"
    using True assms(2) by (intro round_half_even_mono) (simp add: divide_right_mono less_imp_le)
  with True show ?thesis
    unfolding rnd64_eq by (simp add: mult_right_mono less_imp_le)
next
  case False
  define ex ey where "ex = max (ilog2 x) (- 1022)" and "ey = max (ilog2 y) (- 1022)"
  have y: "0 < y" using assms by simp
  have ux: "ulp64 x = 2 powi (ex - 52)" and uy: "ulp64 y = 2 powi (ey - 52)"
    using assms y by (simp_all add: ulp64_def ex_def ey_def)
  have "ex \<noteq> ey" using False unfolding ux uy by auto
  with ilog2_mono [OF assms] have "ex < ey" unfolding ex_def ey_def by auto
  then have ey: "ey = ilog2 y" by (auto simp: ex_def ey_def max_def split: if_splits)
  have "rnd64 x \<le> of_int (2 ^ 53) * ulp64 x"
    unfolding rnd64_eq using mantissa_upper [OF assms(1)]
    by (intro mult_right_mono, simp only: of_int_le_iff, intro round_half_even_le)
       (simp_all add: field_simps less_imp_le)
  also have "\<dots> = 2 powi (53 + (ex - 52))" unfolding ux by (subst power_int_add) simp_all
  also have "\<dots> \<le> 2 powi (52 + (ey - 52))" using \<open>ex < ey\<close> by (intro powi_mono) simp
  also have "\<dots> = of_int (2 ^ 52) * ulp64 y" unfolding uy by (subst power_int_add) simp_all
  also have "\<dots> \<le> rnd64 y"
  proof -
    have "2 powi (52 + (ey - 52)) \<le> y" using ilog2_bounds(1) [OF y] ey by simp
    then have "2 ^ 52 * ulp64 y \<le> y" unfolding uy by (subst (asm) power_int_add) simp_all
    then show ?thesis
      unfolding rnd64_eq
      by (intro mult_right_mono, simp only: of_int_le_iff, intro round_half_even_ge)
         (simp_all add: field_simps less_imp_le)
  qed
  finally show ?thesis .
qed

lemma rnd64_mono: "0 \<le> x \<Longrightarrow> x \<le> y \<Longrightarrow> rnd64 x \<le> rnd64 y"
  using rnd64_mono_pos [of x y] rnd64_nonneg [of y] by (cases "x = 0") auto

text \<open>A multiple of a spacing no finer than its own, of at most 53 bits, is a double.\<close>

lemma is_f64_multiple_less:
  assumes "x = of_int m * 2 powi e" and "- 1074 \<le> e" and "0 < m" and "m < 2 ^ 53"
  shows "is_f64 x"
proof -
  have pos: "0 < x" using assms by simp
  have "(of_int m :: rat) < of_int (2 ^ 53)" using assms(4) by (simp only: of_int_less_iff)
  then have "x < 2 ^ 53 * 2 powi e" unfolding assms(1) by simp
  also have "\<dots> = 2 powi (53 + e)" by (subst power_int_add) simp_all
  finally have "2 powi ilog2 x < (2 :: rat) powi (53 + e)" using ilog2_bounds(1) [OF pos] by linarith
  then have "ilog2 x < 53 + e" by (simp only: powi_less_iff)
  define k where "k = nat (e - (max (ilog2 x) (- 1022) - 52))"
  have k: "e = int k + (max (ilog2 x) (- 1022) - 52)"
    using \<open>ilog2 x < 53 + e\<close> assms(2) by (auto simp: k_def max_def)
  have "2 powi e = 2 ^ k * ulp64 x"
    using pos by (subst k, subst power_int_add) (simp_all add: ulp64_def)
  then have "x = of_int (m * 2 ^ k) * ulp64 x" using assms(1) by simp
  then have "x / ulp64 x = of_int (m * 2 ^ k)" 
    by (metis nonzero_mult_div_cancel_right ulp64_nonzero)
  then show ?thesis
    unfolding is_f64_def rnd64_eq using ulp64_nonzero [of x] by (metis eq_divide_eq round_half_even_of_int)
qed

lemma is_f64_multiple:
  assumes "x = of_int m * 2 powi e" and "- 1074 \<le> e" and "0 < m" and "m \<le> 2 ^ 53"
  shows "is_f64 x"
proof (cases "m = 2 ^ 53")
  case True
  have "x = of_int (2 ^ 52) * 2 powi (e + 1)"
    unfolding assms(1) True powi_Suc_exp by simp
  then show ?thesis by (rule is_f64_multiple_less) (use assms(2) in simp_all)
next
  case False
  with assms show ?thesis by (intro is_f64_multiple_less [of x m e]) auto
qed

lemma is_f64_int: "0 \<le> n \<Longrightarrow> n \<le> 2 ^ 53 \<Longrightarrow> is_f64 (of_int n)"
  using is_f64_multiple [of "of_int n" n 0] by (cases "n = 0") (auto simp: is_f64_def)

lemma is_f64_rnd64: "0 \<le> x \<Longrightarrow> is_f64 (rnd64 x)"
proof (cases "rnd64 x = 0")
  case True
  then show ?thesis by (simp add: is_f64_def)
next
  case False
  assume "0 \<le> x"
  with False have pos: "0 < x" by (cases "x = 0") auto
  define m where "m = round_half_even (x / ulp64 x)"
  have x: "rnd64 x = of_int m * 2 powi (max (ilog2 x) (- 1022) - 52)"
    using pos by (simp add: rnd64_eq m_def ulp64_def)
  have "0 \<le> m" unfolding m_def using pos
    by (intro round_half_even_ge) (simp add: divide_nonneg_pos)
  moreover have "m \<noteq> 0" using False x by auto
  moreover have "m \<le> 2 ^ 53" unfolding m_def using mantissa_upper [OF pos]
    by (intro round_half_even_le) (simp add: field_simps less_imp_le)
  ultimately show ?thesis
    by (intro is_f64_multiple [OF x]) auto
qed

lemma is_f64_ops:
  "0 \<le> x + y \<Longrightarrow> is_f64 (f64_add x y)" "0 \<le> x * y \<Longrightarrow> is_f64 (f64_mul x y)" "0 \<le> i \<Longrightarrow> is_f64 (f64_of_int i)"
  by (simp_all add: f64_add_def f64_mul_def f64_of_int_def is_f64_rnd64)

text \<open>Rounding does not cross a double.\<close>

lemma rnd64_le_f64: "0 \<le> x \<Longrightarrow> x \<le> m \<Longrightarrow> is_f64 m \<Longrightarrow> rnd64 x \<le> m"
  using rnd64_mono [of x m] by (simp add: is_f64_def)

lemma rnd64_ge_f64: "0 \<le> m \<Longrightarrow> m \<le> x \<Longrightarrow> is_f64 m \<Longrightarrow> m \<le> rnd64 x"
  using rnd64_mono [of m x] by (simp add: is_f64_def)

text \<open>A value less than half a spacing above a double rounds to it or below.\<close>

lemma rnd64_half_ulp:
  assumes "0 < m" and "is_f64 m" and "0 \<le> x" and "x < m + ulp64 m / 2"
  shows "rnd64 x \<le> m"
proof (cases "x \<le> m")
  case True
  with assms show ?thesis by (intro rnd64_le_f64) auto
next
  case False
  define k where "k = round_half_even (m / ulp64 m)"
  have m: "m = of_int k * ulp64 m"
    using assms(2) unfolding is_f64_def rnd64_eq k_def by simp
  have "(of_int k :: rat) < 2 ^ 53"
    using mantissa_upper [OF assms(1)] m by (metis mult_less_cancel_right_pos ulp64_pos)
  then have "(of_int k :: rat) < of_int (2 ^ 53)" by simp
  then have "k + 1 \<le> 2 ^ 53" by (simp only: of_int_less_iff)
  then have "of_int (k + 1) \<le> (of_int (2 ^ 53) :: rat)" by (simp only: of_int_le_iff)
  then have top: "m + ulp64 m \<le> 2 ^ 53 * ulp64 m"
    using m mult_right_mono [of "of_int (k + 1)" "2 ^ 53 :: rat" "ulp64 m"]
    by (simp add: algebra_simps less_imp_le)
  have ux: "ulp64 x = ulp64 m"
  proof -
    define e where "e = max (ilog2 m) (- 1022)"
    have u: "ulp64 m = 2 powi (e - 52)" using assms(1) by (simp add: ulp64_def e_def)
    have "2 ^ 53 * ulp64 m = 2 powi (53 + (e - 52))"
      unfolding u by (subst power_int_add) simp_all
    then have "m + ulp64 m \<le> 2 powi (e + 1)" using top by (simp add: add.commute)
    then have "x < 2 powi (e + 1)" using assms(4) ulp64_pos [of m] by linarith
    then have "2 powi ilog2 x < (2 :: rat) powi (e + 1)"
      using ilog2_bounds(1) [of x] assms(1) False by linarith
    then have "ilog2 x \<le> e" by (simp only: powi_less_iff)
    then have "max (ilog2 x) (- 1022) = e"
      using ilog2_mono [of m x] assms(1) False by (simp add: e_def)
    with u show ?thesis using assms(1) False by (simp add: ulp64_def)
  qed
  have "x / ulp64 x < of_int k + 1 / 2"
    unfolding ux using assms(4) m ulp64_pos [of m] by (simp add: field_simps)
  then have "round_half_even (x / ulp64 x) \<le> k" by (rule round_half_even_down)
  then have "rnd64 x \<le> of_int k * ulp64 x"
    unfolding rnd64_eq by (intro mult_right_mono) (simp_all add: less_imp_le)
  then show ?thesis using m ux by simp
qed

text \<open>Half the least positive double is rounded away from zero.\<close>

lemma rnd64_pos:
  assumes "2 powi (- 1074) * (51 / 100) \<le> x"
  shows "0 < rnd64 x"
proof -
  define u where "u = (2 :: rat) powi (- 1074)"
  have u: "0 < u" unfolding u_def by (rule zero_less_power_int) simp
  then have y: "0 < u * (51 / 100)" "u * (51 / 100) < u" by simp_all
  then have "2 powi ilog2 (u * (51 / 100)) < (2 :: rat) powi (- 1074)"
    using ilog2_bounds(1) [OF y(1)] unfolding u_def by linarith
  then have "ilog2 (u * (51 / 100)) < - 1074" by (simp only: powi_less_iff)
  then have "ulp64 (u * (51 / 100)) = u" using u by (simp add: ulp64_def max_def u_def)
  then have "u * (51 / 100) / ulp64 (u * (51 / 100)) = 51 / 100" using u by simp
  moreover have "\<lfloor>51 / 100 :: rat\<rfloor> = 0" by (simp add: floor_eq_iff)
  then have "round_half_even (51 / 100) = 1" by (simp add: round_half_even_def)
  ultimately have "rnd64 (u * (51 / 100)) = of_int 1 * ulp64 (u * (51 / 100))"
    by (simp only: rnd64_eq)
  then have "0 < rnd64 (u * (51 / 100))" by (simp only: of_int_1 mult_1_left ulp64_pos)
  also have "\<dots> \<le> rnd64 x" using y(1) assms unfolding u_def by (rule rnd64_mono_pos)
  finally show ?thesis .
qed

end
