(* ===== verification/Lb_Pool.thy ===== *)
theory Lb_Pool
  imports Config Go_Float
begin

text \<open>
  \<^verbatim>\<open>internal/lb/pool.go\<close>: backends, their live statistics, and power-of-two-choices selection.
  A pool owns its backends, so a \<^verbatim>\<open>*Backend\<close> is the index of the backend in its pool;
  \<^verbatim>\<open>rand.Intn(n)\<close> is an arbitrary number reduced modulo \<^verbatim>\<open>n\<close>, passed as an argument, so a
  statement for all arguments covers every outcome of the random source.
\<close>

section \<open>Data\<close>

record Backend =
  ID :: string
  Addr :: string
  healthy :: bool
  inflight :: int64
  ewmaMs :: float64
  hasStats :: bool

record Pool =
  Service :: string
  backends :: "Backend list"

section \<open>Backend operations\<close>

definition IsHealthy :: "Backend \<Rightarrow> bool" where
  "IsHealthy b = healthy b"

definition SetHealthy :: "Backend \<Rightarrow> bool \<Rightarrow> Backend" where
  "SetHealthy b v =
     (let prev = healthy b; b = b\<lparr>healthy := v\<rparr>
      in if v \<and> \<not> prev then b\<lparr>ewmaMs := 0, hasStats := False\<rparr> else b)"

definition Inflight :: "Backend \<Rightarrow> int64" where
  "Inflight b = inflight b"

definition Acquire :: "Backend \<Rightarrow> Backend" where
  "Acquire b = b\<lparr>inflight := inflight b + 1\<rparr>"

definition Release :: "Backend \<Rightarrow> Backend" where
  "Release b = b\<lparr>inflight := inflight b - 1\<rparr>"

text \<open>The untyped constants 0.3 and 1 - 0.3, converted to float64.\<close>

definition alpha :: float64 where
  "alpha = rnd64 (3 / 10)"

definition one_minus_alpha :: float64 where
  "one_minus_alpha = rnd64 (7 / 10)"

definition RecordLatency :: "Backend \<Rightarrow> duration \<Rightarrow> Backend" where
  "RecordLatency b d =
     (let sample = f64_of_int (duration_Milliseconds d) in
      if \<not> hasStats b then b\<lparr>ewmaMs := sample, hasStats := True\<rparr>
      else b\<lparr>ewmaMs := f64_add (f64_mul alpha sample) (f64_mul one_minus_alpha (ewmaMs b))\<rparr>)"

definition score :: "Backend \<Rightarrow> float64" where
  "score b =
     (let ewma = ewmaMs b; ewma = (if ewma = 0 then 1 else ewma)
      in f64_mul ewma (f64_of_int (sint (Inflight b + 1))))"

definition SafeScore :: "float64 \<Rightarrow> int64 \<Rightarrow> float64" where
  "SafeScore ewma n =
     (let ewma = (if ewma = 0 then 1 else ewma)
      in f64_mul (max ewma 0) (f64_of_int (sint (n + 1))))"

section \<open>Pool operations\<close>

definition new_backend :: "CfgBackend \<Rightarrow> Backend" where
  "new_backend b =
     \<lparr>ID = cb_ID b, Addr = cb_Addr b, healthy = True, inflight = 0, ewmaMs = 0, hasStats = False\<rparr>"

definition NewPool :: "string \<Rightarrow> CfgBackend list \<Rightarrow> Pool" where
  "NewPool service cfg = \<lparr>Service = service, backends = map new_backend cfg\<rparr>"

definition All :: "Pool \<Rightarrow> nat list" where
  "All p = [0..<length (backends p)]"

definition Healthy :: "Pool \<Rightarrow> nat list" where
  "Healthy p = filter (\<lambda>i. IsHealthy (backends p ! i)) (All p)"

definition Total :: "Pool \<Rightarrow> int" where
  "Total p = int (length (backends p))"

definition rand_Intn :: "nat \<Rightarrow> nat \<Rightarrow> nat" where
  "rand_Intn r n = r mod n"

text \<open>The two distinct positions sampled out of \<^verbatim>\<open>n\<close>.\<close>

definition sample_pair :: "nat \<Rightarrow> nat \<Rightarrow> nat \<Rightarrow> nat \<times> nat" where
  "sample_pair r1 r2 n =
     (let i = rand_Intn r1 n; j = rand_Intn r2 (n - 1); j = (if i \<le> j then j + 1 else j)
      in (i, j))"

definition Pick :: "Pool \<Rightarrow> nat \<Rightarrow> nat \<Rightarrow> nat option" where
  "Pick p r1 r2 =
     (let h = Healthy p in
      if length h = 0 then None
      else if length h = 1 then Some (h ! 0)
      else (let (i, j) = sample_pair r1 r2 (length h); a = h ! i; b = h ! j in
            if score (backends p ! a) \<le> score (backends p ! b) then Some a else Some b))"

text \<open>Updating one backend of a pool in place, through its pointer.\<close>

definition on_backend :: "(Backend \<Rightarrow> Backend) \<Rightarrow> nat \<Rightarrow> Pool \<Rightarrow> Pool" where
  "on_backend f i p = p\<lparr>backends := (backends p)[i := f (backends p ! i)]\<rparr>"

section \<open>What request traffic may do to a backend\<close>

text \<open>
  The contract the health checker and the request path share: traffic changes the load
  figures of a backend, never its identity, its address or its health.
\<close>

locale traffic_op =
  fixes f :: "Backend \<Rightarrow> Backend"
  assumes keeps_ID: "ID (f b) = ID b"
    and keeps_Addr: "Addr (f b) = Addr b"
    and keeps_healthy: "healthy (f b) = healthy b"
begin

lemma keeps_length [simp]: "length (backends (on_backend f i p)) = length (backends p)"
  by (simp add: on_backend_def)

lemma keeps_nth:
  "ID (backends (on_backend f i p) ! j) = ID (backends p ! j)"
  "Addr (backends (on_backend f i p) ! j) = Addr (backends p ! j)"
  "healthy (backends (on_backend f i p) ! j) = healthy (backends p ! j)"
proof -
  have "backends (on_backend f i p) ! j =
      (if i = j \<and> i < length (backends p) then f (backends p ! j) else backends p ! j)"
    by (cases "i = j") (simp_all add: on_backend_def list_update_beyond)
  then show "ID (backends (on_backend f i p) ! j) = ID (backends p ! j)"
    "Addr (backends (on_backend f i p) ! j) = Addr (backends p ! j)"
    "healthy (backends (on_backend f i p) ! j) = healthy (backends p ! j)"
    by (simp_all add: keeps_ID keeps_Addr keeps_healthy)
qed

lemma keeps_IDs: "map ID (backends (on_backend f i p)) = map ID (backends p)"
  by (rule nth_equalityI) (simp_all add: keeps_nth)

lemma keeps_Addrs: "map Addr (backends (on_backend f i p)) = map Addr (backends p)"
  by (rule nth_equalityI) (simp_all add: keeps_nth)

lemma keeps_Healthy: "Healthy (on_backend f i p) = Healthy p"
  by (simp add: Healthy_def All_def IsHealthy_def keeps_nth)

end

interpretation acquire: traffic_op Acquire
  by unfold_locales (simp_all add: Acquire_def)

interpretation release: traffic_op Release
  by unfold_locales (simp_all add: Release_def)

interpretation latency: traffic_op "\<lambda>b. RecordLatency b d" for d
  by unfold_locales (simp_all add: RecordLatency_def Let_def)

section \<open>Selection lemmas\<close>

lemma Healthy_set: "i \<in> set (Healthy p) \<longleftrightarrow> i < length (backends p) \<and> healthy (backends p ! i)"
  by (auto simp: Healthy_def All_def IsHealthy_def)

lemma Healthy_distinct: "distinct (Healthy p)"
  by (simp add: Healthy_def All_def)

lemma Healthy_Nil_iff: "Healthy p = [] \<longleftrightarrow> (\<forall>b \<in> set (backends p). \<not> healthy b)"
  by (fastforce simp: Healthy_def All_def IsHealthy_def filter_empty_conv in_set_conv_nth)

lemma sample_pair_bounds:
  assumes "2 \<le> n" and "sample_pair r1 r2 n = (i, j)"
  shows "i < n" "j < n" "i \<noteq> j"
proof -
  have "r1 mod n < n" "r2 mod (n - 1) < n - 1" using assms(1) by simp_all
  with assms(2) show "i < n" "j < n" "i \<noteq> j"
    by (auto simp: sample_pair_def rand_Intn_def Let_def split: if_splits)
qed

lemma sample_pair_onto:
  assumes "i < n" and "j < n" and "i \<noteq> j"
  shows "sample_pair i (if i < j then j - 1 else j) n = (i, j)"
  using assms by (auto simp: sample_pair_def rand_Intn_def Let_def)

text \<open>
  The choice, as one of the two sampled healthy backends, the one whose score is no
  greater.
\<close>

lemma Pick_two:
  assumes "2 \<le> length (Healthy p)"
  obtains i j where "sample_pair r1 r2 (length (Healthy p)) = (i, j)"
    and "Pick p r1 r2 = Some (if score (backends p ! (Healthy p ! i)) \<le> score (backends p ! (Healthy p ! j))
           then Healthy p ! i else Healthy p ! j)"
    and "i < length (Healthy p)" "j < length (Healthy p)" "i \<noteq> j"
proof -
  obtain i j where ij: "sample_pair r1 r2 (length (Healthy p)) = (i, j)"
    by (cases "sample_pair r1 r2 (length (Healthy p))")
  show ?thesis
    by (rule that [OF ij])
       (use assms ij sample_pair_bounds [OF assms ij] in \<open>auto simp: Pick_def Let_def\<close>)
qed

lemma Pick_cases:
  obtains (none) "Healthy p = []" "Pick p r1 r2 = None"
    | (one) i where "Healthy p = [i]" "Pick p r1 r2 = Some i"
    | (two) "2 \<le> length (Healthy p)"
proof (cases "Healthy p")
  case Nil
  then show ?thesis using none by (simp add: Pick_def)
next
  case (Cons i rest)
  show ?thesis
  proof (cases rest)
    case Nil
    then show ?thesis using one Cons by (simp add: Pick_def)
  next
    case c: (Cons k ks)
    show ?thesis by (rule two) (simp add: Cons c)
  qed
qed

lemma Pick_in_Healthy: "Pick p r1 r2 = Some i \<Longrightarrow> i \<in> set (Healthy p)"
proof (cases rule: Pick_cases [of p r1 r2])
  case two
  assume "Pick p r1 r2 = Some i"
  with two show ?thesis
    by (elim Pick_two [of p r1 r2]) (auto split: if_splits)
qed auto

lemma Pick_None_iff: "Pick p r1 r2 = None \<longleftrightarrow> Healthy p = []"
proof (cases rule: Pick_cases [of p r1 r2])
  case two
  then show ?thesis
    by (elim Pick_two [of p r1 r2]) auto
qed auto

section \<open>Latency statistics\<close>

lemma sample_small:
  assumes "0 \<le> sint (d :: duration)"
  shows "0 \<le> duration_Milliseconds d" and "duration_Milliseconds d < 2 ^ 44"
  using assms sint_range64 [of d]
  by (auto simp: duration_Milliseconds_def signed_divide_int_def sgn_if)

text \<open>A latency sample is a whole number of milliseconds, exact as a double.\<close>

lemma sample_exact:
  assumes "0 \<le> sint (d :: duration)"
  shows "f64_of_int (duration_Milliseconds d) = of_int (duration_Milliseconds d)"
  using is_f64_int [of "duration_Milliseconds d"] sample_small [OF assms]
  by (simp add: f64_of_int_def is_f64_def)

lemma alpha_value: "alpha = 5404319552844595 / 2 ^ 54"
  unfolding alpha_def by code_simp

lemma one_minus_alpha_value: "one_minus_alpha = 6305039478318694 / 2 ^ 53"
  unfolding one_minus_alpha_def by code_simp

lemma alpha_sum: "alpha + one_minus_alpha = 1 - 1 / 2 ^ 54"
  by (simp add: alpha_value one_minus_alpha_value)

lemma alpha_pos: "1 / 4 \<le> alpha" "alpha \<le> 1" "69 / 100 \<le> one_minus_alpha" "one_minus_alpha \<le> 1"
  by (simp_all add: alpha_value one_minus_alpha_value)

definition ewma_step :: "float64 \<Rightarrow> float64 \<Rightarrow> float64" where
  "ewma_step s e = f64_add (f64_mul alpha s) (f64_mul one_minus_alpha e)"

lemma ewma_step_nonneg: "0 \<le> s \<Longrightarrow> 0 \<le> e \<Longrightarrow> 0 \<le> ewma_step s e"
  using alpha_pos by (simp add: ewma_step_def f64_add_def f64_mul_def rnd64_nonneg)

lemma ewma_step_mono:
  assumes "0 \<le> s" "s \<le> s'" "0 \<le> e" "e \<le> e'"
  shows "ewma_step s e \<le> ewma_step s' e'"
  unfolding ewma_step_def f64_add_def f64_mul_def
  using assms alpha_pos
  by (intro rnd64_mono add_mono mult_left_mono add_nonneg_nonneg rnd64_nonneg mult_nonneg_nonneg) auto

text \<open>
  The two rounded weights add up to slightly less than one, which absorbs the rounding of
  the products and of the sum.
\<close>

lemma ewma_step_diag:
  assumes "1 \<le> m" and "is_f64 m"
  shows "ewma_step m m \<le> m"
proof -
  have tiny: "(2 :: rat) powi (- 1022) \<le> 1 / 4"
    using powi_mono [of "- 1022" "- 2"] by (simp add: power_int_minus)
  have rel: "rnd64 x \<le> x + x / 2 ^ 53" if "1 / 4 \<le> x" for x
    using rnd64_relative_error [of x] that tiny abs_ge_self [of "rnd64 x - x"] by linarith
  have a: "1 / 4 \<le> alpha * m" "1 / 4 \<le> one_minus_alpha * m"
    using alpha_pos assms(1) mult_mono [of "1 / 4" alpha 1 m] mult_mono [of "1 / 4" one_minus_alpha 1 m]
    by simp_all
  have "rnd64 (alpha * m) + rnd64 (one_minus_alpha * m)
      \<le> (alpha + one_minus_alpha) * m + (alpha + one_minus_alpha) * m / 2 ^ 53"
    using rel [OF a(1)] rel [OF a(2)] by (simp add: algebra_simps add_divide_distrib)
  also have "\<dots> < m + m / 2 ^ 54"
    unfolding alpha_sum using assms(1) by (simp add: field_simps)
  also have "\<dots> \<le> m + ulp64 m / 2"
    using mantissa_upper [of m] assms(1) by simp
  finally have "rnd64 (alpha * m) + rnd64 (one_minus_alpha * m) < m + ulp64 m / 2" .
  moreover have "0 \<le> rnd64 (alpha * m) + rnd64 (one_minus_alpha * m)"
    using a by (intro add_nonneg_nonneg rnd64_nonneg) linarith+
  ultimately show ?thesis
    unfolding ewma_step_def f64_add_def f64_mul_def using assms by (intro rnd64_half_ulp) auto
qed

lemma ewma_step_zero: "0 \<le> e \<Longrightarrow> is_f64 e \<Longrightarrow> ewma_step 0 e \<le> e"
proof -
  assume e: "0 \<le> e" "is_f64 e"
  have "one_minus_alpha * e \<le> 1 * e" using e alpha_pos by (intro mult_right_mono) auto
  then have "rnd64 (one_minus_alpha * e) \<le> e" using e alpha_pos by (intro rnd64_le_f64) auto
  then show ?thesis
    using e alpha_pos by (auto simp: ewma_step_def f64_add_def f64_mul_def intro!: rnd64_le_f64 rnd64_nonneg)
qed

lemma ewma_step_le:
  assumes "s = of_int n" and "0 \<le> n" and "0 \<le> e" "is_f64 e" and "s \<le> m" "e \<le> m" "is_f64 m"
  shows "ewma_step s e \<le> m"
proof (cases "n = 0")
  case True
  with assms ewma_step_zero [of e] show ?thesis by simp
next
  case False
  then have "1 \<le> m" using assms(1,2,5) by (metis int_one_le_iff_zero_less le_less of_int_1_le_iff order_trans)
  moreover have "ewma_step s e \<le> ewma_step m m"
    using assms by (intro ewma_step_mono) auto
  ultimately show ?thesis using ewma_step_diag [of m] assms(7) by linarith
qed

text \<open>Once positive, the average never returns to the value that \<^verbatim>\<open>score\<close> treats as unset.\<close>

lemma ewma_step_pos:
  assumes "0 \<le> s" and "is_f64 e" and "0 < e"
  shows "0 < ewma_step s e"
proof -
  define k where "k = round_half_even (e / ulp64 e)"
  have e: "e = of_int k * ulp64 e" using assms(2) unfolding is_f64_def rnd64_eq k_def by simp
  then have "0 < k" using assms(3) by (metis of_int_0_less_iff ulp64_pos zero_less_mult_pos2)
  then have "1 * ulp64 e \<le> of_int k * ulp64 e" by (intro mult_right_mono) (simp_all add: less_imp_le)
  moreover have "2 powi (- 1074) \<le> ulp64 e" unfolding ulp64_def by (rule powi_mono) simp
  ultimately have min: "2 powi (- 1074) \<le> e" using e by linarith
  have "2 powi (- 1074) * (51 / 100) \<le> e * one_minus_alpha"
    using min alpha_pos assms(3) by (intro mult_mono) auto
  then have p: "0 < rnd64 (one_minus_alpha * e)" by (intro rnd64_pos) (simp add: mult.commute)
  have "is_f64 (rnd64 (one_minus_alpha * e))" using assms(3) alpha_pos by (intro is_f64_rnd64) simp
  moreover have "rnd64 (one_minus_alpha * e) \<le> rnd64 (alpha * s) + rnd64 (one_minus_alpha * e)"
    using assms(1) alpha_pos by (simp add: rnd64_nonneg)
  ultimately have "rnd64 (one_minus_alpha * e) \<le> ewma_step s e"
    unfolding ewma_step_def f64_add_def f64_mul_def using p less_imp_le by (metis rnd64_ge_f64)
  with p show ?thesis by linarith
qed

lemma RecordLatency_ewma:
  "ewmaMs (RecordLatency b d) =
     (if hasStats b then ewma_step (f64_of_int (duration_Milliseconds d)) (ewmaMs b)
      else f64_of_int (duration_Milliseconds d))"
  by (simp add: RecordLatency_def ewma_step_def Let_def)

lemma RecordLatency_frame [simp]:
  "ID (RecordLatency b d) = ID b" "Addr (RecordLatency b d) = Addr b" "healthy (RecordLatency b d) = healthy b"
  "inflight (RecordLatency b d) = inflight b" "hasStats (RecordLatency b d)"
  by (auto simp: RecordLatency_def Let_def)

text \<open>The statistics of a backend are well formed: its average is a double, and unset is zero.\<close>

definition wf_backend :: "Backend \<Rightarrow> bool" where
  "wf_backend b \<longleftrightarrow> is_f64 (ewmaMs b) \<and> 0 \<le> ewmaMs b \<and> (\<not> hasStats b \<longrightarrow> ewmaMs b = 0)"

lemma is_f64_zero [simp]: "is_f64 0"
  by (simp add: is_f64_def)

lemma wf_RecordLatency:
  assumes "wf_backend b" and "0 \<le> sint d"
  shows "wf_backend (RecordLatency b d)"
proof -
  have s: "is_f64 (f64_of_int (duration_Milliseconds d))" "0 \<le> f64_of_int (duration_Milliseconds d)"
    using sample_small(1) [OF assms(2)] by (simp_all add: is_f64_ops(3) sample_exact [OF assms(2)])
       (metis is_f64_ops(3) sample_exact [OF assms(2)])
  moreover have "is_f64 (ewma_step (f64_of_int (duration_Milliseconds d)) (ewmaMs b))"
    unfolding ewma_step_def using s assms(1) alpha_pos
    by (intro is_f64_ops(1)) (simp add: wf_backend_def f64_mul_def rnd64_nonneg)
  ultimately show ?thesis
    using assms(1) ewma_step_nonneg s(2) by (simp add: wf_backend_def RecordLatency_ewma)
qed

lemma wf_backend_ops:
  "wf_backend (new_backend cb)"
  "wf_backend b \<Longrightarrow> wf_backend (SetHealthy b v)"
  "wf_backend b \<Longrightarrow> wf_backend (Acquire b)"
  "wf_backend b \<Longrightarrow> wf_backend (Release b)"
  by (auto simp: wf_backend_def new_backend_def SetHealthy_def Acquire_def Release_def Let_def)

lemma RecordLatency_le:
  assumes "wf_backend b" and "0 \<le> sint d" and "duration_Milliseconds d \<le> M" and "M < 2 ^ 53"
    and "ewmaMs b \<le> of_int M"
  shows "ewmaMs (RecordLatency b d) \<le> of_int M"
proof (cases "hasStats b")
  case True
  have "is_f64 (of_int M)"
    using assms sample_small(1) [OF assms(2)] by (intro is_f64_int) auto
  then have "ewma_step (of_int (duration_Milliseconds d)) (ewmaMs b) \<le> of_int M"
    using assms sample_small(1) [OF assms(2)]
    by (intro ewma_step_le [where n = "duration_Milliseconds d"]) (auto simp: wf_backend_def)
  with True show ?thesis using sample_exact [OF assms(2)] by (simp add: RecordLatency_ewma)
next
  case False
  with assms show ?thesis using sample_exact [OF assms(2)] by (simp add: RecordLatency_ewma)
qed

lemma RecordLatency_fold_le:
  assumes "\<forall>d \<in> set ds. 0 \<le> sint d \<and> duration_Milliseconds d \<le> M" and "M < 2 ^ 53"
    and "wf_backend b" and "ewmaMs b \<le> of_int M"
  shows "wf_backend (fold (\<lambda>d b. RecordLatency b d) ds b)
    \<and> ewmaMs (fold (\<lambda>d b. RecordLatency b d) ds b) \<le> of_int M"
  using assms
  by (induction ds arbitrary: b) (auto simp: wf_RecordLatency RecordLatency_le)

lemma load_factor:
  assumes "Inflight b = of_nat k" and "k < 2 ^ 63 - 1"
  shows "sint (Inflight b + 1) = int k + 1"
proof -
  have "Inflight b + 1 = word_of_int (int k + 1)" using assms(1) by simp
  also have "sint \<dots> = int k + 1" using assms(2) by (subst sint_word_of_int64) simp_all
  finally show ?thesis .
qed

text \<open>A pool with one ejected backend, for the examples.\<close>

definition demo_pool :: Pool where
  "demo_pool = \<lparr>Service = ''llm'', backends =
     [\<lparr>ID = ''llm-1'', Addr = ''https://llm-1:8443'', healthy = True, inflight = 0, ewmaMs = 20, hasStats = True\<rparr>,
      \<lparr>ID = ''llm-2'', Addr = ''https://llm-2:8443'', healthy = False, inflight = 0, ewmaMs = 1, hasStats = True\<rparr>,
      \<lparr>ID = ''llm-3'', Addr = ''https://llm-3:8443'', healthy = True, inflight = 1, ewmaMs = 30, hasStats = True\<rparr>]\<rparr>"

section \<open>Properties\<close>

text \<open>
  C10: \<^verbatim>\<open>Pick\<close> returns a backend exactly when one is healthy, and whatever the random draws
  the backend it returns is a healthy member of the pool.
\<close>

theorem Pick_healthy:
  "(Pick p r1 r2 = None \<longleftrightarrow> list_all (\<lambda>b. \<not> healthy b) (backends p))
   \<and> (case Pick p r1 r2 of None \<Rightarrow> True | Some i \<Rightarrow> i < length (backends p) \<and> healthy (backends p ! i))"
proof (intro conjI)
  show "Pick p r1 r2 = None \<longleftrightarrow> list_all (\<lambda>b. \<not> healthy b) (backends p)"
    by (simp add: Pick_None_iff Healthy_Nil_iff list_all_iff)
  show "case Pick p r1 r2 of None \<Rightarrow> True | Some i \<Rightarrow> i < length (backends p) \<and> healthy (backends p ! i)"
    using Pick_in_Healthy [of p r1 r2] by (auto simp: Healthy_set split: option.split)
qed

text \<open>
  C22: the two draws of \<^verbatim>\<open>Pick\<close> are in one-to-one correspondence with the ordered pairs of
  distinct healthy positions, so uniform draws sample every pair with the same probability.
\<close>

theorem sample_pair_bijection:
  assumes "2 \<le> n"
  shows "bij_betw (\<lambda>(r1, r2). sample_pair r1 r2 n) ({..<n} \<times> {..<n - 1}) {(i, j). i < n \<and> j < n \<and> i \<noteq> j}"
proof (rule bij_betw_byWitness [where f' = "\<lambda>(i, j). (i, if i < j then j - 1 else j)"])
  show "\<forall>a \<in> {..<n} \<times> {..<n - 1}.
      (case case a of (r1, r2) \<Rightarrow> sample_pair r1 r2 n of (i, j) \<Rightarrow> (i, if i < j then j - 1 else j)) = a"
    by (auto simp: sample_pair_def rand_Intn_def Let_def)
  show "\<forall>b \<in> {(i, j). i < n \<and> j < n \<and> i \<noteq> j}.
      (case case b of (i, j) \<Rightarrow> (i, if i < j then j - 1 else j) of (r1, r2) \<Rightarrow> sample_pair r1 r2 n) = b"
    using sample_pair_onto [of _ n] by auto
  show "(\<lambda>(r1, r2). sample_pair r1 r2 n) ` ({..<n} \<times> {..<n - 1}) \<subseteq> {(i, j). i < n \<and> j < n \<and> i \<noteq> j}"
  proof clarify
    fix r1 r2 i j
    assume "(i, j) = sample_pair r1 r2 n"
    then show "i < n \<and> j < n \<and> i \<noteq> j" using sample_pair_bounds [OF assms, of r1 r2 i j] by simp
  qed
  show "(\<lambda>(i, j). (i, if i < j then j - 1 else j)) ` {(i, j). i < n \<and> j < n \<and> i \<noteq> j} \<subseteq> {..<n} \<times> {..<n - 1}"
    by auto
qed

theorem sample_pair_bijection_witness:
  "bij_betw (\<lambda>(r1, r2). sample_pair r1 r2 3) ({..<3} \<times> {..<2}) {(i, j). i < 3 \<and> j < 3 \<and> i \<noteq> j}"
  using sample_pair_bijection [of 3] by simp

text \<open>
  C9: among two or more healthy backends, one whose score is strictly the highest is never
  chosen, and with exactly two the choice is always one of least score.
\<close>

theorem Pick_avoids_worst:
  assumes "2 \<le> length (Healthy p)" and "Pick p r1 r2 = Some c"
  shows "(\<exists>k \<in> set (Healthy p). k \<noteq> c \<and> score (backends p ! c) \<le> score (backends p ! k))
    \<and> (length (Healthy p) = 2 \<longrightarrow> (\<forall>k \<in> set (Healthy p). score (backends p ! c) \<le> score (backends p ! k)))"
proof -
  obtain i j where "Pick p r1 r2 = Some (if score (backends p ! (Healthy p ! i)) \<le> score (backends p ! (Healthy p ! j))
      then Healthy p ! i else Healthy p ! j)"
    and ij: "i < length (Healthy p)" "j < length (Healthy p)" "i \<noteq> j"
    by (rule Pick_two [OF assms(1), of r1 r2])
  with assms(2) have c: "c = (if score (backends p ! (Healthy p ! i)) \<le> score (backends p ! (Healthy p ! j))
      then Healthy p ! i else Healthy p ! j)"
    by simp
  have ne: "Healthy p ! i \<noteq> Healthy p ! j"
    using ij Healthy_distinct by (simp add: nth_eq_iff_index_eq)
  have "\<exists>k \<in> {Healthy p ! i, Healthy p ! j}. k \<noteq> c \<and> score (backends p ! c) \<le> score (backends p ! k)"
    using c ne by auto
  moreover have "set (Healthy p) = {Healthy p ! i, Healthy p ! j}" if two: "length (Healthy p) = 2"
  proof -
    obtain x y where xy: "Healthy p = [x, y]" using two by (auto simp: length_Suc_conv numeral_2_eq_2)
    then show ?thesis using ij by (cases i; cases j) auto
  qed
  ultimately show ?thesis using ij c by auto
qed

theorem Pick_avoids_worst_witness:
  "Pick demo_pool 1 0 = Some 0 \<and> score (backends demo_pool ! 0) \<le> score (backends demo_pool ! 2)"
proof -
  have h: "2 \<le> length (Healthy demo_pool)" "length (Healthy demo_pool) = 2" "2 \<in> set (Healthy demo_pool)"
    by code_simp+
  have p: "Pick demo_pool 1 0 = Some 0" by code_simp
  from Pick_avoids_worst [OF h(1) p] h(2,3) p show ?thesis by blast
qed

text \<open>
  C15: float rounding included, the latency average of a backend never exceeds the largest
  sample it was given, and once a sample has been positive it never falls back to zero.
\<close>

theorem ewma_bounded:
  assumes "\<forall>d \<in> set ds. 0 \<le> sint d \<and> duration_Milliseconds d \<le> M" and "0 \<le> M" and "M < 2 ^ 53"
  shows "0 \<le> ewmaMs (fold (\<lambda>d b. RecordLatency b d) ds (new_backend cb))
    \<and> ewmaMs (fold (\<lambda>d b. RecordLatency b d) ds (new_backend cb)) \<le> of_int M
    \<and> ((\<exists>d \<in> set (take 1 ds). 0 < duration_Milliseconds d) \<longrightarrow>
        0 < ewmaMs (fold (\<lambda>d b. RecordLatency b d) ds (new_backend cb)))"
proof -
  have "ewmaMs (new_backend cb) \<le> of_int M" using assms(2) by (simp add: new_backend_def)
  from RecordLatency_fold_le [OF assms(1,3) wf_backend_ops(1) this]
  have le: "wf_backend (fold (\<lambda>d b. RecordLatency b d) ds (new_backend cb))"
    "ewmaMs (fold (\<lambda>d b. RecordLatency b d) ds (new_backend cb)) \<le> of_int M" by auto
  have stays: "0 < ewmaMs (fold (\<lambda>d b. RecordLatency b d) es b)"
    if "wf_backend b" "hasStats b" "0 < ewmaMs b" "\<forall>d \<in> set es. 0 \<le> sint d" for es b
    using that
  proof (induction es arbitrary: b)
    case (Cons d es)
    have "0 \<le> f64_of_int (duration_Milliseconds d)"
      using sample_small(1) [of d] sample_exact [of d] Cons.prems(4) by simp
    then have "0 < ewmaMs (RecordLatency b d)"
      using Cons.prems(1-3) ewma_step_pos by (simp add: RecordLatency_ewma wf_backend_def)
    with Cons.IH [of "RecordLatency b d"] Cons.prems show ?case by (simp add: wf_RecordLatency)
  qed simp
  have "0 < ewmaMs (fold (\<lambda>d b. RecordLatency b d) ds (new_backend cb))"
    if first: "\<exists>d \<in> set (take 1 ds). 0 < duration_Milliseconds d"
  proof -
    from first obtain d es where ds: "ds = d # es" and d: "0 < duration_Milliseconds d"
      by (cases ds) auto
    have "0 \<le> sint d" using assms(1) ds by simp
    then have "0 < ewmaMs (RecordLatency (new_backend cb) d)"
      using d sample_exact [of d] by (simp add: RecordLatency_ewma new_backend_def)
    then show ?thesis
      using ds assms(1) stays [of "RecordLatency (new_backend cb) d" es] \<open>0 \<le> sint d\<close>
      by (simp add: wf_RecordLatency wf_backend_ops(1))
  qed
  with le show ?thesis by (simp add: wf_backend_def)
qed

theorem ewma_bounded_witness:
  "let b = fold (\<lambda>d b. RecordLatency b d) [10000000, 0, 7500000] (new_backend \<lparr>cb_ID = ''a'', cb_Addr = ''b''\<rparr>)
   in 0 < ewmaMs b \<and> ewmaMs b \<le> 10"
proof -
  have "duration_Milliseconds 10000000 = 10" "duration_Milliseconds 0 = 0" "duration_Milliseconds 7500000 = 7"
    by code_simp+
  then show ?thesis
    using ewma_bounded [of "[10000000, 0, 7500000]" 10 "\<lparr>cb_ID = ''a'', cb_Addr = ''b''\<rparr>"]
    by (simp add: Let_def)
qed

text \<open>
  C27: \<^verbatim>\<open>score\<close> and its test double.  In every state the operations of a backend lead to, \<^verbatim>\<open>score\<close>
  computes what the exported \<^verbatim>\<open>SafeScore\<close> does; rounding included it never ranks a backend
  better for having more requests in flight or a larger measured average; but zero doubles
  as \<^emph>\<open>no statistics\<close>, so a measured average of zero ranks like a full millisecond.
\<close>

theorem score_reference:
  assumes "wf_backend a" and "wf_backend b"
    and "Inflight a = of_nat n" and "Inflight b = of_nat m" and "n \<le> m" and "m < 2 ^ 63 - 1"
  shows "score a = SafeScore (ewmaMs a) (Inflight a)
    \<and> (ewmaMs a = ewmaMs b \<or> 0 < ewmaMs a \<and> ewmaMs a \<le> ewmaMs b \<longrightarrow> score a \<le> score b)
    \<and> (ewmaMs a = 0 \<longrightarrow> score a = score (a\<lparr>ewmaMs := 1\<rparr>))"
proof -
  define cost where "cost e = (if e = 0 then 1 else e)" for e :: float64
  have s: "score a = f64_mul (cost (ewmaMs a)) (f64_of_int (int n + 1))"
    "score b = f64_mul (cost (ewmaMs b)) (f64_of_int (int m + 1))"
    using load_factor [OF assms(3)] load_factor [OF assms(4,6)] assms(5,6) by (simp_all add: score_def cost_def Let_def)
  have "0 \<le> f64_of_int (int n + 1)" "f64_of_int (int n + 1) \<le> f64_of_int (int m + 1)"
    using assms(5) by (auto simp: f64_of_int_def intro!: rnd64_nonneg rnd64_mono)
  moreover have pos: "0 \<le> cost (ewmaMs a)" "0 \<le> cost (ewmaMs b)"
    using assms(1,2) by (simp_all add: cost_def wf_backend_def)
  ultimately have "score a \<le> score b" if "cost (ewmaMs a) \<le> cost (ewmaMs b)"
    unfolding s f64_mul_def using that by (intro rnd64_mono mult_mono mult_nonneg_nonneg) simp_all
  moreover have "score a = SafeScore (ewmaMs a) (Inflight a)"
    using assms(1) by (simp add: score_def SafeScore_def Let_def wf_backend_def max_def)
  ultimately show ?thesis by (auto simp: cost_def score_def Inflight_def Let_def)
qed

text \<open>A backend that answers in no measurable time ranks behind one that also had a slower request.\<close>

definition instant :: Backend where
  "instant = RecordLatency (new_backend \<lparr>cb_ID = ''a'', cb_Addr = ''b''\<rparr>) 0"

definition slower :: Backend where
  "slower = RecordLatency (RecordLatency (new_backend \<lparr>cb_ID = ''a'', cb_Addr = ''b''\<rparr>) 1000000) 0"

theorem score_reference_witness:
  "score (Acquire slower) = SafeScore (ewmaMs slower) 1 \<and> score slower \<le> score (Acquire slower)
   \<and> score instant = score (instant\<lparr>ewmaMs := 1\<rparr>) \<and> score slower < score instant"
proof -
  have wf: "wf_backend instant" "wf_backend slower" "wf_backend (Acquire slower)"
    by (simp_all add: instant_def slower_def wf_backend_ops wf_RecordLatency)
  have i: "Inflight instant = of_nat 0" "Inflight slower = of_nat 0" "Inflight (Acquire slower) = of_nat 1"
    "ewmaMs (Acquire slower) = ewmaMs slower"
    by (simp_all add: instant_def slower_def Inflight_def Acquire_def new_backend_def)
  have "ewmaMs instant = 0" "score slower < score instant" by code_simp+
  then show ?thesis
    using score_reference [OF wf(2,3) i(2,3)] score_reference [OF wf(3,3) i(3,3)] score_reference [OF wf(1,1) i(1,1)] i
    by simp
qed

end
