(* ===== verification/Metrics.thy ===== *)
theory Metrics
  imports Go_Time Go_Float
begin

text \<open>
  \<^verbatim>\<open>internal/metrics/metrics.go\<close> and \<^verbatim>\<open>internal/logging/log.go\<close>: what the program reports.  The
  Prometheus collectors are third-party; a use of one is the call the program makes, with
  its label values, and an operation of the model returns the calls it makes in order,
  interleaved with the log lines it writes.
\<close>

section \<open>Metrics\<close>

text \<open>The collectors as they are declared; the buckets of the histogram are the library's.\<close>

datatype collector_kind = CounterVec | HistogramVec | GaugeVec

record collector =
  col_kind :: collector_kind
  col_Name :: string
  col_Help :: string
  col_labels :: "string list"

definition RequestsTotal :: collector where
  "RequestsTotal = \<lparr>col_kind = CounterVec, col_Name = ''gateway_requests_total'',
     col_Help = ''Requests received by the gateway, labelled by final decision.'',
     col_labels = [''route'', ''decision'', ''reason'']\<rparr>"

definition UpstreamRequestsTotal :: collector where
  "UpstreamRequestsTotal = \<lparr>col_kind = CounterVec, col_Name = ''gateway_upstream_requests_total'',
     col_Help = ''Requests forwarded to upstream backends.'', col_labels = [''service'', ''backend'', ''code'']\<rparr>"

definition UpstreamLatency :: collector where
  "UpstreamLatency = \<lparr>col_kind = HistogramVec, col_Name = ''gateway_upstream_latency_seconds'',
     col_Help = ''Upstream call latency.'', col_labels = [''service'', ''backend'']\<rparr>"

definition BackendHealthy :: collector where
  "BackendHealthy = \<lparr>col_kind = GaugeVec, col_Name = ''gateway_backend_healthy'',
     col_Help = ''1 if the backend is currently in the healthy pool, else 0.'', col_labels = [''service'', ''backend'']\<rparr>"

definition AuthFailures :: collector where
  "AuthFailures = \<lparr>col_kind = CounterVec, col_Name = ''gateway_auth_failures_total'',
     col_Help = ''Authentication/authorization failures by reason.'', col_labels = [''reason'']\<rparr>"

text \<open>One constructor per collector and method used: the labels in the order of the declaration.\<close>

datatype metric_call =
    RequestsTotal_Inc string string string
  | UpstreamRequestsTotal_Inc string string string
  | UpstreamLatency_Observe string string float64
  | BackendHealthy_Set string string int
  | AuthFailures_Inc string

text \<open>The time series a call addresses: \<^verbatim>\<open>WithLabelValues\<close> on its collector.\<close>

fun series :: "metric_call \<Rightarrow> collector \<times> string list" where
  "series (RequestsTotal_Inc route decision reason) = (RequestsTotal, [route, decision, reason])"
| "series (UpstreamRequestsTotal_Inc service backend code) = (UpstreamRequestsTotal, [service, backend, code])"
| "series (UpstreamLatency_Observe service backend secs) = (UpstreamLatency, [service, backend])"
| "series (BackendHealthy_Set service backend v) = (BackendHealthy, [service, backend])"
| "series (AuthFailures_Inc reason) = (AuthFailures, [reason])"

definition duration_Seconds :: "duration \<Rightarrow> float64" where
  "duration_Seconds d =
     (let sec = sint d sdiv 1000000000; nsec = sint d smod 1000000000
      in f64_add (f64_of_int sec) (rnd64 (f64_of_int nsec / 1000000000)))"

definition Observe :: "string \<Rightarrow> string \<Rightarrow> int \<Rightarrow> gotime \<Rightarrow> gotime \<Rightarrow> metric_call list" where
  "Observe service backend code start now =
     [UpstreamRequestsTotal_Inc service backend (strconv_Itoa code),
      UpstreamLatency_Observe service backend (duration_Seconds (time_Sub now start))]"

section \<open>Logging\<close>

datatype log_level = Debug | Info | Warn | Error

primrec slog_level :: "log_level \<Rightarrow> int" where
  "slog_level Debug = - 4"
| "slog_level Info = 0"
| "slog_level Warn = 4"
| "slog_level Error = 8"

datatype log_value = LStr string | LInt int | LBool bool

record log_line =
  ll_level :: log_level
  ll_msg :: string
  ll_attrs :: "(string \<times> log_value) list"

record logger =
  lg_level :: log_level
  lg_attrs :: "(string \<times> log_value) list"

definition logging_New :: "(string \<Rightarrow> string) \<Rightarrow> logger" where
  "logging_New getenv =
     (let level = (if getenv ''GATEWAY_DEBUG'' = ''1'' then Debug else Info)
      in \<lparr>lg_level = level, lg_attrs = [(''service'', LStr ''gateway'')]\<rparr>)"

text \<open>What a logger writes for a line: nothing below its level, its own attributes first.\<close>

definition logger_emit :: "logger \<Rightarrow> log_line \<Rightarrow> log_line list" where
  "logger_emit lg l =
     (if slog_level (lg_level lg) \<le> slog_level (ll_level l)
      then [l\<lparr>ll_attrs := lg_attrs lg @ ll_attrs l\<rparr>] else [])"

section \<open>The report of an operation\<close>

datatype event = Metric metric_call | Log log_line

fun event_logs :: "event list \<Rightarrow> log_line list" where
  "event_logs [] = []"
| "event_logs (Log l # es) = l # event_logs es"
| "event_logs (Metric m # es) = event_logs es"

fun event_metrics :: "event list \<Rightarrow> metric_call list" where
  "event_metrics [] = []"
| "event_metrics (Log l # es) = event_metrics es"
| "event_metrics (Metric m # es) = m # event_metrics es"

lemma event_logs_append [simp]: "event_logs (xs @ ys) = event_logs xs @ event_logs ys"
  by (induction xs rule: event_logs.induct) auto

lemma event_metrics_append [simp]: "event_metrics (xs @ ys) = event_metrics xs @ event_metrics ys"
  by (induction xs rule: event_metrics.induct) auto

lemma event_logs_Metric [simp]: "event_logs (map Metric ms) = []"
  by (induction ms) auto

lemma event_metrics_Metric [simp]: "event_metrics (map Metric ms) = ms"
  by (induction ms) auto

text \<open>The value of a health gauge after a sequence of calls: the last one set, if any.\<close>

fun gauge_after :: "string \<Rightarrow> string \<Rightarrow> int option \<Rightarrow> metric_call list \<Rightarrow> int option" where
  "gauge_after s b v [] = v"
| "gauge_after s b v (BackendHealthy_Set s' b' x # ms) = gauge_after s b (if s' = s \<and> b' = b then Some x else v) ms"
| "gauge_after s b v (_ # ms) = gauge_after s b v ms"

lemma gauge_after_append: "gauge_after s b v (xs @ ys) = gauge_after s b (gauge_after s b v xs) ys"
  by (induction s b v xs rule: gauge_after.induct) auto

text \<open>Every line at Info or above reaches the output, whatever the environment.\<close>

lemma logger_emit_visible:
  "ll_level l \<noteq> Debug \<Longrightarrow> logger_emit (logging_New getenv) l = [l\<lparr>ll_attrs := (''service'', LStr ''gateway'') # ll_attrs l\<rparr>]"
  by (cases "ll_level l") (auto simp: logger_emit_def logging_New_def Let_def)

end
