(* ===== verification/Proxy_Tls.thy ===== *)
theory Proxy_Tls
  imports Go_Time
begin

text \<open>
  \<^verbatim>\<open>internal/proxy/tls.go\<close> and the client constructor of \<^verbatim>\<open>handler.go\<close>: the mutual-TLS
  configuration towards a backend.  The file system, the PEM parser and the key-pair loader
  are parameters; a certificate pool and a key pair are values of any types.
\<close>

record ('pool, 'cert) tls_Config =
  MinVersion :: int
  RootCAs :: 'pool
  Certificates :: "'cert list"
  ServerName :: string

record ('pool, 'cert) http_Client =
  cl_Timeout :: duration
  TLSClientConfig :: "('pool, 'cert) tls_Config"
  MaxIdleConnsPerHost :: int
  IdleConnTimeout :: duration
  ResponseHeaderTimeout :: duration
  ExpectContinueTimeout :: duration

record ('pool, 'cert) tls_files =
  os_ReadFile :: "string \<Rightarrow> string + bytes"
  AppendCertsFromPEM :: "bytes \<Rightarrow> 'pool option"
  LoadX509KeyPair :: "string \<Rightarrow> string \<Rightarrow> string + 'cert"

datatype tls_error =
    ReadCA string
  | NoValidCerts string
  | LoadKeypair string

definition VersionTLS12 :: int where
  "VersionTLS12 = 771"

definition millisecond :: duration where
  "millisecond = 1000000"

definition BackendTLS ::
  "('pool, 'cert) tls_files \<Rightarrow> string \<Rightarrow> string \<Rightarrow> string \<Rightarrow> string
   \<Rightarrow> tls_error + ('pool, 'cert) tls_Config" where
  "BackendTLS fs caPath certPath keyPath serverName =
     (case os_ReadFile fs caPath of
        Inl err \<Rightarrow> Inl (ReadCA err)
      | Inr caBytes \<Rightarrow>
     (case AppendCertsFromPEM fs caBytes of
        None \<Rightarrow> Inl (NoValidCerts caPath)
      | Some pool \<Rightarrow>
     (case LoadX509KeyPair fs certPath keyPath of
        Inl err \<Rightarrow> Inl (LoadKeypair err)
      | Inr cert \<Rightarrow>
          Inr \<lparr>MinVersion = VersionTLS12, RootCAs = pool, Certificates = [cert], ServerName = serverName\<rparr>)))"

text \<open>An absent transport option is the zero duration, which stands for no limit.\<close>

definition NewBackendClient :: "('pool, 'cert) tls_Config \<Rightarrow> ('pool, 'cert) http_Client" where
  "NewBackendClient tlsCfg =
     \<lparr>cl_Timeout = 10 * second, TLSClientConfig = tlsCfg, MaxIdleConnsPerHost = 16,
      IdleConnTimeout = 60 * second, ResponseHeaderTimeout = 8 * second,
      ExpectContinueTimeout = 1 * second\<rparr>"

text \<open>The configuration of a successful set-up: pinned to the private CA, the gateway's own key pair and the name.\<close>

lemma BackendTLS_Inr_iff:
  "BackendTLS fs ca cert key name = Inr cfg \<longleftrightarrow>
     (\<exists>raw pool kp. os_ReadFile fs ca = Inr raw \<and> AppendCertsFromPEM fs raw = Some pool
        \<and> LoadX509KeyPair fs cert key = Inr kp
        \<and> cfg = \<lparr>MinVersion = VersionTLS12, RootCAs = pool, Certificates = [kp], ServerName = name\<rparr>)"
  by (auto simp: BackendTLS_def split: sum.split option.split)

end
