(* ===== verification/Health_Checker.thy ===== *)
theory Health_Checker
  imports Lb_Pool Metrics Proxy_Tls "HOL-Library.Multiset"
begin

text \<open>
  \<^verbatim>\<open>internal/health/checker.go\<close>: active health checks.  A probe is one goroutine per backend
  and tick; its only effect is \<^verbatim>\<open>record\<close>, which runs under the checker's mutex and is the one
  writer of the health bit, so an execution is a sequence of \<^verbatim>\<open>record\<close> calls in any order.
  The answer of the network is an argument.  The counters are Go maps from backend IDs to
  64-bit integers that read as zero where absent, and they wrap around.
\<close>

section \<open>Data\<close>

record ('pool, 'cert) Checker =
  ck_client :: "('pool, 'cert) http_Client"
  healthPath :: string
  interval :: duration
  failThreshold :: int64
  passThreshold :: int64
  fails :: "string \<rightharpoonup> int64"
  passes :: "string \<rightharpoonup> int64"

text \<open>What \<^verbatim>\<open>client.Do\<close> returns: a transport error or the status of the answer.\<close>

datatype do_result = DoErr string | DoStatus int

section \<open>Operations\<close>

definition count_of :: "(string \<rightharpoonup> int64) \<Rightarrow> string \<Rightarrow> int64" where
  "count_of m k = (case m k of None \<Rightarrow> 0 | Some n \<Rightarrow> n)"

definition NewChecker ::
  "('pool, 'cert) tls_Config \<Rightarrow> string \<Rightarrow> duration \<Rightarrow> ('pool, 'cert) Checker" where
  "NewChecker tlsCfg path iv =
     \<lparr>ck_client = \<lparr>cl_Timeout = 1500 * millisecond, TLSClientConfig = tlsCfg, MaxIdleConnsPerHost = 4,
        IdleConnTimeout = 0, ResponseHeaderTimeout = 0, ExpectContinueTimeout = 0\<rparr>,
      healthPath = path, interval = iv, failThreshold = 3, passThreshold = 2,
      fails = Map.empty, passes = Map.empty\<rparr>"

definition errStr :: "string option \<Rightarrow> string" where
  "errStr e = (case e of None \<Rightarrow> '''' | Some msg \<Rightarrow> msg)"

text \<open>The reports of \<^verbatim>\<open>record\<close>: the gauge of a backend, and the two transition lines.\<close>

definition set_gauge :: "Pool \<Rightarrow> Backend \<Rightarrow> int \<Rightarrow> event" where
  "set_gauge p b v = Metric (BackendHealthy_Set (Service p) (ID b) v)"

definition restored_line :: "Pool \<Rightarrow> Backend \<Rightarrow> log_line" where
  "restored_line p b =
     \<lparr>ll_level = Info, ll_msg = ''backend restored'',
      ll_attrs = [(''decision'', LStr ''route''), (''reason'', LStr ''health_recovered''),
                  (''target_service'', LStr (Service p)), (''upstream'', LStr (ID b))]\<rparr>"

definition ejected_line :: "Pool \<Rightarrow> Backend \<Rightarrow> string option \<Rightarrow> log_line" where
  "ejected_line p b err =
     \<lparr>ll_level = Warn, ll_msg = ''backend ejected'',
      ll_attrs = [(''decision'', LStr ''route''), (''reason'', LStr ''backend_unhealthy''),
                  (''target_service'', LStr (Service p)), (''upstream'', LStr (ID b)),
                  (''err'', LStr (errStr err))]\<rparr>"

definition record_probe ::
  "('pool, 'cert) Checker \<Rightarrow> Pool \<Rightarrow> nat \<Rightarrow> bool \<Rightarrow> string option
   \<Rightarrow> ('pool, 'cert) Checker \<times> Pool \<times> event list" where
  "record_probe c p i ok err =
     (let b = backends p ! i in
      if ok then
        (let c = c\<lparr>fails := (fails c)(ID b \<mapsto> 0)\<rparr>;
             c = c\<lparr>passes := (passes c)(ID b \<mapsto> count_of (passes c) (ID b) + 1)\<rparr>
         in if \<not> IsHealthy b \<and> sint (passThreshold c) \<le> sint (count_of (passes c) (ID b))
            then (c, on_backend (\<lambda>b. SetHealthy b True) i p, [set_gauge p b 1, Log (restored_line p b)])
            else if IsHealthy b then (c, p, [set_gauge p b 1])
            else (c, p, []))
      else
        (let c = c\<lparr>passes := (passes c)(ID b \<mapsto> 0)\<rparr>;
             c = c\<lparr>fails := (fails c)(ID b \<mapsto> count_of (fails c) (ID b) + 1)\<rparr>
         in if IsHealthy b \<and> sint (failThreshold c) \<le> sint (count_of (fails c) (ID b))
            then (c, on_backend (\<lambda>b. SetHealthy b False) i p, [set_gauge p b 0, Log (ejected_line p b err)])
            else (c, p, [])))"

text \<open>
  \<^verbatim>\<open>probe\<close>: an address that does not parse as a URL leaves a nil request, on which \<^verbatim>\<open>Do\<close>
  panics; \<^verbatim>\<open>None\<close> is that panic.  Whether a string parses is the parameter \<^verbatim>\<open>parses\<close>.
\<close>

definition probe_ok :: "do_result \<Rightarrow> bool" where
  "probe_ok r = (case r of DoErr _ \<Rightarrow> False | DoStatus code \<Rightarrow> code < 400)"

definition probe_err :: "do_result \<Rightarrow> string option" where
  "probe_err r = (case r of DoErr e \<Rightarrow> Some e | DoStatus _ \<Rightarrow> None)"

definition probe ::
  "(string \<Rightarrow> bool) \<Rightarrow> (string \<Rightarrow> do_result) \<Rightarrow> ('pool, 'cert) Checker \<Rightarrow> Pool \<Rightarrow> nat
   \<Rightarrow> (('pool, 'cert) Checker \<times> Pool \<times> event list) option" where
  "probe parses net c p i =
     (let url = Addr (backends p ! i) @ healthPath c in
      if \<not> parses url then None
      else (let r = net url in Some (record_probe c p i (probe_ok r) (probe_err r))))"

section \<open>The running checker\<close>

text \<open>
  A tick spawns one probe per backend; probes of this and of earlier ticks finish in any
  order.  \<^verbatim>\<open>pending\<close> holds the probes in flight, \<^verbatim>\<open>results\<close> the recorded results of each backend,
  newest first, and \<^verbatim>\<open>reports\<close> what was reported, oldest first.
\<close>

record ('pool, 'cert) checker_state =
  checker :: "('pool, 'cert) Checker"
  cpool :: Pool
  pending :: "nat multiset"
  results :: "nat \<Rightarrow> bool list"
  reports :: "event list"

definition tick :: "('pool, 'cert) checker_state \<Rightarrow> ('pool, 'cert) checker_state" where
  "tick s = s\<lparr>pending := pending s + mset (All (cpool s))\<rparr>"

definition finish_probe ::
  "nat \<Rightarrow> do_result \<Rightarrow> ('pool, 'cert) checker_state \<Rightarrow> ('pool, 'cert) checker_state" where
  "finish_probe i r s =
     (let (c, p, ev) = record_probe (checker s) (cpool s) i (probe_ok r) (probe_err r)
      in s\<lparr>checker := c, cpool := p, pending := pending s - {#i#},
           results := (results s)(i := probe_ok r # results s i), reports := reports s @ ev\<rparr>)"

text \<open>
  Requests go on meanwhile: they change the in-flight count and the latency statistics of a
  backend, never its health.
\<close>

inductive checker_step ::
  "('pool, 'cert) checker_state \<Rightarrow> ('pool, 'cert) checker_state \<Rightarrow> bool" where
  Tick: "checker_step s (tick s)"
| Finish: "i \<in># pending s \<Longrightarrow> checker_step s (finish_probe i r s)"
| Traffic: "traffic_op f \<Longrightarrow> i < length (backends (cpool s)) \<Longrightarrow>
    checker_step s (s\<lparr>cpool := on_backend f i (cpool s)\<rparr>)"

inductive_cases checker_stepE: "checker_step s s'"

definition Run_init :: "('pool, 'cert) Checker \<Rightarrow> Pool \<Rightarrow> ('pool, 'cert) checker_state" where
  "Run_init c p = tick \<lparr>checker = c, cpool = p, pending = {#}, results = (\<lambda>_. []), reports = []\<rparr>"

section \<open>The hysteresis automaton\<close>

text \<open>
  What the two thresholds promise.  \<^verbatim>\<open>Up k\<close>: in the pool, with \<^verbatim>\<open>k\<close> failures since the last
  success; \<^verbatim>\<open>Down k\<close>: ejected, with \<^verbatim>\<open>k\<close> successes since the last failure.
\<close>

datatype hysteresis = Up nat | Down nat

fun hyst_step :: "hysteresis \<Rightarrow> bool \<Rightarrow> hysteresis" where
  "hyst_step (Up k) True = Up 0"
| "hyst_step (Up k) False = (if k + 1 < 3 then Up (k + 1) else Down 0)"
| "hyst_step (Down k) True = (if k + 1 < 2 then Down (k + 1) else Up 0)"
| "hyst_step (Down k) False = Down 0"

fun hyst_run :: "bool list \<Rightarrow> hysteresis" where
  "hyst_run [] = Up 0"
| "hyst_run (r # rs) = hyst_step (hyst_run rs) r"

text \<open>
  The same, read off the history (newest first): the most recent of three failures in a row
  and two successes in a row decides; before either, the backend is in the pool.
\<close>

fun decided_up :: "bool list \<Rightarrow> bool" where
  "decided_up [] = True"
| "decided_up (r # rs) =
     (if take 2 (r # rs) = [True, True] then True
      else if take 3 (r # rs) = [False, False, False] then False
      else decided_up rs)"

fun is_up :: "hysteresis \<Rightarrow> bool" where
  "is_up (Up k) = True"
| "is_up (Down k) = False"

definition streak :: "bool \<Rightarrow> bool list \<Rightarrow> nat" where
  "streak v rs = length (takeWhile (\<lambda>r. r = v) rs)"

lemma streak_simps [simp]: "streak v [] = 0" "streak v (r # rs) = (if r = v then streak v rs + 1 else 0)"
  by (simp_all add: streak_def)

lemma hyst_run_streak:
  "case hyst_run rs of Up k \<Rightarrow> k = streak False rs \<and> k < 3 | Down k \<Rightarrow> k = streak True rs \<and> k < 2"
proof (induction rs)
  case (Cons r rs)
  then show ?case by (cases "hyst_run rs"; cases r) auto
qed simp

lemma take_streak: "take n rs = replicate n v \<longleftrightarrow> n \<le> streak v rs"
proof (induction n arbitrary: rs)
  case (Suc n)
  then show ?case by (cases rs) auto
qed simp

lemma decided_up_run: "is_up (hyst_run rs) = decided_up rs"
proof (induction rs)
  case (Cons r rs)
  have t: "take 2 (r # rs) = [True, True] \<longleftrightarrow> 2 \<le> streak True (r # rs)"
    "take 3 (r # rs) = [False, False, False] \<longleftrightarrow> 3 \<le> streak False (r # rs)"
    using take_streak [of 2 "r # rs" True] take_streak [of 3 "r # rs" False]
    by (simp_all only: numeral_2_eq_2 numeral_3_eq_3 replicate.simps)
  show ?case
    using hyst_run_streak [of rs] Cons.IH
    unfolding decided_up.simps t
    by (cases "hyst_run rs"; cases r) auto
qed simp

section \<open>Refinement\<close>

text \<open>The automaton state that a backend's counters and health bit implement.\<close>

fun implements :: "hysteresis \<Rightarrow> int64 \<Rightarrow> int64 \<Rightarrow> bool \<Rightarrow> bool" where
  "implements (Up k) nfail npass up \<longleftrightarrow> up \<and> k < 3 \<and> nfail = of_nat k"
| "implements (Down k) nfail npass up \<longleftrightarrow> \<not> up \<and> k < 2 \<and> npass = of_nat k"

definition backend_tracks :: "('pool, 'cert) Checker \<Rightarrow> Backend \<Rightarrow> hysteresis \<Rightarrow> bool" where
  "backend_tracks c b h = implements h (count_of (fails c) (ID b)) (count_of (passes c) (ID b)) (healthy b)"

definition std_thresholds :: "('pool, 'cert) Checker \<Rightarrow> bool" where
  "std_thresholds c \<longleftrightarrow> failThreshold c = 3 \<and> passThreshold c = 2"

lemma count_of_upd [simp]: "count_of (m(k \<mapsto> v)) k' = (if k' = k then v else count_of m k')"
  by (simp add: count_of_def)

lemma SetHealthy_frame [simp]:
  "ID (SetHealthy b v) = ID b" "Addr (SetHealthy b v) = Addr b" "healthy (SetHealthy b v) = v"
  "inflight (SetHealthy b v) = inflight b"
  by (simp_all add: SetHealthy_def Let_def)

lemma on_backend_nth:
  "i < length (backends p) \<Longrightarrow>
   backends (on_backend f i p) ! j = (if j = i then f (backends p ! i) else backends p ! j)"
  by (simp add: on_backend_def)

lemma on_backend_simps [simp]:
  "length (backends (on_backend f i p)) = length (backends p)" "Service (on_backend f i p) = Service p"
  by (simp_all add: on_backend_def)

lemma record_probe_frame:
  assumes "record_probe c p i ok err = (c', p', ev)" and "i < length (backends p)"
  shows "length (backends p') = length (backends p)" "Service p' = Service p"
    "ID (backends p' ! j) = ID (backends p ! j)"
    "std_thresholds c' = std_thresholds c" "j \<noteq> i \<Longrightarrow> backends p' ! j = backends p ! j"
    "k \<noteq> ID (backends p ! i) \<Longrightarrow> count_of (fails c') k = count_of (fails c) k"
    "k \<noteq> ID (backends p ! i) \<Longrightarrow> count_of (passes c') k = count_of (passes c) k"
  using assms
  by (auto simp: record_probe_def Let_def on_backend_nth std_thresholds_def split: if_splits)

text \<open>One call of \<^verbatim>\<open>record\<close> is one step of the automaton, wrap-around included.\<close>

lemma record_probe_tracks:
  assumes "record_probe c p i ok err = (c', p', ev)" and "i < length (backends p)"
    and "std_thresholds c" and "backend_tracks c (backends p ! i) h"
  shows "backend_tracks c' (backends p' ! i) (hyst_step h ok)"
proof (cases h)
  case (Up k)
  with assms(4) have "k = 0 \<or> k = 1 \<or> k = 2" by (auto simp: backend_tracks_def)
  with assms Up show ?thesis
    by (cases ok; elim disjE)
       (auto simp: record_probe_def Let_def std_thresholds_def backend_tracks_def IsHealthy_def on_backend_nth
         split: if_splits)
next
  case (Down k)
  with assms(4) have "k = 0 \<or> k = 1" by (auto simp: backend_tracks_def)
  with assms Down show ?thesis
    by (cases ok; elim disjE)
       (auto simp: record_probe_def Let_def std_thresholds_def backend_tracks_def IsHealthy_def on_backend_nth
         split: if_splits)
qed

text \<open>The invariant of a running checker: every backend tracks the automaton run on its own results.\<close>

definition checker_inv :: "('pool, 'cert) checker_state \<Rightarrow> bool" where
  "checker_inv s \<longleftrightarrow>
     std_thresholds (checker s) \<and> distinct (map ID (backends (cpool s)))
     \<and> (\<forall>i \<in># pending s. i < length (backends (cpool s)))
     \<and> (\<forall>i < length (backends (cpool s)).
          backend_tracks (checker s) (backends (cpool s) ! i) (hyst_run (results s i)))"

lemma checker_inv_tick: "checker_inv s \<Longrightarrow> checker_inv (tick s)"
  by (auto simp: checker_inv_def tick_def All_def)

lemma IDs_distinct_nth:
  "distinct (map ID bs) \<Longrightarrow> i < length bs \<Longrightarrow> j < length bs \<Longrightarrow> ID (bs ! i) = ID (bs ! j) \<longleftrightarrow> i = j"
  by (simp add: distinct_conv_nth) metis

lemma checker_inv_finish:
  assumes inv: "checker_inv s" and i: "i \<in># pending s"
  shows "checker_inv (finish_probe i r s)"
proof -
  let ?bs = "backends (cpool s)"
  obtain c p ev where rec: "record_probe (checker s) (cpool s) i (probe_ok r) (probe_err r) = (c, p, ev)"
    by (rule prod_cases3)
  have il: "i < length ?bs" using inv i by (simp add: checker_inv_def)
  note fr = record_probe_frame [OF rec il]
  have IDs: "map ID (backends p) = map ID ?bs" by (rule nth_equalityI) (simp_all add: fr(1,3))
  have "backend_tracks c (backends p ! j) (hyst_run (if j = i then probe_ok r # results s i else results s j))"
    if j: "j < length ?bs" for j
  proof (cases "j = i")
    case True
    with inv j record_probe_tracks [OF rec il] show ?thesis by (simp add: checker_inv_def)
  next
    case False
    then have "ID (?bs ! j) \<noteq> ID (?bs ! i)" using inv IDs_distinct_nth [OF _ j il] by (simp add: checker_inv_def)
    with False inv j show ?thesis by (simp add: checker_inv_def backend_tracks_def fr)
  qed
  then show ?thesis
    using inv by (auto simp: checker_inv_def finish_probe_def rec fr IDs dest: in_diffD)
qed

lemma checker_inv_traffic:
  assumes inv: "checker_inv s" and f: "traffic_op f"
  shows "checker_inv (s\<lparr>cpool := on_backend f i (cpool s)\<rparr>)"
  using inv
  by (simp add: checker_inv_def backend_tracks_def traffic_op.keeps_nth [OF f] traffic_op.keeps_IDs [OF f])

lemma checker_inv_step: "checker_step s s' \<Longrightarrow> checker_inv s \<Longrightarrow> checker_inv s'"
  by (auto elim!: checker_stepE intro: checker_inv_tick checker_inv_finish checker_inv_traffic)

lemma checker_inv_init:
  assumes "distinct (map cb_ID cfg)"
  shows "checker_inv (Run_init (NewChecker tlsCfg path iv) (NewPool service cfg))"
proof -
  have "map ID (map new_backend cfg) = map cb_ID cfg" by (simp add: new_backend_def)
  with assms show ?thesis
    unfolding Run_init_def
    by (intro checker_inv_tick)
       (simp add: checker_inv_def NewChecker_def NewPool_def std_thresholds_def backend_tracks_def
         count_of_def new_backend_def del: map_map)
qed

lemma checker_inv_reachable:
  assumes "checker_step\<^sup>*\<^sup>* (Run_init (NewChecker tlsCfg path iv) (NewPool service cfg)) s"
    and "distinct (map cb_ID cfg)"
  shows "checker_inv s"
  using assms(1) by (induction rule: rtranclp_induct) (auto intro: checker_inv_init assms(2) checker_inv_step)

section \<open>The exported gauge\<close>

definition gauge_of :: "('pool, 'cert) checker_state \<Rightarrow> nat \<Rightarrow> int option" where
  "gauge_of s i =
     gauge_after (Service (cpool s)) (ID (backends (cpool s) ! i)) None (event_metrics (reports s))"

text \<open>The gauge a backend's history calls for: unset until its first success or its ejection.\<close>

definition gauge_spec :: "bool list \<Rightarrow> int option" where
  "gauge_spec rs =
     (if decided_up rs then (if True \<in> set rs then Some 1 else None) else Some 0)"

definition gauge_inv :: "('pool, 'cert) checker_state \<Rightarrow> bool" where
  "gauge_inv s \<longleftrightarrow> (\<forall>i < length (backends (cpool s)). gauge_of s i = gauge_spec (results s i))"

lemma record_probe_gauge:
  assumes "record_probe c p i ok err = (c', p', ev)" and "i < length (backends p)"
  shows "gauge_after (Service p) (ID (backends p ! i)) v (event_metrics ev) =
     (if healthy (backends p' ! i) then (if ok \<or> \<not> healthy (backends p ! i) then Some 1 else v)
      else (if healthy (backends p ! i) then Some 0 else v))"
    and "k \<noteq> ID (backends p ! i) \<Longrightarrow> gauge_after (Service p) k v (event_metrics ev) = v"
  using assms by (auto simp: record_probe_def Let_def on_backend_nth set_gauge_def IsHealthy_def split: if_splits)

lemma checker_inv_healthy:
  "checker_inv s \<Longrightarrow> i < length (backends (cpool s)) \<Longrightarrow>
   healthy (backends (cpool s) ! i) = decided_up (results s i)"
  using decided_up_run [of "results s i"]
  by (cases "hyst_run (results s i)") (auto simp: checker_inv_def backend_tracks_def)

lemma down_has_no_gap:
  "\<not> decided_up rs \<Longrightarrow> decided_up (r # rs) \<Longrightarrow> r"
  by (cases r) (auto split: if_splits)

lemma gauge_inv_finish:
  assumes inv: "checker_inv s" and g: "gauge_inv s" and i: "i \<in># pending s"
  shows "gauge_inv (finish_probe i r s)"
proof -
  let ?bs = "backends (cpool s)"
  obtain c p ev where rec: "record_probe (checker s) (cpool s) i (probe_ok r) (probe_err r) = (c, p, ev)"
    by (rule prod_cases3)
  have il: "i < length ?bs" using inv i by (simp add: checker_inv_def)
  note fr = record_probe_frame [OF rec il] and ga = record_probe_gauge [OF rec il]
  have after: "healthy (backends p ! i) = decided_up (probe_ok r # results s i)"
    using checker_inv_healthy [OF checker_inv_finish [OF inv i, of r], of i] il
    by (simp add: finish_probe_def rec fr(1))
  have before: "healthy (?bs ! i) = decided_up (results s i)" by (rule checker_inv_healthy [OF inv il])
  have "gauge_of (finish_probe i r s) j = gauge_spec (results (finish_probe i r s) j)" if j: "j < length ?bs" for j
  proof (cases "j = i")
    case True
    have old: "gauge_after (Service (cpool s)) (ID (?bs ! i)) None (event_metrics (reports s)) = gauge_spec (results s i)"
      using g il by (simp add: gauge_inv_def gauge_of_def)
    show ?thesis
      unfolding True gauge_of_def finish_probe_def rec
      by (simp add: gauge_after_append fr old ga(1) before after gauge_spec_def del: decided_up.simps)
         (auto dest: down_has_no_gap simp del: decided_up.simps)
  next
    case False
    then have "ID (?bs ! j) \<noteq> ID (?bs ! i)" using inv IDs_distinct_nth [OF _ j il] by (simp add: checker_inv_def)
    with False g j show ?thesis
      by (simp add: gauge_inv_def gauge_of_def finish_probe_def rec gauge_after_append fr ga(2))
  qed
  then show ?thesis by (simp add: gauge_inv_def finish_probe_def rec fr(1))
qed

lemma gauge_inv_step: "checker_step s s' \<Longrightarrow> checker_inv s \<Longrightarrow> gauge_inv s \<Longrightarrow> gauge_inv s'"
proof (elim checker_stepE)
  fix f i
  assume "gauge_inv s" "traffic_op f" "s' = s\<lparr>cpool := on_backend f i (cpool s)\<rparr>"
  then show ?thesis by (simp add: gauge_inv_def gauge_of_def traffic_op.keeps_nth)
qed (simp_all add: gauge_inv_finish, simp add: gauge_inv_def gauge_of_def tick_def)

lemma gauge_inv_reachable:
  assumes "checker_step\<^sup>*\<^sup>* (Run_init (NewChecker tlsCfg path iv) (NewPool service cfg)) s"
    and "distinct (map cb_ID cfg)"
  shows "gauge_inv s"
  using assms(1)
proof (induction rule: rtranclp_induct)
  case base
  show ?case by (simp add: gauge_inv_def gauge_of_def Run_init_def tick_def gauge_spec_def)
next
  case (step s s')
  then show ?case using checker_inv_reachable [OF step.hyps(1) assms(2)] by (blast intro: gauge_inv_step)
qed

section \<open>Properties\<close>

text \<open>
  A run of the checker over two backends: the first fails three probes, one of them from an
  older tick, while the second answers.
\<close>

definition demo_cfg :: "CfgBackend list" where
  "demo_cfg = [\<lparr>cb_ID = ''a'', cb_Addr = ''https://a''\<rparr>, \<lparr>cb_ID = ''b'', cb_Addr = ''https://b''\<rparr>]"

definition demo_tls :: "(nat, nat) tls_Config" where
  "demo_tls = \<lparr>MinVersion = VersionTLS12, RootCAs = 0, Certificates = [0], ServerName = ''orders''\<rparr>"

definition demo_start :: "(nat, nat) checker_state" where
  "demo_start = Run_init (NewChecker demo_tls ''/healthz'' (2 * second)) (NewPool ''orders'' demo_cfg)"

definition demo_run :: "(nat, nat) checker_state" where
  "demo_run =
     finish_probe 0 (DoStatus 503) (finish_probe 1 (DoStatus 200) (finish_probe 0 (DoErr ''timeout'')
       (finish_probe 0 (DoErr ''handshake'') (tick (tick demo_start)))))"

lemma demo_run_reachable: "checker_step\<^sup>*\<^sup>* demo_start demo_run"
proof -
  have "checker_step\<^sup>*\<^sup>* demo_start (tick (tick demo_start))"
    by (meson checker_step.Tick rtranclp.rtrancl_into_rtrancl rtranclp.rtrancl_refl)
  moreover have "pending (tick (tick demo_start)) = {#0, 0, 0, 1, 1, 1#}"
    by (simp add: demo_start_def Run_init_def tick_def NewPool_def All_def demo_cfg_def upt_rec add_mset_commute)
  moreover have "pending (finish_probe i r s) = pending s - {#i#}" for i r and s :: "(nat, nat) checker_state"
    by (simp add: finish_probe_def split: prod.split)
  moreover have fin: "checker_step\<^sup>*\<^sup>* demo_start s \<Longrightarrow> i \<in># pending s \<Longrightarrow> checker_step\<^sup>*\<^sup>* demo_start (finish_probe i r s)"
    for i r s by (blast intro: checker_step.Finish rtranclp.rtrancl_into_rtrancl)
  ultimately show ?thesis unfolding demo_run_def by (intro fin) simp_all
qed

lemma demo_run_results:
  "results demo_run 0 = [False, False, False]" "results demo_run 1 = [True]"
  "length (backends (cpool demo_run)) = 2" "distinct (map cb_ID demo_cfg)"
  "Service (cpool demo_run) = ''orders''" "ID (backends (cpool demo_run) ! 0) = ''a''"
  by code_simp+

text \<open>
  C5: hysteresis.  However the probes of overlapping ticks are interleaved with each other
  and with request traffic, a backend is in the pool exactly when the last decisive streak of
  its own results says so: three failures in a row eject it, two successes in a row restore
  it, anything else leaves it as it was.  The counters never influence this by wrapping.
\<close>

theorem health_hysteresis:
  assumes "distinct (map cb_ID cfg)"
    and "checker_step\<^sup>*\<^sup>* (Run_init (NewChecker tlsCfg path iv) (NewPool service cfg)) s"
    and "i < length (backends (cpool s))"
  shows "healthy (backends (cpool s) ! i) = decided_up (results s i)"
  using checker_inv_healthy [OF checker_inv_reachable [OF assms(2,1)] assms(3)] .

theorem health_hysteresis_witness:
  "\<not> healthy (backends (cpool demo_run) ! 0) \<and> healthy (backends (cpool demo_run) ! 1)"
  using health_hysteresis [OF demo_run_results(4) demo_run_reachable [unfolded demo_start_def], of 0]
    health_hysteresis [OF demo_run_results(4) demo_run_reachable [unfolded demo_start_def], of 1]
  by (simp add: demo_run_results demo_run_results(2) [unfolded One_nat_def])

text \<open>
  C14: the gauge agrees with the health bit.  In every reachable state the exported
  \<^verbatim>\<open>gateway_backend_healthy\<close> of a backend is 0 when it is ejected and 1 when it is in the pool,
  except that it is absent while the backend is in the pool and no probe has succeeded yet.
\<close>

theorem health_gauge:
  assumes "distinct (map cb_ID cfg)"
    and "checker_step\<^sup>*\<^sup>* (Run_init (NewChecker tlsCfg path iv) (NewPool service cfg)) s"
    and "i < length (backends (cpool s))"
  shows "gauge_after (Service (cpool s)) (ID (backends (cpool s) ! i)) None (event_metrics (reports s)) =
     (if healthy (backends (cpool s) ! i) then (if True \<in> set (results s i) then Some 1 else None) else Some 0)"
  using gauge_inv_reachable [OF assms(2,1)] assms(3)
    checker_inv_healthy [OF checker_inv_reachable [OF assms(2,1)] assms(3)]
  by (simp add: gauge_inv_def gauge_of_def gauge_spec_def)

theorem health_gauge_witness:
  "gauge_after ''orders'' ''a'' None (event_metrics (reports demo_run)) = Some 0"
proof -
  have "\<not> healthy (backends (cpool demo_run) ! 0)" by code_simp
  then show ?thesis
    using health_gauge [OF demo_run_results(4) demo_run_reachable [unfolded demo_start_def], of 0]
    by (simp add: demo_run_results)
qed

text \<open>
  What one recorded result does.  It changes at most the health and the statistics of
  its own backend; it ejects only on a failure and restores only on a success; it writes a
  log line exactly when the health bit flips; and a backend that returns to the pool starts
  with fresh latency statistics and keeps its in-flight count.
\<close>

lemma record_probe_effect:
  assumes "record_probe c p i ok err = (c', p', ev)" and "i < length (backends p)"
  shows "(let b = backends p ! i; b' = backends p' ! i in
     p' = p\<lparr>backends := (backends p)[i := b']\<rparr>
     \<and> (healthy b \<and> \<not> healthy b' \<longrightarrow> \<not> ok \<and> b' = b\<lparr>healthy := False\<rparr>)
     \<and> (\<not> healthy b \<and> healthy b' \<longrightarrow> ok \<and> b' = b\<lparr>healthy := True, ewmaMs := 0, hasStats := False\<rparr>)
     \<and> (healthy b' = healthy b \<longrightarrow> b' = b)
     \<and> event_logs ev = (if healthy b \<and> \<not> healthy b' then [ejected_line p b err]
          else if \<not> healthy b \<and> healthy b' then [restored_line p b] else []))"
  using assms
  by (auto simp: record_probe_def Let_def on_backend_def set_gauge_def IsHealthy_def SetHealthy_def split: if_splits)

end
