(* ===== verification/Nonce.thy ===== *)
theory Nonce
  imports Go_Time
begin

text \<open>
  \<^verbatim>\<open>internal/auth/nonce.go\<close>: the \<^verbatim>\<open>NonceStore\<close> interface and its in-memory
  implementation.  The map is the \<^verbatim>\<open>items\<close> field, the mutex makes each operation one
  atomic state transformer, and the clock reading of \<^verbatim>\<open>time.Now()\<close> is an argument.

  The interface is the locale \<^verbatim>\<open>nonce_store\<close>: what the verifier relies on for replay
  defence.  Its consequence over runs of whole gateways is proved once in \<^verbatim>\<open>Gateway_Fleet\<close>.
\<close>

section \<open>The in-memory store\<close>

record nonceCache =
  items :: "string \<rightharpoonup> gotime"  \<comment> \<open>jti to exp\<close>
  ttl :: duration

definition newNonceCache :: "duration \<Rightarrow> nonceCache" where
  "newNonceCache t =
     (let t = (if sint t \<le> 0 then 5 * minute else t)
      in \<lparr>items = Map.empty, ttl = t\<rparr>)"

definition NewInMemoryNonceStore :: "duration \<Rightarrow> nonceCache" where
  "NewInMemoryNonceStore t = newNonceCache t"

definition CheckAndStore :: "gotime \<Rightarrow> nonceCache \<Rightarrow> string \<Rightarrow> gotime \<Rightarrow> bool \<times> nonceCache" where
  "CheckAndStore now c jti exp =
     (case items c jti of
        Some _ \<Rightarrow> (False, c)
      | None \<Rightarrow>
          let exp = (if time_IsZero exp then time_Add now (ttl c) else exp)
          in (True, c\<lparr>items := (items c)(jti \<mapsto> exp)\<rparr>))"

text \<open>One tick of the sweeper goroutine: every entry that has expired is deleted.\<close>

definition sweep :: "gotime \<Rightarrow> nonceCache \<Rightarrow> nonceCache" where
  "sweep now c =
     c\<lparr>items := (\<lambda>k. case items c k of
                        None \<Rightarrow> None
                      | Some exp \<Rightarrow> if time_After now exp then None else Some exp)\<rparr>"

section \<open>The interface\<close>

text \<open>
  What the verifier relies on: \<^verbatim>\<open>holds s jti d\<close> says that the store keeps \<^verbatim>\<open>jti\<close> at least until
  the deadline \<^verbatim>\<open>d\<close>.  A held jti is refused; operations keep what is held, upkeep at an instant
  keeps what that instant is in time for; and an accepted jti is held until the deadline of its
  acceptance.  No law speaks of how the clock readings of different calls compare.
\<close>

locale nonce_store =
  fixes cas :: "gotime \<Rightarrow> 's \<Rightarrow> string \<Rightarrow> gotime \<Rightarrow> bool \<times> 's"
    and maintain :: "gotime \<Rightarrow> 's \<Rightarrow> 's"
    and holds :: "'s \<Rightarrow> string \<Rightarrow> 'd \<Rightarrow> bool"
    and in_time :: "gotime \<Rightarrow> 'd \<Rightarrow> bool"
    and storable :: "gotime \<Rightarrow> gotime \<Rightarrow> bool"  \<comment> \<open>expiry the store can represent at this clock reading\<close>
    and deadline :: "gotime \<Rightarrow> 's \<Rightarrow> gotime \<Rightarrow> 'd"
  assumes held_refused: "holds s jti d \<Longrightarrow> \<not> fst (cas now s jti exp)"
    and cas_keeps: "holds s k d \<Longrightarrow> holds (snd (cas now s jti exp)) k d"
    and maintain_keeps: "holds s k d \<Longrightarrow> in_time t d \<Longrightarrow> holds (maintain t s) k d"
    and accepted_held:
      "cas now s jti exp = (True, s') \<Longrightarrow> storable now exp \<Longrightarrow> holds s' jti (deadline now s exp)"

section \<open>The in-memory store provides the interface\<close>

lemma CheckAndStore_seen: "items c jti = Some e \<Longrightarrow> CheckAndStore now c jti exp = (False, c)"
  by (simp add: CheckAndStore_def)

lemma CheckAndStore_new:
  "items c jti = None \<Longrightarrow> \<not> time_IsZero exp \<Longrightarrow>
   CheckAndStore now c jti exp = (True, c\<lparr>items := (items c)(jti \<mapsto> exp)\<rparr>)"
  by (simp add: CheckAndStore_def Let_def)

lemma CheckAndStore_True_iff: "fst (CheckAndStore now c jti exp) \<longleftrightarrow> items c jti = None"
  by (simp add: CheckAndStore_def Let_def split: option.splits)

text \<open>The entry of the jti is the deadline, and a sweep is in time while its clock has not passed it.\<close>

definition cache_holds :: "nonceCache \<Rightarrow> string \<Rightarrow> gotime \<Rightarrow> bool" where
  "cache_holds c jti d \<longleftrightarrow> items c jti = Some d"

interpretation cache: nonce_store CheckAndStore sweep cache_holds "\<lambda>t d. \<not> time_After t d"
  "\<lambda>now exp. \<not> time_IsZero exp" "\<lambda>now c exp. exp"
  by unfold_locales
     (auto simp: cache_holds_def CheckAndStore_seen CheckAndStore_def Let_def sweep_def split: go_split)

end
