(* ===== verification/Redis_Nonce.thy ===== *)
theory Redis_Nonce
  imports Nonce
begin

text \<open>
  \<^verbatim>\<open>internal/auth/redis_nonce.go\<close>: the distributed store.  The go-redis client and the Redis
  server are not part of the repository, so they are parameters: \<^verbatim>\<open>redis.ParseURL\<close>,
  \<^verbatim>\<open>Ping\<close> and \<^verbatim>\<open>SetNX\<close> are arguments of the definitions that call them, and
  \<^verbatim>\<open>redis_documented\<close> states what Redis documents of \<^verbatim>\<open>SET key value NX\<close> with an expiry.
\<close>

section \<open>Operations\<close>

datatype redis_init_error = RedisURL string | RedisPing string

text \<open>
  \<^verbatim>\<open>NewRedisNonceStore\<close>: \<^verbatim>\<open>parseURL\<close> yields the connection options, \<^verbatim>\<open>ping\<close> the error of the
  connectivity check, if any; the store is the client built from the options.
\<close>

definition NewRedisNonceStore ::
  "(string \<Rightarrow> string + 'opt) \<Rightarrow> ('opt \<Rightarrow> 'c) \<Rightarrow> ('c \<Rightarrow> string option) \<Rightarrow> string \<Rightarrow> redis_init_error + 'c" where
  "NewRedisNonceStore parseURL newClient ping url =
     (case parseURL url of
        Inl err \<Rightarrow> Inl (RedisURL err)
      | Inr opt \<Rightarrow>
          let c = newClient opt in
          (case ping c of
             Some err \<Rightarrow> Inl (RedisPing err)
           | None \<Rightarrow> Inr c))"

text \<open>
  A \<^verbatim>\<open>SetNX\<close> call on a server state: an error (\<^verbatim>\<open>None\<close>) or the answer, and the new server
  state.  The server has a clock of its own, part of its state.
\<close>

type_synonym 'r setnx = "'r \<Rightarrow> string \<Rightarrow> duration \<Rightarrow> bool option \<times> 'r"

definition redis_ttl :: "gotime \<Rightarrow> gotime \<Rightarrow> duration" where
  "redis_ttl now exp =
     (let ttl = time_Until now exp in if sint ttl \<le> 0 then 5 * minute else ttl)"

definition Redis_CheckAndStore ::
  "'r setnx \<Rightarrow> gotime \<Rightarrow> 'r \<Rightarrow> string \<Rightarrow> gotime \<Rightarrow> bool \<times> 'r" where
  "Redis_CheckAndStore setNX now r jti exp =
     (case setNX r (''nonce:'' @ jti) (redis_ttl now exp) of
        (None, r') \<Rightarrow> (False, r')
      | (Some ok, r') \<Rightarrow> (ok, r'))"

section \<open>What Redis documents\<close>

text \<open>
  \<^verbatim>\<open>clock r\<close> is the server's clock and \<^verbatim>\<open>expires r k\<close> the instant at which an existing key
  expires, both in nanoseconds; \<^verbatim>\<open>tick t\<close> moves the server's clock to \<^verbatim>\<open>t\<close>.
  \<^item> The answer is true only for a key that does not exist, and the key then expires no earlier
    than its time to live, rounded down to milliseconds, after the server's clock.
  \<^item> A call leaves the clock and the existing keys alone, whether it succeeds or fails.
  \<^item> A key exists while the server's clock has not passed its expiry.
\<close>

definition redis_documented ::
  "'r setnx \<Rightarrow> (gotime \<Rightarrow> 'r \<Rightarrow> 'r) \<Rightarrow> ('r \<Rightarrow> int) \<Rightarrow> ('r \<Rightarrow> string \<Rightarrow> int option) \<Rightarrow> bool" where
  "redis_documented setNX tick clock expires \<longleftrightarrow>
     (\<forall>r k d r'. setNX r k d = (Some True, r') \<longrightarrow> expires r k = None \<and>
        (0 < sint d \<longrightarrow> (\<exists>e. expires r' k = Some e \<and> clock r + sint d div 1000000 * 1000000 \<le> e)))
     \<and> (\<forall>r k d. clock (snd (setNX r k d)) = clock r)
     \<and> (\<forall>r k d k' e. expires r k' = Some e \<longrightarrow> expires (snd (setNX r k d)) k' = Some e)
     \<and> (\<forall>r t. clock (tick t r) = time_ns t)
     \<and> (\<forall>r t k e. expires r k = Some e \<longrightarrow> time_ns t \<le> e \<longrightarrow> expires (tick t r) k = Some e)"

text \<open>Expiries less than 292 years ahead of a sane clock reading: the TTL fits an int64.\<close>

definition redis_storable :: "gotime \<Rightarrow> gotime \<Rightarrow> bool" where
  "redis_storable now exp \<longleftrightarrow>
     sane_time now \<and> valid_time exp \<and> time_ns exp - time_ns now < 2 ^ 63"

text \<open>The nonce key of a jti exists, and expires no earlier than the deadline.\<close>

definition redis_holds :: "('r \<Rightarrow> string \<Rightarrow> int option) \<Rightarrow> 'r \<Rightarrow> string \<Rightarrow> int \<Rightarrow> bool" where
  "redis_holds expires r jti d \<longleftrightarrow>
     (case expires r (''nonce:'' @ jti) of None \<Rightarrow> False | Some e \<Rightarrow> d \<le> e)"

definition redis_deadline :: "('r \<Rightarrow> int) \<Rightarrow> gotime \<Rightarrow> 'r \<Rightarrow> gotime \<Rightarrow> int" where
  "redis_deadline clock now r exp = clock r + sint (redis_ttl now exp) div 1000000 * 1000000"

text \<open>
  A server that satisfies the documented behaviour: a clock, a map from keys to expiry
  instants, and a flag for an outage, in which every call fails.
\<close>

record redis_model =
  server_clock :: int
  keys_exp :: "string \<rightharpoonup> int"
  down :: bool

definition model_expires :: "redis_model \<Rightarrow> string \<Rightarrow> int option" where
  "model_expires r k =
     (case keys_exp r k of None \<Rightarrow> None | Some e \<Rightarrow> if server_clock r \<le> e then Some e else None)"

definition model_setnx :: "redis_model setnx" where
  "model_setnx r k d =
     (if down r then (None, r)
      else if model_expires r k \<noteq> None then (Some False, r)
      else (Some True,
            r\<lparr>keys_exp := (keys_exp r)(k \<mapsto> server_clock r + sint d div 1000000 * 1000000)\<rparr>))"

definition model_tick :: "gotime \<Rightarrow> redis_model \<Rightarrow> redis_model" where
  "model_tick t r = r\<lparr>server_clock := time_ns t\<rparr>"

section \<open>Lemmas\<close>

lemma redis_ttl_exact:
  assumes "redis_storable now exp"
  shows "0 < sint (redis_ttl now exp)" and "time_ns exp \<le> time_ns now + sint (redis_ttl now exp)"
proof -
  have "sint (time_Until now exp) = max (- (2 ^ 63)) (time_ns exp - time_ns now)"
    using assms unfolding redis_storable_def sane_time_def time_Until_def
    by (subst time_Sub_saturates) auto
  then show "0 < sint (redis_ttl now exp)" and "time_ns exp \<le> time_ns now + sint (redis_ttl now exp)"
    using assms by (auto simp: redis_ttl_def Let_def minute_def redis_storable_def max_def split: if_splits)
qed

lemma ms_floor: "x - 999999 \<le> x div 1000000 * 1000000" for x :: int
  by presburger

lemma redis_deadline_late:
  "redis_storable now exp \<Longrightarrow>
   clock r - time_ns now + time_ns exp - 999999 \<le> redis_deadline clock now r exp"
  using redis_ttl_exact(2) [of now exp] ms_floor [of "sint (redis_ttl now exp)"]
  by (simp add: redis_deadline_def)

lemma Redis_accepted_iff:
  "Redis_CheckAndStore setNX now r jti exp = (True, r') \<longleftrightarrow>
   setNX r (''nonce:'' @ jti) (redis_ttl now exp) = (Some True, r')"
  by (auto simp: Redis_CheckAndStore_def split: go_split)

lemma snd_Redis_CheckAndStore:
  "snd (Redis_CheckAndStore setNX now r jti exp) = snd (setNX r (''nonce:'' @ jti) (redis_ttl now exp))"
  by (simp add: Redis_CheckAndStore_def split: go_split)

text \<open>Under the documented behaviour of \<^verbatim>\<open>SET NX\<close> the Redis store provides the interface.\<close>

lemma redis_nonce_store:
  assumes "redis_documented setNX tick clock expires"
  shows "nonce_store (Redis_CheckAndStore setNX) tick (redis_holds expires) (\<lambda>t d. time_ns t \<le> d)
           redis_storable (redis_deadline clock)"
proof
  note spec = assms [unfolded redis_documented_def]
  show "\<not> fst (Redis_CheckAndStore setNX now r jti exp)" if "redis_holds expires r jti d" for r jti d now exp
  proof
    assume "fst (Redis_CheckAndStore setNX now r jti exp)"
    then obtain r' where "Redis_CheckAndStore setNX now r jti exp = (True, r')" by (metis prod.collapse)
    then show False
      using spec that unfolding Redis_accepted_iff redis_holds_def by (metis option.simps(4))
  qed
  show "redis_holds expires (snd (Redis_CheckAndStore setNX now r jti exp)) k d"
    if "redis_holds expires r k d" for r k d now jti exp
    using that spec by (auto simp: redis_holds_def snd_Redis_CheckAndStore split: option.splits)
  show "redis_holds expires (tick t r) k d" if "redis_holds expires r k d" "time_ns t \<le> d" for r k d t
    using that spec by (auto simp: redis_holds_def split: option.splits)
  show "redis_holds expires r' jti (redis_deadline clock now r exp)"
    if acc: "Redis_CheckAndStore setNX now r jti exp = (True, r')" and st: "redis_storable now exp"
    for now r jti exp r'
    using spec redis_ttl_exact(1) [OF st] acc [unfolded Redis_accepted_iff]
    by (fastforce simp: redis_holds_def redis_deadline_def)
qed

lemma model_documented: "redis_documented model_setnx model_tick server_clock model_expires"
  by (auto simp: redis_documented_def model_setnx_def model_tick_def model_expires_def split: go_split)

text \<open>The interface on the model of a Redis server.\<close>

interpretation redis_server: nonce_store "Redis_CheckAndStore model_setnx" model_tick
  "redis_holds model_expires" "\<lambda>t d. time_ns t \<le> d" redis_storable "redis_deadline server_clock"
  by (rule redis_nonce_store [OF model_documented])

lemma Redis_CheckAndStore_error:
  "fst (setNX r (''nonce:'' @ jti) (redis_ttl now exp)) = None \<Longrightarrow>
   fst (Redis_CheckAndStore setNX now r jti exp) = False"
  by (auto simp: Redis_CheckAndStore_def split: prod.splits)

end
