(* ===== verification/Go_Base64.thy ===== *)
theory Go_Base64
  imports Prelude
begin

text \<open>
  The \<^verbatim>\<open>encoding/base64\<close> decoders and encoders the gateway and the artifact generator use:
  \<^verbatim>\<open>base64.RawURLEncoding\<close> for token segments (URL alphabet, no padding) and
  \<^verbatim>\<open>base64.StdEncoding\<close> for public keys (standard alphabet, mandatory padding).  As in Go,
  carriage returns and line feeds are skipped and unused trailing bits are ignored; any
  other malformed input is an error (\<^verbatim>\<open>None\<close>).
\<close>

datatype b64_alphabet = Std | URL

definition b64_val :: "b64_alphabet \<Rightarrow> char \<Rightarrow> nat option" where
  "b64_val al c =
     (let n = byte_val c in
      if 65 \<le> n \<and> n \<le> 90 then Some (n - 65)
      else if 97 \<le> n \<and> n \<le> 122 then Some (n - 71)
      else if 48 \<le> n \<and> n \<le> 57 then Some (n + 4)
      else if n = (case al of Std \<Rightarrow> 43 | URL \<Rightarrow> 45) then Some 62
      else if n = (case al of Std \<Rightarrow> 47 | URL \<Rightarrow> 95) then Some 63
      else None)"

definition b64_char :: "b64_alphabet \<Rightarrow> nat \<Rightarrow> char" where
  "b64_char al v =
     (if v < 26 then char_of (v + 65)
      else if v < 52 then char_of (v + 71)
      else if v < 62 then char_of (v - 4)
      else if v = 62 then char_of (case al of Std \<Rightarrow> 43 :: nat | URL \<Rightarrow> 45)
      else char_of (case al of Std \<Rightarrow> 47 :: nat | URL \<Rightarrow> 95))"

text \<open>The bytes of a quantum of two, three or four sextets.\<close>

definition quantum1 :: "nat \<Rightarrow> nat \<Rightarrow> char" where
  "quantum1 a b = char_of (a * 4 + b div 16)"

definition quantum2 :: "nat \<Rightarrow> nat \<Rightarrow> char" where
  "quantum2 b c = char_of (b mod 16 * 16 + c div 4)"

definition quantum3 :: "nat \<Rightarrow> nat \<Rightarrow> char" where
  "quantum3 c d = char_of (c mod 4 * 64 + d)"

definition pad_char :: char where
  "pad_char = CHR ''=''"

fun decode_quanta :: "b64_alphabet \<Rightarrow> bool \<Rightarrow> string \<Rightarrow> bytes option" where
  "decode_quanta al padded [] = Some []"
| "decode_quanta al padded [_] = None"
| "decode_quanta al padded [a, b] =
     (if padded then None
      else case (b64_val al a, b64_val al b) of
             (Some va, Some vb) \<Rightarrow> Some [quantum1 va vb]
           | _ \<Rightarrow> None)"
| "decode_quanta al padded [a, b, c] =
     (if padded then None
      else case (b64_val al a, b64_val al b, b64_val al c) of
             (Some va, Some vb, Some vc) \<Rightarrow> Some [quantum1 va vb, quantum2 vb vc]
           | _ \<Rightarrow> None)"
| "decode_quanta al padded (a # b # c # d # rest) =
     (case (b64_val al a, b64_val al b) of
        (Some va, Some vb) \<Rightarrow>
          if padded \<and> d = pad_char then
            (if rest \<noteq> [] then None
             else if c = pad_char then Some [quantum1 va vb]
             else (case b64_val al c of
                     Some vc \<Rightarrow> Some [quantum1 va vb, quantum2 vb vc]
                   | None \<Rightarrow> None))
          else
            (case (b64_val al c, b64_val al d, decode_quanta al padded rest) of
               (Some vc, Some vd, Some bs) \<Rightarrow>
                 Some (quantum1 va vb # quantum2 vb vc # quantum3 vc vd # bs)
             | _ \<Rightarrow> None)
      | _ \<Rightarrow> None)"

definition b64_decode :: "b64_alphabet \<Rightarrow> bool \<Rightarrow> string \<Rightarrow> bytes option" where
  "b64_decode al padded s =
     decode_quanta al padded (filter (\<lambda>c. byte_val c \<noteq> 10 \<and> byte_val c \<noteq> 13) s)"

definition RawURLEncoding_DecodeString :: "string \<Rightarrow> bytes option" where
  "RawURLEncoding_DecodeString s = b64_decode URL False s"

definition StdEncoding_DecodeString :: "string \<Rightarrow> bytes option" where
  "StdEncoding_DecodeString s = b64_decode Std True s"

fun b64_encode :: "b64_alphabet \<Rightarrow> bool \<Rightarrow> bytes \<Rightarrow> string" where
  "b64_encode al padded [] = []"
| "b64_encode al padded [x] =
     (let n = byte_val x in
      [b64_char al (n div 4), b64_char al (n mod 4 * 16)]
      @ (if padded then [pad_char, pad_char] else []))"
| "b64_encode al padded [x, y] =
     (let n = byte_val x; m = byte_val y in
      [b64_char al (n div 4), b64_char al (n mod 4 * 16 + m div 16), b64_char al (m mod 16 * 4)]
      @ (if padded then [pad_char] else []))"
| "b64_encode al padded (x # y # z # rest) =
     (let n = byte_val x; m = byte_val y; k = byte_val z in
      [b64_char al (n div 4), b64_char al (n mod 4 * 16 + m div 16),
       b64_char al (m mod 16 * 4 + k div 64), b64_char al (k mod 64)]
      @ b64_encode al padded rest)"

definition RawURLEncoding_EncodeToString :: "bytes \<Rightarrow> string" where
  "RawURLEncoding_EncodeToString bs = b64_encode URL False bs"

definition StdEncoding_EncodeToString :: "bytes \<Rightarrow> string" where
  "StdEncoding_EncodeToString bs = b64_encode Std True bs"

section \<open>Decoding inverts encoding\<close>

lemma b64_val_char: "v < 64 \<Longrightarrow> b64_val al (b64_char al v) = Some v"
  by (cases al) (auto simp: b64_val_def b64_char_def Let_def)

lemma byte_val_b64_char:
  "v < 64 \<Longrightarrow> byte_val (b64_char al v) \<noteq> 10 \<and> byte_val (b64_char al v) \<noteq> 13 \<and> byte_val (b64_char al v) \<noteq> 61"
  by (cases al) (auto simp: b64_char_def)

lemma b64_char_not_pad: "v < 64 \<Longrightarrow> b64_char al v \<noteq> pad_char"
  using byte_val_b64_char [of v al] by (auto simp: pad_char_def)

lemma sextets_less:
  "byte_val x div 4 < 64" "byte_val x mod 4 * 16 < 64" "byte_val x mod 4 * 16 + byte_val y div 16 < 64"
  "byte_val y mod 16 * 4 < 64" "byte_val y mod 16 * 4 + byte_val z div 64 < 64" "byte_val z mod 64 < 64"
  using byte_val_less [of x] byte_val_less [of y] byte_val_less [of z]
  by (simp_all, linarith+)

lemma byte_div_less [simp]: "byte_val y div 16 < 16" "byte_val z div 64 < 4"
  using byte_val_less [of y] byte_val_less [of z] by linarith+

lemma quantum1_sextets: "m < 16 \<Longrightarrow> quantum1 (byte_val x div 4) (byte_val x mod 4 * 16 + m) = x"
proof -
  assume "m < 16"
  then have "byte_val x div 4 * 4 + (byte_val x mod 4 * 16 + m) div 16 = byte_val x" by simp
  then show ?thesis by (simp add: quantum1_def)
qed

lemma quantum2_sextets:
  "m < 4 \<Longrightarrow> quantum2 (n mod 4 * 16 + byte_val y div 16) (byte_val y mod 16 * 4 + m) = y"
proof -
  assume "m < 4"
  then have "(n mod 4 * 16 + byte_val y div 16) mod 16 * 16 + (byte_val y mod 16 * 4 + m) div 4 = byte_val y"
    by simp
  then show ?thesis by (simp add: quantum2_def)
qed

lemma quantum3_sextets: "quantum3 (m mod 16 * 4 + byte_val z div 64) (byte_val z mod 64) = z"
proof -
  have "(m mod 16 * 4 + byte_val z div 64) mod 4 * 64 + byte_val z mod 64 = byte_val z"
    by simp
  then show ?thesis by (simp add: quantum3_def)
qed

lemmas quantum_sextets =
  quantum1_sextets quantum1_sextets [where m = 0, simplified]
  quantum2_sextets quantum2_sextets [where m = 0, simplified] quantum3_sextets

lemma b64_encode_no_newline:
  "filter (\<lambda>c. byte_val c \<noteq> 10 \<and> byte_val c \<noteq> 13) (b64_encode al padded bs) = b64_encode al padded bs"
  by (induction al padded bs rule: b64_encode.induct)
     (simp_all add: Let_def sextets_less byte_val_b64_char pad_char_def)

lemma decode_encode: "decode_quanta al padded (b64_encode al padded bs) = Some bs"
  by (induction al padded bs rule: b64_encode.induct)
     (simp_all add: Let_def sextets_less b64_val_char b64_char_not_pad quantum_sextets)

lemma b64_roundtrip: "b64_decode al padded (b64_encode al padded bs) = Some bs"
  by (simp add: b64_decode_def b64_encode_no_newline decode_encode)

lemma RawURL_roundtrip: "RawURLEncoding_DecodeString (RawURLEncoding_EncodeToString bs) = Some bs"
  by (simp add: RawURLEncoding_DecodeString_def RawURLEncoding_EncodeToString_def b64_roundtrip)

lemma Std_roundtrip: "StdEncoding_DecodeString (StdEncoding_EncodeToString bs) = Some bs"
  by (simp add: StdEncoding_DecodeString_def StdEncoding_EncodeToString_def b64_roundtrip)

lemma b64_encode_no_dot: "CHR ''.'' \<notin> set (b64_encode URL False bs)"
proof -
  have no_dot: "CHR ''.'' = b64_char URL v \<longleftrightarrow> False" if "v < 64" for v
  proof -
    have "b64_val URL (CHR ''.'') = None" by (simp add: b64_val_def)
    then show ?thesis using b64_val_char [OF that, of URL] by (metis option.distinct(1))
  qed
  show ?thesis
    by (induction URL False bs rule: b64_encode.induct) (simp_all add: Let_def sextets_less no_dot)
qed

end
