(* ===== verification/Jwt.thy ===== *)
theory Jwt
  imports Redis_Nonce Go_Base64
begin

text \<open>
  \<^verbatim>\<open>internal/auth/jwt.go\<close>: registration of client keys and verification of a token.  The
  Ed25519 signature check and the two \<^verbatim>\<open>json.Unmarshal\<close> calls are the fields of
  \<^verbatim>\<open>auth_lib\<close>, an argument of every definition that calls them, so each theorem holds for
  every signature scheme and every decoder.  The nonce store is any \<^verbatim>\<open>cas\<close> operation on any
  state; \<^verbatim>\<open>Verify\<close> returns Go's triple together with the new store.  Its two clock readings
  (line 195, and the one inside the store) are separate arguments.
\<close>

section \<open>Data\<close>

definition ReasonNoToken :: string where "ReasonNoToken = ''no_token''"
definition ReasonUnknownKid :: string where "ReasonUnknownKid = ''unknown_kid''"
definition ReasonBadSignature :: string where "ReasonBadSignature = ''bad_signature''"
definition ReasonBadClaims :: string where "ReasonBadClaims = ''bad_claims''"
definition ReasonExpired :: string where "ReasonExpired = ''expired''"
definition ReasonNotYetValid :: string where "ReasonNotYetValid = ''not_yet_valid''"
definition ReasonReplay :: string where "ReasonReplay = ''replay''"
definition ReasonMissingScope :: string where "ReasonMissingScope = ''missing_scope''"
definition ReasonWrongAudience :: string where "ReasonWrongAudience = ''wrong_audience''"
definition ReasonWrongIssuer :: string where "ReasonWrongIssuer = ''wrong_issuer''"

definition clockSkew :: duration where
  "clockSkew = 30 * second"

record header =
  Alg :: string
  Typ :: string
  Kid :: string

record Claims =
  Iss :: string
  Sub :: string
  Aud :: string
  Iat :: int64
  Exp :: int64
  Jti :: string
  Scope :: "string list"

record registeredKey =
  pub :: bytes
  sub :: string
  scopes :: "string set"

record Verifier =
  keys :: "string \<rightharpoonup> registeredKey"
  issuer :: string
  audience :: string

text \<open>The error each rejection wraps: one constructor per \<^verbatim>\<open>newErr\<close> call site.\<close>

datatype auth_cause =
    ExpectedThreeSegments
  | HeaderB64
  | HeaderJson string
  | AlgNotAllowed string
  | KidNotRegistered string
  | SigB64
  | PayloadB64
  | PayloadJson string
  | IssMismatch string
  | AudMismatch string
  | MissingJti
  | JtiSeen string

record AuthError =
  Reason :: string
  Err :: "auth_cause option"

record KeyRegistration =
  reg_Kid :: string
  PubBase64 :: string
  Subject :: string
  Scopes :: "string list"

datatype register_error =
    NoClientKeys
  | BadBase64Pub string
  | PubKeySize string nat

record auth_lib =
  ed25519_Verify :: "bytes \<Rightarrow> bytes \<Rightarrow> bytes \<Rightarrow> bool"
  json_header :: "bytes \<Rightarrow> string + header"
  json_Claims :: "bytes \<Rightarrow> string + Claims"

type_synonym 's nonce_op = "gotime \<Rightarrow> 's \<Rightarrow> string \<Rightarrow> gotime \<Rightarrow> bool \<times> 's"

section \<open>Operations\<close>

definition AuthError_Error :: "(auth_cause \<Rightarrow> string) \<Rightarrow> AuthError \<Rightarrow> string" where
  "AuthError_Error text e =
     (case Err e of None \<Rightarrow> Reason e | Some err \<Rightarrow> Reason e @ '': '' @ text err)"

definition newErr :: "string \<Rightarrow> auth_cause option \<Rightarrow> AuthError" where
  "newErr reason err = \<lparr>Reason = reason, Err = err\<rparr>"

definition PublicKeySize :: nat where
  "PublicKeySize = 32"

text \<open>The registration loop; an earlier entry with the same kid is overwritten.\<close>

fun register_keys ::
  "(string \<rightharpoonup> registeredKey) \<Rightarrow> KeyRegistration list \<Rightarrow> register_error + (string \<rightharpoonup> registeredKey)" where
  "register_keys m [] = Inr m"
| "register_keys m (r # regs) =
     (case StdEncoding_DecodeString (PubBase64 r) of
        None \<Rightarrow> Inl (BadBase64Pub (reg_Kid r))
      | Some raw \<Rightarrow>
          if length raw \<noteq> PublicKeySize then Inl (PubKeySize (reg_Kid r) (length raw))
          else register_keys
                 (m(reg_Kid r \<mapsto> \<lparr>pub = raw, sub = Subject r, scopes = set (Scopes r)\<rparr>)) regs)"

definition NewVerifierWithStore ::
  "KeyRegistration list \<Rightarrow> string \<Rightarrow> string \<Rightarrow> register_error + Verifier" where
  "NewVerifierWithStore regs iss aud =
     (if length regs = 0 then Inl NoClientKeys
      else case register_keys Map.empty regs of
             Inl err \<Rightarrow> Inl err
           | Inr m \<Rightarrow> Inr \<lparr>keys = m, issuer = iss, audience = aud\<rparr>)"

text \<open>\<^verbatim>\<open>NewVerifier\<close> pairs the verifier with a fresh in-memory store.\<close>

definition NewVerifier ::
  "KeyRegistration list \<Rightarrow> string \<Rightarrow> string \<Rightarrow> duration \<Rightarrow> register_error + (Verifier \<times> nonceCache)" where
  "NewVerifier regs iss aud nonceTTL =
     (let store = newNonceCache nonceTTL in
      case NewVerifierWithStore regs iss aud of
        Inl err \<Rightarrow> Inl err
      | Inr v \<Rightarrow> Inr (v, store))"

definition reject ::
  "'s \<Rightarrow> string \<Rightarrow> auth_cause option \<Rightarrow> (Claims option \<times> string \<times> AuthError option) \<times> 's" where
  "reject st reason err = ((None, '''', Some (newErr reason err)), st)"

text \<open>The checks on the decoded payload: \<^verbatim>\<open>Verify\<close> from line 189.\<close>

definition verify_claims ::
  "'s nonce_op \<Rightarrow> gotime \<Rightarrow> gotime \<Rightarrow> Verifier \<Rightarrow> 's \<Rightarrow> registeredKey \<Rightarrow> Claims
   \<Rightarrow> (Claims option \<times> string \<times> AuthError option) \<times> 's" where
  "verify_claims cas now now' v st key c =
     (if issuer v \<noteq> '''' \<and> Iss c \<noteq> issuer v then reject st ReasonWrongIssuer (Some (IssMismatch (Iss c)))
      else if Aud c \<noteq> audience v then reject st ReasonWrongAudience (Some (AudMismatch (Aud c)))
      else if Exp c = 0 \<or> time_After now (time_Unix (Exp c)) then reject st ReasonExpired None
      else if Iat c \<noteq> 0 \<and> time_Before (time_Add now clockSkew) (time_Unix (Iat c))
        then reject st ReasonNotYetValid None
      else if Jti c = '''' then reject st ReasonBadClaims (Some MissingJti)
      else (let (fresh, st') = cas now' st (Jti c) (time_Unix (Exp c)) in
            if \<not> fresh then reject st' ReasonReplay (Some (JtiSeen (Jti c)))
            else ((Some c, sub key, None), st')))"

definition Verify ::
  "auth_lib \<Rightarrow> 's nonce_op \<Rightarrow> gotime \<Rightarrow> gotime \<Rightarrow> Verifier \<Rightarrow> 's \<Rightarrow> string
   \<Rightarrow> (Claims option \<times> string \<times> AuthError option) \<times> 's" where
  "Verify lib cas now now' v st token =
     (case strings_Split token (CHR ''.'') of
        [p0, p1, p2] \<Rightarrow>
          (case RawURLEncoding_DecodeString p0 of
             None \<Rightarrow> reject st ReasonBadClaims (Some HeaderB64)
           | Some hdrRaw \<Rightarrow>
          (case json_header lib hdrRaw of
             Inl err \<Rightarrow> reject st ReasonBadClaims (Some (HeaderJson err))
           | Inr hdr \<Rightarrow>
          if Alg hdr \<noteq> ''EdDSA'' then reject st ReasonBadClaims (Some (AlgNotAllowed (Alg hdr)))
          else
          (case keys v (Kid hdr) of
             None \<Rightarrow> reject st ReasonUnknownKid (Some (KidNotRegistered (Kid hdr)))
           | Some key \<Rightarrow>
          (case RawURLEncoding_DecodeString p2 of
             None \<Rightarrow> reject st ReasonBadClaims (Some SigB64)
           | Some sig \<Rightarrow>
          if \<not> ed25519_Verify lib (pub key) (p0 @ ''.'' @ p1) sig then reject st ReasonBadSignature None
          else
          (case RawURLEncoding_DecodeString p1 of
             None \<Rightarrow> reject st ReasonBadClaims (Some PayloadB64)
           | Some payload \<Rightarrow>
          (case json_Claims lib payload of
             Inl err \<Rightarrow> reject st ReasonBadClaims (Some (PayloadJson err))
           | Inr c \<Rightarrow> verify_claims cas now now' v st key c))))))
      | _ \<Rightarrow> reject st ReasonBadClaims (Some ExpectedThreeSegments))"

fun scope_loop :: "string list \<Rightarrow> string \<Rightarrow> bool" where
  "scope_loop [] required = False"
| "scope_loop (s # ss) required = (if s = required then True else scope_loop ss required)"

definition HasScope :: "Claims \<Rightarrow> string \<Rightarrow> bool" where
  "HasScope c required = (if required = '''' then True else scope_loop (Scope c) required)"

section \<open>What verification promises\<close>

text \<open>
  A token is authentic for a registered key and claims when its first segment decodes to a
  header pinned to EdDSA that names the key, the third to a signature the key verifies over
  the first two, and the second to the claims.
\<close>

definition authentic :: "auth_lib \<Rightarrow> Verifier \<Rightarrow> string \<Rightarrow> registeredKey \<Rightarrow> Claims \<Rightarrow> bool" where
  "authentic lib v token key c \<longleftrightarrow>
     (\<exists>p0 p1 p2 hdrRaw hdr sig payload.
        strings_Split token (CHR ''.'') = [p0, p1, p2]
        \<and> RawURLEncoding_DecodeString p0 = Some hdrRaw \<and> json_header lib hdrRaw = Inr hdr
        \<and> Alg hdr = ''EdDSA'' \<and> keys v (Kid hdr) = Some key
        \<and> RawURLEncoding_DecodeString p2 = Some sig
        \<and> ed25519_Verify lib (pub key) (p0 @ ''.'' @ p1) sig
        \<and> RawURLEncoding_DecodeString p1 = Some payload \<and> json_Claims lib payload = Inr c)"

text \<open>Claims the gateway may admit at a clock reading, replay apart.\<close>

definition acceptable :: "gotime \<Rightarrow> Verifier \<Rightarrow> Claims \<Rightarrow> bool" where
  "acceptable now v c \<longleftrightarrow>
     (issuer v = '''' \<or> Iss c = issuer v) \<and> Aud c = audience v
     \<and> Exp c \<noteq> 0 \<and> \<not> time_After now (time_Unix (Exp c))
     \<and> (Iat c = 0 \<or> \<not> time_Before (time_Add now clockSkew) (time_Unix (Iat c)))
     \<and> Jti c \<noteq> ''''"

text \<open>Every public key of the verifier has the size \<^verbatim>\<open>ed25519.Verify\<close> demands.\<close>

definition wf_verifier :: "Verifier \<Rightarrow> bool" where
  "wf_verifier v \<longleftrightarrow> (\<forall>kid key. keys v kid = Some key \<longrightarrow> length (pub key) = PublicKeySize)"

text \<open>A registration that yields a usable key, and the key it yields.\<close>

definition valid_registration :: "KeyRegistration \<Rightarrow> bool" where
  "valid_registration r =
     (case StdEncoding_DecodeString (PubBase64 r) of None \<Rightarrow> False | Some raw \<Rightarrow> length raw = 32)"

definition registered_as :: "KeyRegistration \<Rightarrow> registeredKey" where
  "registered_as r =
     \<lparr>pub = the (StdEncoding_DecodeString (PubBase64 r)), sub = Subject r, scopes = set (Scopes r)\<rparr>"

lemma Verify_authentic:
  "authentic lib v token key c \<Longrightarrow>
   Verify lib cas now now' v st token = verify_claims cas now now' v st key c"
  by (auto simp: authentic_def Verify_def)

text \<open>The reasons \<^verbatim>\<open>Verify\<close> gives before it touches the nonce store.\<close>

definition token_reasons :: "string set" where
  "token_reasons = {ReasonBadClaims, ReasonUnknownKid, ReasonBadSignature, ReasonWrongIssuer,
     ReasonWrongAudience, ReasonExpired, ReasonNotYetValid}"

lemmas reason_defs = ReasonNoToken_def ReasonUnknownKid_def ReasonBadSignature_def ReasonBadClaims_def
  ReasonExpired_def ReasonNotYetValid_def ReasonReplay_def ReasonMissingScope_def
  ReasonWrongAudience_def ReasonWrongIssuer_def

lemma in_token_reasons [simp]:
  "ReasonBadClaims \<in> token_reasons" "ReasonUnknownKid \<in> token_reasons"
  "ReasonBadSignature \<in> token_reasons" "ReasonWrongIssuer \<in> token_reasons"
  "ReasonWrongAudience \<in> token_reasons" "ReasonExpired \<in> token_reasons"
  "ReasonNotYetValid \<in> token_reasons"
  by (simp_all add: token_reasons_def)

lemma not_in_token_reasons [simp]:
  "ReasonReplay \<notin> token_reasons" "ReasonMissingScope \<notin> token_reasons" "ReasonNoToken \<notin> token_reasons"
  by (simp_all add: token_reasons_def reason_defs)

lemma Verify_not_authentic:
  assumes "\<nexists>key c. authentic lib v token key c"
  shows "\<exists>r \<in> token_reasons. \<exists>e. Verify lib cas now now' v st token = reject st r e"
  using assms unfolding authentic_def Verify_def
  by (auto split: list.split option.split sum.split)

lemma authentic_unique:
  "authentic lib v token key c \<Longrightarrow> authentic lib v token key' c' \<Longrightarrow> key' = key \<and> c' = c"
  by (auto simp: authentic_def)

lemma verify_claims_cases:
  shows "acceptable now v c \<Longrightarrow> cas now' st (Jti c) (time_Unix (Exp c)) = (True, st') \<Longrightarrow>
      verify_claims cas now now' v st key c = ((Some c, sub key, None), st')"
    and "acceptable now v c \<Longrightarrow> cas now' st (Jti c) (time_Unix (Exp c)) = (False, st') \<Longrightarrow>
      verify_claims cas now now' v st key c = reject st' ReasonReplay (Some (JtiSeen (Jti c)))"
    and "\<not> acceptable now v c \<Longrightarrow>
      \<exists>r \<in> token_reasons. \<exists>e. verify_claims cas now now' v st key c = reject st r e"
  by (auto simp: acceptable_def verify_claims_def)

text \<open>Case analysis of one call: rejected unseen, replayed, or accepted.\<close>

lemma Verify_cases:
  obtains (rejected) r e where "Verify lib cas now now' v st token = reject st r e"
      and "r \<in> token_reasons" and "\<And>key c. \<not> (authentic lib v token key c \<and> acceptable now v c)"
    | (replayed) key c st' where "authentic lib v token key c" "acceptable now v c"
        "cas now' st (Jti c) (time_Unix (Exp c)) = (False, st')"
        "Verify lib cas now now' v st token = reject st' ReasonReplay (Some (JtiSeen (Jti c)))"
    | (accepted) key c st' where "authentic lib v token key c" "acceptable now v c"
        "cas now' st (Jti c) (time_Unix (Exp c)) = (True, st')"
        "Verify lib cas now now' v st token = ((Some c, sub key, None), st')"
proof (cases "\<exists>key c. authentic lib v token key c")
  case False
  then obtain r e where "Verify lib cas now now' v st token = reject st r e" "r \<in> token_reasons"
    using Verify_not_authentic [of lib v token cas now now' st] by blast
  with False show ?thesis by (intro rejected) auto
next
  case True
  then obtain key c where a: "authentic lib v token key c" by blast
  note V = Verify_authentic [OF a, of cas now now' st]
  show ?thesis
  proof (cases "acceptable now v c")
    case False
    then obtain r e where "verify_claims cas now now' v st key c = reject st r e" "r \<in> token_reasons"
      using verify_claims_cases(3) [of now v c cas now' st key] by blast
    with V False a show ?thesis by (intro rejected) (auto dest: authentic_unique)
  next
    case acc: True
    obtain fresh st' where cas: "cas now' st (Jti c) (time_Unix (Exp c)) = (fresh, st')"
      by (cases "cas now' st (Jti c) (time_Unix (Exp c))")
    show ?thesis
    proof (cases fresh)
      case True
      with a acc cas V show ?thesis by (intro accepted) (auto simp: verify_claims_cases(1))
    next
      case False
      with a acc cas V show ?thesis by (intro replayed) (auto simp: verify_claims_cases(2))
    qed
  qed
qed

lemma reject_not_accept [simp]: "reject st r e \<noteq> ((Some c, s, None), st')"
  by (simp add: reject_def)

lemma verify_claims_scopes:
  "verify_claims cas now now' (v\<lparr>keys := m\<rparr>) st (key\<lparr>scopes := S\<rparr>) c = verify_claims cas now now' v st key c"
  by (simp add: verify_claims_def case_prod_beta)

lemma register_keys_Inr:
  "register_keys m regs = Inr m' \<longleftrightarrow>
   list_all valid_registration regs \<and>
   m' = (\<lambda>kid. case find (\<lambda>r. reg_Kid r = kid) (rev regs) of None \<Rightarrow> m kid | Some r \<Rightarrow> Some (registered_as r))"
proof (induction regs arbitrary: m)
  case Nil
  show ?case by (auto simp: fun_eq_iff)
next
  case (Cons r regs)
  have find: "find P (xs @ [r]) = (case find P xs of None \<Rightarrow> if P r then Some r else None | Some y \<Rightarrow> Some y)"
    for P and xs :: "KeyRegistration list"
    by (induction xs) auto
  show ?case
    by (auto simp: Cons.IH valid_registration_def registered_as_def PublicKeySize_def find fun_eq_iff
        split: option.splits)
qed

lemma HasScope_iff: "HasScope c required \<longleftrightarrow> required = '''' \<or> required \<in> set (Scope c)"
proof -
  have "scope_loop ss required \<longleftrightarrow> required \<in> set ss" for ss
    by (induction ss) auto
  then show ?thesis by (simp add: HasScope_def)
qed

lemma Verify_accepted:
  "Verify lib cas now now' v st token = ((Some c, s, None), st') \<longleftrightarrow>
   (\<exists>key. authentic lib v token key c \<and> acceptable now v c \<and> s = sub key
      \<and> cas now' st (Jti c) (time_Unix (Exp c)) = (True, st'))"
  by (cases rule: Verify_cases [of lib cas now now' v st token])
     (auto simp: Verify_authentic verify_claims_cases(1) dest: authentic_unique)

text \<open>The scopes registered with a key play no part in verification.\<close>

lemma Verify_ignores_registered_scopes:
  "Verify lib cas now now'
     (v\<lparr>keys := \<lambda>kid. map_option (\<lambda>key. key\<lparr>scopes := S kid\<rparr>) (keys v kid)\<rparr>) st token
   = Verify lib cas now now' v st token"
  by (simp add: Verify_def verify_claims_scopes split: list.split option.split sum.split)

section \<open>Registration\<close>

text \<open>
  Registration succeeds exactly when there is at least one key and every key is padded
  standard base64 of 32 bytes; the verifier then holds, for each kid, the last registration
  with that kid, its decoded public key, subject and scopes.
\<close>

lemma NewVerifierWithStore_Inr:
  "NewVerifierWithStore regs iss aud = Inr v \<longleftrightarrow>
   regs \<noteq> [] \<and> list_all valid_registration regs \<and>
   v = \<lparr>keys = \<lambda>kid. map_option registered_as (find (\<lambda>r. reg_Kid r = kid) (rev regs)),
        issuer = iss, audience = aud\<rparr>"
proof -
  have "register_keys Map.empty regs = Inr m \<longleftrightarrow> list_all valid_registration regs
      \<and> m = (\<lambda>kid. map_option registered_as (find (\<lambda>r. reg_Kid r = kid) (rev regs)))" for m
    by (simp add: register_keys_Inr map_option_case)
  then show ?thesis
    unfolding NewVerifierWithStore_def by (cases "register_keys Map.empty regs") auto
qed

section \<open>A worked example\<close>

text \<open>
  A verifier with one registered key (the demo's \<^verbatim>\<open>intern\<close>, registered with no scopes), a
  signature scheme and decoders that accept one token, and a clock two minutes before its
  expiry.
\<close>

definition demo_claims :: Claims where
  "demo_claims = \<lparr>Iss = ''secure-svc-gw'', Sub = ''intern'', Aud = ''secure-svc-gw'', Iat = 1700000000,
     Exp = 1700000300, Jti = ''j1'', Scope = [''llm:invoke'']\<rparr>"

definition demo_lib :: auth_lib where
  "demo_lib = \<lparr>ed25519_Verify = \<lambda>key msg sig. sig = ''sig'',
     json_header = \<lambda>b. if b = ''hdr'' then Inr \<lparr>Alg = ''EdDSA'', Typ = ''JWT'', Kid = ''k-intern''\<rparr> else Inl ''bad'',
     json_Claims = \<lambda>b. if b = ''bdy'' then Inr demo_claims else Inl ''bad''\<rparr>"

definition demo_key :: registeredKey where
  "demo_key = \<lparr>pub = replicate 32 (CHR ''k''), sub = ''intern'', scopes = {}\<rparr>"

definition demo_verifier :: Verifier where
  "demo_verifier = \<lparr>keys = [''k-intern'' \<mapsto> demo_key],
     issuer = ''secure-svc-gw'', audience = ''secure-svc-gw''\<rparr>"

definition demo_token :: string where
  "demo_token = ''aGRy.YmR5.c2ln''"

definition demo_now :: gotime where
  "demo_now = \<lparr>t_sec = 63835596980, t_nsec = 5\<rparr>"

definition demo_later :: gotime where
  "demo_later = \<lparr>t_sec = 63835597101, t_nsec = 0\<rparr>"

definition demo_store :: nonceCache where
  "demo_store = newNonceCache 0"

definition demo_redis :: redis_model where
  "demo_redis = \<lparr>server_clock = time_ns demo_now, keys_exp = Map.empty, down = False\<rparr>"

lemma demo_sane: "sane_time demo_now" "sane_time demo_later"
  by (simp_all add: sane_time_def valid_time_def demo_now_def demo_later_def)

lemma demo_clock: "\<not> time_After demo_now demo_later" "time_After demo_later (time_Unix (Exp demo_claims))"
  by code_simp+

lemma demo_authentic: "authentic demo_lib demo_verifier demo_token demo_key demo_claims"
proof -
  have "strings_Split demo_token (CHR ''.'') = [''aGRy'', ''YmR5'', ''c2ln'']"
    "RawURLEncoding_DecodeString ''aGRy'' = Some ''hdr''"
    "RawURLEncoding_DecodeString ''YmR5'' = Some ''bdy''"
    "RawURLEncoding_DecodeString ''c2ln'' = Some ''sig''"
    by code_simp+
  then show ?thesis
    by (simp add: authentic_def demo_lib_def demo_verifier_def)
qed

lemma demo_acceptable: "acceptable demo_now demo_verifier demo_claims"
  by code_simp

lemma demo_accepted:
  "Verify demo_lib CheckAndStore demo_now demo_now demo_verifier demo_store demo_token =
     ((Some demo_claims, ''intern'', None),
      demo_store\<lparr>items := [''j1'' \<mapsto> time_Unix 1700000300]\<rparr>)"
proof -
  have "CheckAndStore demo_now demo_store ''j1'' (time_Unix 1700000300)
      = (True, demo_store\<lparr>items := [''j1'' \<mapsto> time_Unix 1700000300]\<rparr>)"
    by (rule trans [OF CheckAndStore_new])
       (simp_all add: demo_store_def newNonceCache_def time_IsZero_def time_Unix_def unixToInternal_def)
  then show ?thesis
    using demo_acceptable
    by (simp add: Verify_authentic [OF demo_authentic] verify_claims_cases(1) demo_claims_def demo_key_def)
qed

lemma demo_ns: "time_ns demo_now + 1000000 \<le> time_ns (time_Unix (Exp demo_claims))
    \<and> time_ns (time_Unix (Exp demo_claims)) - time_ns demo_now < 2 ^ 63"
  by code_simp

section \<open>Properties\<close>

text \<open>
  C4: \<^verbatim>\<open>Verify\<close> accepts exactly the authentic tokens whose claims are acceptable at its clock
  reading and whose jti the nonce store takes as new; the subject it returns is the one
  registered with the key, whatever the payload says.
\<close>

theorem Verify_accepts_iff:
  "Verify lib cas now now' v st token = ((Some c, s, None), st') \<longleftrightarrow>
   (\<exists>key. authentic lib v token key c \<and> acceptable now v c \<and> s = sub key
      \<and> cas now' st (Jti c) (time_Unix (Exp c)) = (True, st'))"
  by (rule Verify_accepted)

text \<open>
  C12: a rejected token yields no claims and no subject; its reason is one of the eight of
  \<^verbatim>\<open>Verify\<close>, the store is untouched unless the reason is replay, and replay is reported only
  for an authentic, acceptable token the store refused, so nobody without a registered key
  can burn a nonce.
\<close>

theorem Verify_rejection:
  assumes "Verify lib cas now now' v st token = ((co, s, Some err), st')"
  shows "co = None \<and> s = '''' \<and>
    (Reason err \<in> token_reasons \<and> st' = st
     \<or> Reason err = ReasonReplay \<and>
       (\<exists>key c. authentic lib v token key c \<and> acceptable now v c
          \<and> cas now' st (Jti c) (time_Unix (Exp c)) = (False, st')))"
  using assms
  by (cases rule: Verify_cases [of lib cas now now' v st token]) (auto simp: reject_def newErr_def)

theorem Verify_rejection_witness:
  "ReasonBadClaims \<in> token_reasons \<and>
   Verify demo_lib CheckAndStore demo_now demo_now demo_verifier demo_store ''x'' =
     ((None, '''', Some (newErr ReasonBadClaims (Some ExpectedThreeSegments))), demo_store)"
proof -
  have V: "Verify demo_lib CheckAndStore demo_now demo_now demo_verifier demo_store ''x'' =
     ((None, '''', Some (newErr ReasonBadClaims (Some ExpectedThreeSegments))), demo_store)"
    by (simp add: Verify_def reject_def)
  from Verify_rejection [OF V] have "ReasonBadClaims \<in> token_reasons"
    by (auto simp: newErr_def reason_defs)
  with V show ?thesis by simp
qed

text \<open>
  C25: the expiry check and the store operation are not one step.  If a verification reads
  the clock before a token expires but reaches the store only after a sweep that runs past
  the expiry, the token is accepted a second time.
\<close>

theorem late_store_replay:
  assumes "Verify lib CheckAndStore now now v st token = ((Some c, s, None), st')"
    and "sane_time now" and "time_After t (time_Unix (Exp c))"
  shows "fst (Verify lib CheckAndStore now t v (sweep t st') token) = (Some c, s, None)"
proof -
  from assms(1) obtain key where a: "authentic lib v token key c" "acceptable now v c" "s = sub key"
    and cas: "CheckAndStore now st (Jti c) (time_Unix (Exp c)) = (True, st')"
    by (cases rule: Verify_cases [of lib CheckAndStore now now v st token]) auto
  have "\<not> time_IsZero (time_Unix (Exp c))"
    using a(2) assms(2) sane_le_not_zero by (auto simp: acceptable_def)
  with cas have "items st' (Jti c) = Some (time_Unix (Exp c))"
    by (auto simp: CheckAndStore_def split: option.splits)
  with assms(3) have "fst (CheckAndStore t (sweep t st') (Jti c) (time_Unix (Exp c)))"
    by (simp add: CheckAndStore_True_iff sweep_def)
  with a show ?thesis
    by (cases "CheckAndStore t (sweep t st') (Jti c) (time_Unix (Exp c))")
       (simp add: Verify_authentic verify_claims_cases(1))
qed

theorem late_store_replay_witness:
  "fst (Verify demo_lib CheckAndStore demo_now demo_later demo_verifier
     (sweep demo_later (demo_store\<lparr>items := [''j1'' \<mapsto> time_Unix 1700000300]\<rparr>)) demo_token)
   = (Some demo_claims, ''intern'', None)"
  by (rule late_store_replay [OF demo_accepted demo_sane(1) demo_clock(2)])

text \<open>
  C16: the time window of acceptance, exactly, in nanoseconds.  With a clock in Go's documented
  range and timestamps below the last \<^verbatim>\<open>62135596800\<close> seconds of the int64 range, \<^verbatim>\<open>Verify\<close> accepts
  if and only if the token is authentic, issuer, audience and jti are in order, \<^verbatim>\<open>exp\<close> is
  present and the clock has not passed it (the instant \<^verbatim>\<open>exp\<close> itself is still accepted),
  \<^verbatim>\<open>iat\<close>, when present, is at most 30 seconds ahead of the clock, and the store takes the jti
  as new.
\<close>

theorem Verify_time_window:
  assumes "sane_time now"
    and "sint (Exp c) < 2 ^ 63 - 62135596800" and "sint (Iat c) < 2 ^ 63 - 62135596800"
  shows "Verify lib cas now now' v st token = ((Some c, s, None), st') \<longleftrightarrow>
    (\<exists>key. authentic lib v token key c \<and> s = sub key)
    \<and> (issuer v = '''' \<or> Iss c = issuer v) \<and> Aud c = audience v \<and> Jti c \<noteq> ''''
    \<and> Exp c \<noteq> 0 \<and> time_ns now \<le> (sint (Exp c) + 62135596800) * 1000000000
    \<and> (Iat c = 0 \<or> (sint (Iat c) + 62135596800) * 1000000000 \<le> time_ns now + 30 * 1000000000)
    \<and> cas now' st (Jti c) (time_Unix (Exp c)) = (True, st')"
proof -
  have "valid_time (time_Add now clockSkew)"
    "time_ns (time_Add now clockSkew) = time_ns now + 30 * 1000000000"
    using time_Add_correct [of now clockSkew] assms(1)
    by (auto simp: sane_time_def clockSkew_def second_def)
  then have "acceptable now v c \<longleftrightarrow>
      (issuer v = '''' \<or> Iss c = issuer v) \<and> Aud c = audience v \<and> Jti c \<noteq> ''''
      \<and> Exp c \<noteq> 0 \<and> time_ns now \<le> (sint (Exp c) + 62135596800) * 1000000000
      \<and> (Iat c = 0 \<or> (sint (Iat c) + 62135596800) * 1000000000 \<le> time_ns now + 30 * 1000000000)"
    using assms by (auto simp: acceptable_def time_simps time_ns_Unix)
  then show ?thesis
    by (simp add: Verify_accepted) blast
qed

theorem Verify_time_window_witness:
  "time_ns demo_now \<le> (1700000300 + 62135596800) * 1000000000 \<and>
   (1700000000 + 62135596800) * 1000000000 \<le> time_ns demo_now + 30 * 1000000000"
  using Verify_time_window [THEN iffD1, OF demo_sane(1) _ _ demo_accepted] by (simp add: demo_claims_def)

text \<open>
  C26: at the top of the int64 range the epoch offset of \<^verbatim>\<open>time.Unix\<close> wraps.  An \<^verbatim>\<open>exp\<close> there
  is always expired, whatever the signature; but a token with an \<^verbatim>\<open>iat\<close> there, the furthest
  possible future, is never found not yet valid: \<^verbatim>\<open>Verify\<close> accepts it as soon as it is
  authentic, in order in issuer, audience, \<^verbatim>\<open>exp\<close> and jti, and new to the store.
\<close>

theorem wrapped_timestamps:
  assumes "sane_time now"
  shows "(2 ^ 63 - 62135596800 \<le> sint (Exp c) \<longrightarrow>
      fst (Verify lib cas now now' v st token) \<noteq> (Some c, s, None))
    \<and> (2 ^ 63 - 62135596800 \<le> sint (Iat c) \<and> authentic lib v token key c
       \<and> (issuer v = '''' \<or> Iss c = issuer v) \<and> Aud c = audience v \<and> Jti c \<noteq> ''''
       \<and> Exp c \<noteq> 0 \<and> \<not> time_After now (time_Unix (Exp c))
       \<and> cas now' st (Jti c) (time_Unix (Exp c)) = (True, st') \<longrightarrow>
      Verify lib cas now now' v st token = ((Some c, sub key, None), st'))"
proof (intro conjI impI)
  assume "2 ^ 63 - 62135596800 \<le> sint (Exp c)"
  then have "\<not> acceptable now v c"
    using sec_Unix_wraps(2) [of "Exp c"] assms
    by (auto simp: acceptable_def time_After_def sane_time_def)
  then show "fst (Verify lib cas now now' v st token) \<noteq> (Some c, s, None)"
    by (cases rule: Verify_cases [of lib cas now now' v st token]) (auto simp: reject_def)
next
  assume iat: "2 ^ 63 - 62135596800 \<le> sint (Iat c) \<and> authentic lib v token key c
       \<and> (issuer v = '''' \<or> Iss c = issuer v) \<and> Aud c = audience v \<and> Jti c \<noteq> ''''
       \<and> Exp c \<noteq> 0 \<and> \<not> time_After now (time_Unix (Exp c))
       \<and> cas now' st (Jti c) (time_Unix (Exp c)) = (True, st')"
  have "\<not> time_Before (time_Add now clockSkew) (time_Unix (Iat c))"
    using time_Add_correct [of now clockSkew] sec_Unix_wraps(2) [OF conjunct1 [OF iat]] assms
    by (auto simp: time_Before_iff_ns sane_time_def time_ns_def time_Unix_def valid_time_def
      clockSkew_def second_def)
  with iat show "Verify lib cas now now' v st token = ((Some c, sub key, None), st')"
    by (auto simp: Verify_accepted acceptable_def)
qed

text \<open>The same token, issued in the furthest future, under a decoder that yields it.\<close>

definition future_claims :: Claims where
  "future_claims = demo_claims\<lparr>Iat := 0x7FFFFFFFFFFFFFFF\<rparr>"

definition future_lib :: auth_lib where
  "future_lib = demo_lib\<lparr>json_Claims := \<lambda>b. if b = ''bdy'' then Inr future_claims else Inl ''bad''\<rparr>"

theorem wrapped_timestamps_witness:
  "fst (Verify demo_lib CheckAndStore demo_now demo_now demo_verifier demo_store demo_token)
     \<noteq> (Some (demo_claims\<lparr>Exp := 0x7FFFFFFFFFFFFFFF\<rparr>), ''intern'', None)
   \<and> fst (Verify future_lib CheckAndStore demo_now demo_now demo_verifier demo_store demo_token)
     = (Some future_claims, ''intern'', None)"
proof -
  have a: "authentic future_lib demo_verifier demo_token demo_key future_claims"
    using demo_authentic by (auto simp: authentic_def future_lib_def demo_lib_def split: if_splits)
  have "fst (CheckAndStore demo_now demo_store (Jti future_claims) (time_Unix (Exp future_claims)))"
    by code_simp
  then obtain st' where "CheckAndStore demo_now demo_store (Jti future_claims) (time_Unix (Exp future_claims)) = (True, st')"
    by (metis prod.collapse)
  moreover have "2 ^ 63 - 62135596800 \<le> sint (Iat future_claims)" "sub demo_key = ''intern''"
    by code_simp+
  moreover have "acceptable demo_now demo_verifier future_claims"
    by code_simp
  ultimately have "Verify future_lib CheckAndStore demo_now demo_now demo_verifier demo_store demo_token
      = ((Some future_claims, ''intern'', None), st')"
    using wrapped_timestamps [OF demo_sane(1), THEN conjunct2, of future_claims future_lib demo_verifier demo_token demo_key CheckAndStore
        demo_now demo_store st'] a
    unfolding acceptable_def by simp
  then show ?thesis
    using wrapped_timestamps [OF demo_sane(1), THEN conjunct1, of "demo_claims\<lparr>Exp := 0x7FFFFFFFFFFFFFFF\<rparr>"] by simp
qed

end
