(* ===== verification/Go_Header.thy ===== *)
theory Go_Header
  imports Prelude "HOL-Library.AList"
begin

text \<open>
  \<^verbatim>\<open>net/http\<close> headers and the \<^verbatim>\<open>http.ResponseWriter\<close> the handler writes to.  A header is an
  association list from keys to value lists: the list order is one possible iteration order
  of the Go map, which is unspecified, and \<^verbatim>\<open>wf_header\<close> says each key occurs once.
  \<^verbatim>\<open>Get\<close>, \<^verbatim>\<open>Set\<close>, \<^verbatim>\<open>Add\<close> and \<^verbatim>\<open>Del\<close> canonicalise the key, ranging over the map does not.
\<close>

type_synonym go_header = "(string \<times> string list) list"

section \<open>Canonical keys\<close>

definition valid_field_byte :: "char \<Rightarrow> bool" where
  "valid_field_byte c \<longleftrightarrow>
     is_upper_ascii c \<or> is_lower_ascii c \<or> is_digit_ascii c \<or> c \<in> set ''!#$%&*+-.^_`|~'' \<or> byte_val c = 39"

fun canon_bytes :: "bool \<Rightarrow> string \<Rightarrow> string" where
  "canon_bytes upper [] = []"
| "canon_bytes upper (c # cs) =
     (let c = (if upper then upper_byte c else lower_byte c)
      in c # canon_bytes (c = CHR ''-'') cs)"

definition CanonicalHeaderKey :: "string \<Rightarrow> string" where
  "CanonicalHeaderKey s = (if list_all valid_field_byte s then canon_bytes True s else s)"

section \<open>Header operations\<close>

definition header_values :: "go_header \<Rightarrow> string \<Rightarrow> string list" where
  "header_values h k = (case map_of h k of None \<Rightarrow> [] | Some vs \<Rightarrow> vs)"

definition header_Get :: "go_header \<Rightarrow> string \<Rightarrow> string" where
  "header_Get h key =
     (case header_values h (CanonicalHeaderKey key) of [] \<Rightarrow> '''' | v # _ \<Rightarrow> v)"

definition header_Set :: "go_header \<Rightarrow> string \<Rightarrow> string \<Rightarrow> go_header" where
  "header_Set h key v = AList.update (CanonicalHeaderKey key) [v] h"

definition header_Add :: "go_header \<Rightarrow> string \<Rightarrow> string \<Rightarrow> go_header" where
  "header_Add h key v =
     (let k = CanonicalHeaderKey key in AList.update k (header_values h k @ [v]) h)"

definition header_Del :: "go_header \<Rightarrow> string \<Rightarrow> go_header" where
  "header_Del h key = AList.delete (CanonicalHeaderKey key) h"

definition wf_header :: "go_header \<Rightarrow> bool" where
  "wf_header h \<longleftrightarrow> distinct (map fst h)"

section \<open>The response writer\<close>

text \<open>
  The status is \<^verbatim>\<open>None\<close> until the header is written; a second \<^verbatim>\<open>WriteHeader\<close> is ignored, and
  writing a body first sends status 200.
\<close>

record response_writer =
  w_header :: go_header
  w_status :: "int option"
  w_body :: bytes

definition new_writer :: response_writer where
  "new_writer = \<lparr>w_header = [], w_status = None, w_body = []\<rparr>"

definition w_WriteHeader :: "response_writer \<Rightarrow> int \<Rightarrow> response_writer" where
  "w_WriteHeader w code = (case w_status w of None \<Rightarrow> w\<lparr>w_status := Some code\<rparr> | Some _ \<Rightarrow> w)"

definition w_Write :: "response_writer \<Rightarrow> bytes \<Rightarrow> response_writer" where
  "w_Write w bs = (let w = w_WriteHeader w 200 in w\<lparr>w_body := w_body w @ bs\<rparr>)"

definition w_Set :: "response_writer \<Rightarrow> string \<Rightarrow> string \<Rightarrow> response_writer" where
  "w_Set w k v = w\<lparr>w_header := header_Set (w_header w) k v\<rparr>"

definition http_Error :: "response_writer \<Rightarrow> string \<Rightarrow> int \<Rightarrow> response_writer" where
  "http_Error w err code =
     (let w = w_Set w ''Content-Type'' ''text/plain; charset=utf-8'';
          w = w_Set w ''X-Content-Type-Options'' ''nosniff'';
          w = w_WriteHeader w code
      in w_Write w (err @ [char_of (10 :: nat)]))"

section \<open>Lemmas\<close>

lemma upper_lower_byte [simp]:
  "upper_byte (upper_byte c) = upper_byte c" "lower_byte (lower_byte c) = lower_byte c"
  by (auto simp: upper_byte_def lower_byte_def is_lower_ascii_def is_upper_ascii_def)

lemma lower_upper_byte [simp]:
  "lower_byte (upper_byte c) = lower_byte c" "upper_byte (lower_byte c) = upper_byte c"
  by (auto simp: upper_byte_def lower_byte_def is_lower_ascii_def is_upper_ascii_def)

lemma valid_case_byte [simp]:
  "valid_field_byte c \<Longrightarrow> valid_field_byte (upper_byte c)"
  "valid_field_byte c \<Longrightarrow> valid_field_byte (lower_byte c)"
  by (auto simp: valid_field_byte_def upper_byte_def lower_byte_def is_lower_ascii_def is_upper_ascii_def)

lemma canon_bytes_valid: "list_all valid_field_byte s \<Longrightarrow> list_all valid_field_byte (canon_bytes u s)"
  by (induction s arbitrary: u) (auto simp: Let_def)

lemma canon_bytes_idem: "canon_bytes u (canon_bytes u s) = canon_bytes u s"
  by (induction s arbitrary: u) (auto simp: Let_def)

lemma canon_bytes_lower: "map lower_byte (canon_bytes u s) = map lower_byte s"
  by (induction s arbitrary: u) (auto simp: Let_def)

lemma Canonical_idem [simp]: "CanonicalHeaderKey (CanonicalHeaderKey s) = CanonicalHeaderKey s"
  by (simp add: CanonicalHeaderKey_def canon_bytes_idem canon_bytes_valid)

lemma ToLower_Canonical [simp]: "strings_ToLower (CanonicalHeaderKey s) = strings_ToLower s"
  by (simp add: go_lib CanonicalHeaderKey_def canon_bytes_lower)

lemma header_values_simps:
  "header_values (AList.update k vs h) k' = (if k' = k then vs else header_values h k')"
  "header_values (AList.delete k h) k' = (if k' = k then [] else header_values h k')"
  by (auto simp: header_values_def update_conv' delete_conv')

lemma values_Set:
  "header_values (header_Set h key v) k = (if k = CanonicalHeaderKey key then [v] else header_values h k)"
  by (simp add: header_Set_def header_values_simps)

lemma values_Add:
  "header_values (header_Add h key v) k =
     (if k = CanonicalHeaderKey key then header_values h k @ [v] else header_values h k)"
  by (simp add: header_Add_def header_values_simps Let_def)

lemma values_Del:
  "header_values (header_Del h key) k = (if k = CanonicalHeaderKey key then [] else header_values h k)"
  by (simp add: header_Del_def header_values_simps)

lemmas header_op_values = values_Set values_Add values_Del

lemma wf_header_ops [simp]:
  "wf_header h \<Longrightarrow> wf_header (header_Set h k v)"
  "wf_header h \<Longrightarrow> wf_header (header_Add h k v)"
  "wf_header h \<Longrightarrow> wf_header (header_Del h k)"
  by (simp_all add: wf_header_def header_Set_def header_Add_def header_Del_def Let_def
      distinct_update distinct_delete)

lemma keys_header_ops:
  "fst ` set (header_Set h k v) = insert (CanonicalHeaderKey k) (fst ` set h)"
  "fst ` set (header_Add h k v) = insert (CanonicalHeaderKey k) (fst ` set h)"
  by (simp_all add: header_Set_def header_Add_def Let_def dom_update)

lemma keys_header_Del: "fst ` set (header_Del h k) = fst ` set h - {CanonicalHeaderKey k}"
  unfolding header_Del_def using delete_keys [of "CanonicalHeaderKey k" h]
  by (metis set_map set_removeAll)

lemma Get_Set [simp]: "header_Get (header_Set h key v) key = v"
  by (simp add: header_Get_def values_Set)

lemma http_Error_fresh:
  "w_status w = None \<Longrightarrow>
   w_status (http_Error w err code) = Some code \<and> w_body (http_Error w err code) = w_body w @ err @ [char_of (10 :: nat)]"
  by (simp add: http_Error_def Let_def w_Set_def w_WriteHeader_def w_Write_def)

lemma http_Error_header:
  "header_values (w_header (http_Error w err code)) k =
     (if k = ''Content-Type'' then [''text/plain; charset=utf-8'']
      else if k = ''X-Content-Type-Options'' then [''nosniff'']
      else header_values (w_header w) k)"
proof -
  have "CanonicalHeaderKey ''Content-Type'' = ''Content-Type''"
    "CanonicalHeaderKey ''X-Content-Type-Options'' = ''X-Content-Type-Options''"
    by code_simp+
  then show ?thesis
    by (simp add: http_Error_def Let_def w_Set_def w_WriteHeader_def w_Write_def values_Set split: option.split)
qed

text \<open>Field names that differ only in letter case have one canonical form.\<close>

lemma valid_lower_byte [simp]: "valid_field_byte (lower_byte c) = valid_field_byte c"
proof -
  have "valid_field_byte (lower_byte c) \<Longrightarrow> valid_field_byte c"
    by (cases "is_upper_ascii c") (simp_all add: lower_byte_def valid_field_byte_def)
  then show ?thesis using valid_case_byte(2) by blast
qed

lemma canon_bytes_of_lower: "canon_bytes u (map lower_byte s) = canon_bytes u s"
  by (induction s arbitrary: u) (simp_all add: Let_def)

lemma Canonical_case_insensitive:
  assumes "strings_ToLower s = strings_ToLower t" and "list_all valid_field_byte t"
  shows "CanonicalHeaderKey s = CanonicalHeaderKey t"
proof -
  have "list_all valid_field_byte (map lower_byte s) = list_all valid_field_byte (map lower_byte t)"
    using assms(1) by (simp add: go_lib)
  then have "list_all valid_field_byte s" using assms(2) by (simp add: list_all_iff)
  then show ?thesis
    using assms canon_bytes_of_lower [of True s] canon_bytes_of_lower [of True t]
    by (simp add: CanonicalHeaderKey_def go_lib)
qed

end
