(* ===== verification/Handler.thy ===== *)
theory Handler
  imports Jwt Go_Header Lb_Pool Metrics Proxy_Tls
begin

text \<open>
  \<^verbatim>\<open>internal/proxy/handler.go\<close>: the request path.  A handler keeps its routes, verifier and
  clients; its mutable state is the pools and the nonce store.  Everything outside the
  process that a request observes is in its \<^verbatim>\<open>serve_env\<close>: random bytes, clock readings, the
  outcomes of \<^verbatim>\<open>rand.Intn\<close>, the answers of the network, and what other goroutines do to the
  pool while an upstream call is in flight and while its answer is copied to the client.  An operation returns the new state, the
  metrics and log lines it emits in order, and the requests it sends to backends.
  A Go panic, which \<^verbatim>\<open>net/http\<close> confines to the connection, is a flag of the result.
\<close>

section \<open>Data\<close>

record routeEntry =
  re_prefix :: string
  re_service :: string
  requiredScope :: string

record ('pool, 'cert) Handler =
  routes :: "routeEntry list"
  h_verifier :: Verifier
  clients :: "string \<rightharpoonup> ('pool, 'cert) http_Client"

record 's gw_state =
  pools :: "string \<rightharpoonup> Pool"
  nonces :: 's

text \<open>A request body can be read once: the transport closes it, on errors too.\<close>

datatype body = NoBody | Unread bytes | ClosedBody

definition close_body :: "body \<Rightarrow> body" where
  "close_body b = (case b of NoBody \<Rightarrow> NoBody | _ \<Rightarrow> ClosedBody)"

record http_Request =
  rq_Method :: string
  rq_Path :: string
  rq_RawQuery :: string
  rq_Header :: go_header
  rq_Body :: body

text \<open>A request as \<^verbatim>\<open>http.Client\<close> receives it.\<close>

record out_Request =
  o_Method :: string
  o_URL :: string
  o_Header :: go_header
  o_Body :: body

text \<open>An error, with its text and what \<^verbatim>\<open>errors.Is\<close> says of the two context errors.\<close>

record go_error =
  Error_text :: string
  is_Canceled :: bool
  is_DeadlineExceeded :: bool

text \<open>
  The answer to \<^verbatim>\<open>client.Do\<close>.  The bytes are those \<^verbatim>\<open>io.Copy\<close> gets out of the response body,
  all of them or, when the backend breaks off, a first part.
\<close>

datatype upstream = Transport go_error | Answer int go_header bytes

record ('pool, 'cert) attempt_env =
  ae_newreq :: "string \<Rightarrow> string \<Rightarrow> go_error option"  \<comment> \<open>method and URL rejected by \<^verbatim>\<open>http.NewRequest\<close>\<close>
  ae_start :: gotime
  ae_done :: gotime
  ae_observed :: gotime
  ae_Do :: "('pool, 'cert) http_Client \<Rightarrow> out_Request \<Rightarrow> upstream"
  ae_world :: "Pool \<Rightarrow> Pool"  \<comment> \<open>other goroutines, during the call\<close>
  ae_world' :: "Pool \<Rightarrow> Pool"  \<comment> \<open>other goroutines, between \<^verbatim>\<open>RecordLatency\<close> and the deferred \<^verbatim>\<open>Release\<close>\<close>

record ('pool, 'cert) serve_env =
  e_random :: bytes
  e_now :: gotime
  e_now' :: gotime
  e_pick :: "nat \<times> nat"
  e_pick' :: "nat \<times> nat"
  e_first :: "('pool, 'cert) attempt_env"
  e_retry :: "('pool, 'cert) attempt_env"

record forwarded =
  f_code :: int
  f_id :: string
  f_err :: "go_error option"
  f_panic :: bool
  f_w :: response_writer
  f_pool :: Pool
  f_body :: body
  f_events :: "event list"
  f_sent :: "out_Request list"

record 's served =
  sv_w :: response_writer
  sv_state :: "'s gw_state"
  sv_events :: "event list"
  sv_sent :: "(string \<times> out_Request) list"  \<comment> \<open>backend ID and request\<close>
  sv_panic :: bool

section \<open>Construction and helpers\<close>

definition NewHandler ::
  "Config \<Rightarrow> (string \<rightharpoonup> ('pool, 'cert) http_Client) \<Rightarrow> Verifier \<Rightarrow> ('pool, 'cert) Handler" where
  "NewHandler cfg cls v =
     \<lparr>routes = map (\<lambda>r. \<lparr>re_prefix = rt_Prefix r, re_service = rt_Service r,
                         requiredScope = rt_RequiredScope r\<rparr>) (Routes cfg),
      h_verifier = v, clients = cls\<rparr>"

definition newRequestID :: "bytes \<Rightarrow> string" where
  "newRequestID b = hex_EncodeToString b"

fun match_route :: "routeEntry list \<Rightarrow> string \<Rightarrow> routeEntry option" where
  "match_route [] path = None"
| "match_route (r # rs) path = (if strings_HasPrefix path (re_prefix r) then Some r else match_route rs path)"

definition extractBearer :: "go_header \<Rightarrow> string" where
  "extractBearer hdr =
     (let h = header_Get hdr ''Authorization''; p = ''Bearer '' in
      if length h \<le> length p \<or> \<not> strings_EqualFold (take (length p) h) p then ''''
      else strings_TrimSpace (drop (length p) h))"

definition hop_by_hop :: "string list" where
  "hop_by_hop = [''connection'', ''keep-alive'', ''proxy-authenticate'', ''proxy-authorization'',
     ''te'', ''trailer'', ''transfer-encoding'', ''upgrade'']"

fun add_values :: "go_header \<Rightarrow> string \<Rightarrow> string list \<Rightarrow> go_header" where
  "add_values dst k [] = dst"
| "add_values dst k (v # vs) = add_values (header_Add dst k v) k vs"

fun copyHeaders :: "go_header \<Rightarrow> go_header \<Rightarrow> go_header" where
  "copyHeaders [] dst = dst"
| "copyHeaders ((k, vs) # src) dst =
     (if strings_ToLower k \<in> set hop_by_hop then copyHeaders src dst
      else copyHeaders src (add_values dst k vs))"

definition isRetryable :: "go_error option \<Rightarrow> bool" where
  "isRetryable err =
     (case err of None \<Rightarrow> False
      | Some e \<Rightarrow> if is_Canceled e \<or> is_DeadlineExceeded e then False else True)"

definition Unauthorized :: int where "Unauthorized = 401"
definition Forbidden :: int where "Forbidden = 403"
definition NotFound :: int where "NotFound = 404"
definition BadGateway :: int where "BadGateway = 502"
definition ServiceUnavailable :: int where "ServiceUnavailable = 503"

definition denied_line :: "string \<Rightarrow> routeEntry \<Rightarrow> string \<Rightarrow> string \<Rightarrow> string \<Rightarrow> log_line" where
  "denied_line rid route subject kid reason =
     \<lparr>ll_level = Warn, ll_msg = ''request denied'',
      ll_attrs = [(''request_id'', LStr rid), (''decision'', LStr ''deny''), (''reason'', LStr reason),
                  (''route'', LStr (re_prefix route)), (''sub'', LStr subject), (''kid'', LStr kid)]\<rparr>"

definition denyAuth ::
  "response_writer \<Rightarrow> string \<Rightarrow> routeEntry \<Rightarrow> string \<Rightarrow> string \<Rightarrow> string \<Rightarrow> response_writer \<times> event list" where
  "denyAuth w rid route subject kid reason =
     (let status = (if reason = ReasonMissingScope then Forbidden else Unauthorized)
      in (http_Error w reason status,
          [Metric (RequestsTotal_Inc (re_prefix route) ''deny'' reason), Metric (AuthFailures_Inc reason),
           Log (denied_line rid route subject kid reason)]))"

section \<open>One upstream attempt\<close>

definition forward_target :: "Backend \<Rightarrow> routeEntry \<Rightarrow> http_Request \<Rightarrow> string" where
  "forward_target b route r =
     (let target = Addr b @ strings_TrimPrefix (rq_Path r) (re_prefix route)
      in if rq_RawQuery r \<noteq> '''' then target @ ''?'' @ rq_RawQuery r else target)"

definition out_headers :: "go_header \<Rightarrow> string \<Rightarrow> string \<Rightarrow> go_header" where
  "out_headers hdr subject rid =
     (let h = copyHeaders hdr [];
          h = header_Del h ''Authorization'';
          h = header_Set h ''X-Forwarded-Sub'' subject
      in header_Set h ''X-Request-Id'' rid)"

text \<open>What the client sees of an answer; a status \<^verbatim>\<open>WriteHeader\<close> does not accept makes it panic.\<close>

definition relay :: "response_writer \<Rightarrow> string \<Rightarrow> int \<Rightarrow> go_header \<Rightarrow> bytes \<Rightarrow> bool \<times> response_writer" where
  "relay w backend_id code hdr bs =
     (let w = w\<lparr>w_header := copyHeaders hdr (w_header w)\<rparr>;
          w = w_Set w ''X-Upstream'' backend_id
      in if code < 100 \<or> 999 < code then (True, w)
         else (False, let w = w_WriteHeader w code in if bs = [] then w else w_Write w bs))"

definition forward ::
  "('pool, 'cert) attempt_env \<Rightarrow> ('pool, 'cert) Handler \<Rightarrow> http_Request \<Rightarrow> response_writer
   \<Rightarrow> routeEntry \<Rightarrow> Pool \<Rightarrow> nat \<Rightarrow> string \<Rightarrow> string \<Rightarrow> forwarded" where
  "forward env h r w route pool i rid subject =
     (let b = backends pool ! i;
          pool = on_backend Acquire i pool;
          target = forward_target b route r;
          fail = \<lparr>f_code = 0, f_id = ID b, f_err = None, f_panic = False, f_w = w,
                  f_pool = on_backend Release i pool, f_body = rq_Body r, f_events = [], f_sent = []\<rparr>
      in case ae_newreq env (rq_Method r) target of
           Some err \<Rightarrow> fail\<lparr>f_err := Some err\<rparr>
         | None \<Rightarrow>
      (let req = \<lparr>o_Method = rq_Method r, o_URL = target,
                  o_Header = out_headers (rq_Header r) subject rid, o_Body = rq_Body r\<rparr>
       in case clients h (re_service route) of
            None \<Rightarrow> fail\<lparr>f_panic := True\<rparr>
          | Some client \<Rightarrow>
       (let resp = ae_Do env client req;
            elapsed = time_Sub (ae_done env) (ae_start env);
            pool = on_backend (\<lambda>b. RecordLatency b elapsed) i (ae_world env pool);
            pool = on_backend Release i (ae_world' env pool);
            observe = (\<lambda>code. map Metric (Observe (re_service route) (ID b) code (ae_start env) (ae_observed env)));
            res = fail\<lparr>f_pool := pool, f_body := close_body (rq_Body r), f_sent := [req]\<rparr>
        in case resp of
             Transport err \<Rightarrow> res\<lparr>f_err := Some err, f_events := observe 0\<rparr>
           | Answer code hdr bs \<Rightarrow>
               (let (pan, w) = relay w (ID b) code hdr bs
                in res\<lparr>f_code := code, f_panic := pan, f_w := w, f_events := observe code\<rparr>))))"

section \<open>Log lines of the handler\<close>

definition no_route_line :: "string \<Rightarrow> http_Request \<Rightarrow> log_line" where
  "no_route_line rid r =
     \<lparr>ll_level = Info, ll_msg = ''request rejected'',
      ll_attrs = [(''request_id'', LStr rid), (''decision'', LStr ''deny''), (''reason'', LStr ''no_route''),
                  (''path'', LStr (rq_Path r)), (''method'', LStr (rq_Method r))]\<rparr>"

definition no_backend_line :: "string \<Rightarrow> routeEntry \<Rightarrow> string \<Rightarrow> log_line" where
  "no_backend_line rid route subject =
     \<lparr>ll_level = Error, ll_msg = ''no healthy backend'',
      ll_attrs = [(''request_id'', LStr rid), (''decision'', LStr ''deny''),
                  (''reason'', LStr ''no_healthy_backend''), (''route'', LStr (re_prefix route)),
                  (''target_service'', LStr (re_service route)), (''sub'', LStr subject)]\<rparr>"

definition retry_line :: "string \<Rightarrow> routeEntry \<Rightarrow> string \<Rightarrow> string \<Rightarrow> go_error \<Rightarrow> log_line" where
  "retry_line rid route prev alt err =
     \<lparr>ll_level = Warn, ll_msg = ''retrying on alt backend'',
      ll_attrs = [(''request_id'', LStr rid), (''decision'', LStr ''route''), (''reason'', LStr ''retry''),
                  (''route'', LStr (re_prefix route)), (''prev_upstream'', LStr prev),
                  (''upstream'', LStr alt), (''err'', LStr (Error_text err))]\<rparr>"

definition upstream_error_line :: "string \<Rightarrow> routeEntry \<Rightarrow> string \<Rightarrow> go_error \<Rightarrow> log_line" where
  "upstream_error_line rid route upstream_id err =
     \<lparr>ll_level = Error, ll_msg = ''upstream error'',
      ll_attrs = [(''request_id'', LStr rid), (''decision'', LStr ''deny''), (''reason'', LStr ''upstream_error''),
                  (''route'', LStr (re_prefix route)), (''upstream'', LStr upstream_id),
                  (''err'', LStr (Error_text err))]\<rparr>"

definition forwarded_line :: "string \<Rightarrow> routeEntry \<Rightarrow> string \<Rightarrow> string \<Rightarrow> string \<Rightarrow> int \<Rightarrow> log_line" where
  "forwarded_line rid route upstream_id subject jti code =
     \<lparr>ll_level = Info, ll_msg = ''request forwarded'',
      ll_attrs = [(''request_id'', LStr rid), (''decision'', LStr ''allow''), (''reason'', LStr ''ok''),
                  (''route'', LStr (re_prefix route)), (''target_service'', LStr (re_service route)),
                  (''upstream'', LStr upstream_id), (''sub'', LStr subject), (''jti'', LStr jti),
                  (''code'', LInt code)]\<rparr>"

section \<open>The handler\<close>

text \<open>
  Lines 112-123: the first attempt and, when it failed at the transport and another backend
  is drawn, the second, with the body as the first attempt left it.
\<close>

definition forward_with_retry ::
  "('pool, 'cert) serve_env \<Rightarrow> ('pool, 'cert) Handler \<Rightarrow> http_Request \<Rightarrow> response_writer
   \<Rightarrow> routeEntry \<Rightarrow> Pool \<Rightarrow> nat \<Rightarrow> string \<Rightarrow> string \<Rightarrow> forwarded \<times> (string \<times> out_Request) list" where
  "forward_with_retry env h r w route pool i rid subject =
     (let f = forward (e_first env) h r w route pool i rid subject;
          sent = map (Pair (f_id f)) (f_sent f)
      in case f_err f of
           None \<Rightarrow> (f, sent)
         | Some err \<Rightarrow>
             if \<not> isRetryable (Some err) then (f, sent)
             else (case Pick (f_pool f) (fst (e_pick' env)) (snd (e_pick' env)) of
                     None \<Rightarrow> (f, sent)
                   | Some alt \<Rightarrow>
                       let alt_id = ID (backends (f_pool f) ! alt) in
                       if alt_id = f_id f then (f, sent)
                       else (let f' = forward (e_retry env) h (r\<lparr>rq_Body := f_body f\<rparr>) (f_w f) route
                                        (f_pool f) alt rid subject
                             in (f'\<lparr>f_events := f_events f @ Log (retry_line rid route (f_id f) alt_id err) # f_events f'\<rparr>,
                                 sent @ map (Pair (f_id f')) (f_sent f')))))"

text \<open>Lines 99-138: an admitted request.\<close>

definition route_admitted ::
  "('pool, 'cert) serve_env \<Rightarrow> ('pool, 'cert) Handler \<Rightarrow> 's gw_state \<Rightarrow> response_writer \<Rightarrow> http_Request
   \<Rightarrow> routeEntry \<Rightarrow> string \<Rightarrow> string \<Rightarrow> Claims \<Rightarrow> 's served" where
  "route_admitted env h st w r route rid subject claims =
     (let res = \<lparr>sv_w = w, sv_state = st, sv_events = [], sv_sent = [], sv_panic = False\<rparr> in
      case pools st (re_service route) of
        None \<Rightarrow> res\<lparr>sv_panic := True\<rparr>
      | Some pool \<Rightarrow>
      (case Pick pool (fst (e_pick env)) (snd (e_pick env)) of
         None \<Rightarrow>
           res\<lparr>sv_w := http_Error w ''no healthy backend'' ServiceUnavailable,
               sv_events := [Metric (RequestsTotal_Inc (re_prefix route) ''deny'' ''no_healthy_backend''),
                             Log (no_backend_line rid route subject)]\<rparr>
       | Some i \<Rightarrow>
           (let (f, sent) = forward_with_retry env h r w route pool i rid subject;
                res = res\<lparr>sv_w := f_w f, sv_state := st\<lparr>pools := (pools st)(re_service route \<mapsto> f_pool f)\<rparr>,
                          sv_events := f_events f, sv_sent := sent\<rparr>
            in if f_panic f then res\<lparr>sv_panic := True\<rparr>
               else case f_err f of
                 Some err \<Rightarrow>
                   res\<lparr>sv_w := http_Error (f_w f) ''bad gateway'' BadGateway,
                       sv_events := f_events f
                         @ [Metric (RequestsTotal_Inc (re_prefix route) ''deny'' ''upstream_error''),
                            Log (upstream_error_line rid route (f_id f) err)]\<rparr>
               | None \<Rightarrow>
                   res\<lparr>sv_events := f_events f
                         @ [Metric (RequestsTotal_Inc (re_prefix route) ''allow'' ''ok''),
                            Log (forwarded_line rid route (f_id f) subject (Jti claims) (f_code f))]\<rparr>)))"

definition ServeHTTP ::
  "auth_lib \<Rightarrow> 's nonce_op \<Rightarrow> ('pool, 'cert) serve_env \<Rightarrow> ('pool, 'cert) Handler \<Rightarrow> 's gw_state
   \<Rightarrow> response_writer \<Rightarrow> http_Request \<Rightarrow> 's served" where
  "ServeHTTP lib cas env h st w r =
     (let rid = newRequestID (e_random env);
          w = w_Set w ''X-Request-Id'' rid;
          deny = (\<lambda>st (w, ev). \<lparr>sv_w = w, sv_state = st, sv_events = ev, sv_sent = [], sv_panic = False\<rparr>)
      in case match_route (routes h) (rq_Path r) of
           None \<Rightarrow> deny st (http_Error w ''no route'' NotFound,
                     [Metric (RequestsTotal_Inc ''none'' ''deny'' ''no_route''), Log (no_route_line rid r)])
         | Some route \<Rightarrow>
      (let tok = extractBearer (rq_Header r) in
       if tok = '''' then deny st (denyAuth w rid route '''' '''' ReasonNoToken)
       else
      (let ((claims, subject, aerr), nst) = Verify lib cas (e_now env) (e_now' env) (h_verifier h) (nonces st) tok;
           st = st\<lparr>nonces := nst\<rparr>
       in case aerr of
            Some err \<Rightarrow>
              (let kid = (case claims of None \<Rightarrow> ''unknown'' | Some c \<Rightarrow> Sub c)
               in deny st (denyAuth w rid route subject kid (Reason err)))
          | None \<Rightarrow>
              (case claims of
                 None \<Rightarrow> \<lparr>sv_w = w, sv_state = st, sv_events = [], sv_sent = [], sv_panic = True\<rparr>
               | Some c \<Rightarrow>
                   if \<not> HasScope c (requiredScope route)
                   then deny st (denyAuth w rid route subject (Jti c) ReasonMissingScope)
                   else route_admitted env h st w r route rid subject c))))"

section \<open>Copied headers\<close>

lemma values_add_values:
  "header_values (add_values dst k vs) k' =
     header_values dst k' @ (if k' = CanonicalHeaderKey k then vs else [])"
  by (induction dst k vs rule: add_values.induct) (auto simp: header_op_values)

text \<open>The values a source contributes to a key: those of its end-to-end fields with that canonical name.\<close>

definition contributes :: "string \<Rightarrow> string \<times> string list \<Rightarrow> bool" where
  "contributes k kv \<longleftrightarrow> CanonicalHeaderKey (fst kv) = k \<and> strings_ToLower (fst kv) \<notin> set hop_by_hop"

lemma values_copyHeaders:
  "header_values (copyHeaders src dst) k =
     header_values dst k @ concat (map snd (filter (contributes k) src))"
  by (induction src dst rule: copyHeaders.induct) (auto simp: values_add_values contributes_def)

lemma keys_add_values: "fst ` set (add_values dst k vs) \<subseteq> insert (CanonicalHeaderKey k) (fst ` set dst)"
  by (induction dst k vs rule: add_values.induct) (auto simp: keys_header_ops)

lemma keys_copyHeaders:
  "k \<in> fst ` set (copyHeaders src dst) \<Longrightarrow>
   k \<in> fst ` set dst \<or> (\<exists>k'. k = CanonicalHeaderKey k' \<and> strings_ToLower k' \<notin> set hop_by_hop)"
proof (induction src dst rule: copyHeaders.induct)
  case (2 k' vs src dst)
  show ?case
  proof (cases "strings_ToLower k' \<in> set hop_by_hop")
    case True
    with 2 show ?thesis by simp
  next
    case False
    with 2 keys_add_values [of dst k' vs] show ?thesis by auto
  qed
qed simp

lemma wf_add_values: "wf_header dst \<Longrightarrow> wf_header (add_values dst k vs)"
  by (induction dst k vs rule: add_values.induct) simp_all

lemma wf_copyHeaders: "wf_header dst \<Longrightarrow> wf_header (copyHeaders src dst)"
  by (induction src dst rule: copyHeaders.induct) (simp_all add: wf_add_values)

lemma canonical_names:
  "CanonicalHeaderKey ''Authorization'' = ''Authorization''"
  "CanonicalHeaderKey ''X-Forwarded-Sub'' = ''X-Forwarded-Sub''"
  "CanonicalHeaderKey ''X-Request-Id'' = ''X-Request-Id''"
  "CanonicalHeaderKey ''X-Upstream'' = ''X-Upstream''"
  by code_simp+

lemma canonical_of_lower:
  "strings_ToLower k = ''authorization'' \<Longrightarrow> CanonicalHeaderKey k = ''Authorization''"
  "strings_ToLower k = ''x-forwarded-sub'' \<Longrightarrow> CanonicalHeaderKey k = ''X-Forwarded-Sub''"
  "strings_ToLower k = ''x-request-id'' \<Longrightarrow> CanonicalHeaderKey k = ''X-Request-Id''"
proof -
  have v: "list_all valid_field_byte ''Authorization''" "list_all valid_field_byte ''X-Forwarded-Sub''"
    "list_all valid_field_byte ''X-Request-Id''" by code_simp+
  have l: "strings_ToLower ''Authorization'' = ''authorization''"
    "strings_ToLower ''X-Forwarded-Sub'' = ''x-forwarded-sub''"
    "strings_ToLower ''X-Request-Id'' = ''x-request-id''" by code_simp+
  show "strings_ToLower k = ''authorization'' \<Longrightarrow> CanonicalHeaderKey k = ''Authorization''"
    "strings_ToLower k = ''x-forwarded-sub'' \<Longrightarrow> CanonicalHeaderKey k = ''X-Forwarded-Sub''"
    "strings_ToLower k = ''x-request-id'' \<Longrightarrow> CanonicalHeaderKey k = ''X-Request-Id''"
    using Canonical_case_insensitive [OF _ v(1)] Canonical_case_insensitive [OF _ v(2)]
      Canonical_case_insensitive [OF _ v(3)]
    by (simp_all only: l canonical_names)
qed

lemma values_out_headers:
  "header_values (out_headers hdr subject rid) k =
     (if k = ''X-Request-Id'' then [rid] else if k = ''X-Forwarded-Sub'' then [subject]
      else if k = ''Authorization'' then [] else concat (map snd (filter (contributes k) hdr)))"
  by (simp add: out_headers_def Let_def header_op_values canonical_names values_copyHeaders)
     (simp add: header_values_def)

lemma keys_out_headers:
  assumes "k \<in> fst ` set (out_headers hdr subject rid)"
  shows "k \<noteq> ''Authorization''" and "CanonicalHeaderKey k = k" and "strings_ToLower k \<notin> set hop_by_hop"
proof -
  have xs: "CanonicalHeaderKey x = x \<and> strings_ToLower x \<notin> set hop_by_hop \<and> x \<noteq> ''Authorization''"
    if "x = ''X-Forwarded-Sub'' \<or> x = ''X-Request-Id''" for x
    using that by (elim disjE; hypsubst; code_simp)
  have copied: "CanonicalHeaderKey k = k \<and> strings_ToLower k \<notin> set hop_by_hop"
    if "k \<in> fst ` set (copyHeaders hdr [])"
    using keys_copyHeaders [OF that] by auto
  have "k = ''X-Forwarded-Sub'' \<or> k = ''X-Request-Id''
      \<or> k \<noteq> ''Authorization'' \<and> k \<in> fst ` set (copyHeaders hdr [])"
    using assms by (auto simp: out_headers_def Let_def keys_header_ops keys_header_Del canonical_names)
  then have "CanonicalHeaderKey k = k \<and> strings_ToLower k \<notin> set hop_by_hop \<and> k \<noteq> ''Authorization''"
    using copied xs [of k] by blast
  then show "k \<noteq> ''Authorization''" "CanonicalHeaderKey k = k" "strings_ToLower k \<notin> set hop_by_hop" by simp_all
qed

section \<open>The cases of an attempt\<close>

definition out_request :: "http_Request \<Rightarrow> routeEntry \<Rightarrow> Backend \<Rightarrow> string \<Rightarrow> string \<Rightarrow> out_Request" where
  "out_request r route b rid subject =
     \<lparr>o_Method = rq_Method r, o_URL = forward_target b route r,
      o_Header = out_headers (rq_Header r) subject rid, o_Body = rq_Body r\<rparr>"

text \<open>The pool after an upstream call: the load figures of one backend have moved.\<close>

definition pool_after :: "('pool, 'cert) attempt_env \<Rightarrow> nat \<Rightarrow> Pool \<Rightarrow> Pool" where
  "pool_after env i pool =
     on_backend Release i (ae_world' env
       (on_backend (\<lambda>b. RecordLatency b (time_Sub (ae_done env) (ae_start env))) i
         (ae_world env (on_backend Acquire i pool))))"

definition observed :: "('pool, 'cert) attempt_env \<Rightarrow> routeEntry \<Rightarrow> string \<Rightarrow> int \<Rightarrow> event list" where
  "observed env route bid code =
     map Metric (Observe (re_service route) bid code (ae_start env) (ae_observed env))"

lemma forward_cases:
  fixes env :: "('pool, 'cert) attempt_env"
  assumes "f = forward env h r w route pool i rid subject" and "b = backends pool ! i"
  obtains
    (unsendable) err where "ae_newreq env (rq_Method r) (forward_target b route r) = Some err"
      "f = \<lparr>f_code = 0, f_id = ID b, f_err = Some err, f_panic = False, f_w = w,
            f_pool = on_backend Release i (on_backend Acquire i pool), f_body = rq_Body r, f_events = [], f_sent = []\<rparr>"
  | (no_client) "clients h (re_service route) = None"
      "f = \<lparr>f_code = 0, f_id = ID b, f_err = None, f_panic = True, f_w = w,
            f_pool = on_backend Release i (on_backend Acquire i pool), f_body = rq_Body r, f_events = [], f_sent = []\<rparr>"
  | (transport) client err where "clients h (re_service route) = Some client"
      "ae_Do env client (out_request r route b rid subject) = Transport err"
      "f = \<lparr>f_code = 0, f_id = ID b, f_err = Some err, f_panic = False, f_w = w,
            f_pool = pool_after env i pool, f_body = close_body (rq_Body r),
            f_events = observed env route (ID b) 0, f_sent = [out_request r route b rid subject]\<rparr>"
  | (answer) client code hdr bs where "clients h (re_service route) = Some client"
      "ae_Do env client (out_request r route b rid subject) = Answer code hdr bs"
      "f = \<lparr>f_code = code, f_id = ID b, f_err = None, f_panic = fst (relay w (ID b) code hdr bs),
            f_w = snd (relay w (ID b) code hdr bs),
            f_pool = pool_after env i pool, f_body = close_body (rq_Body r),
            f_events = observed env route (ID b) code, f_sent = [out_request r route b rid subject]\<rparr>"
proof (cases "ae_newreq env (rq_Method r) (forward_target b route r)")
  case (Some err)
  then show ?thesis
    using assms by (intro unsendable) (simp_all add: forward_def Let_def)
next
  case None
  note n = None
  show ?thesis
  proof (cases "clients h (re_service route)")
    case None
    then show ?thesis
      using assms n by (intro no_client) (simp_all add: forward_def Let_def)
  next
    case (Some client)
    show ?thesis
    proof (cases "ae_Do env client (out_request r route b rid subject)")
      case (Transport err)
      then show ?thesis
        using assms n Some
        by (intro transport) (simp_all add: forward_def Let_def out_request_def pool_after_def observed_def)
    next
      case (Answer code hdr bs)
      then show ?thesis
        using assms n Some
        by (intro answer) (simp_all add: forward_def Let_def out_request_def pool_after_def observed_def split_beta)
    qed
  qed
qed

lemma forward_with_retry_cases:
  fixes env :: "('pool, 'cert) serve_env"
  assumes "forward_with_retry env h r w route pool i rid subject = (f, sent)"
    and "f1 = forward (e_first env) h r w route pool i rid subject"
  obtains (once) "f = f1" "sent = map (Pair (f_id f1)) (f_sent f1)"
  | (twice) err alt f2 where "f_err f1 = Some err" "isRetryable (Some err)"
      "Pick (f_pool f1) (fst (e_pick' env)) (snd (e_pick' env)) = Some alt"
      "ID (backends (f_pool f1) ! alt) \<noteq> f_id f1"
      "f2 = forward (e_retry env) h (r\<lparr>rq_Body := f_body f1\<rparr>) (f_w f1) route (f_pool f1) alt rid subject"
      "f = f2\<lparr>f_events := f_events f1 @ Log (retry_line rid route (f_id f1)
             (ID (backends (f_pool f1) ! alt)) err) # f_events f2\<rparr>"
      "sent = map (Pair (f_id f1)) (f_sent f1) @ map (Pair (f_id f2)) (f_sent f2)"
proof -
  let ?sent = "map (Pair (f_id f1)) (f_sent f1)"
  note D = assms(1) [unfolded forward_with_retry_def Let_def, folded assms(2)]
  have stop: thesis if "(f1, ?sent) = (f, sent)" by (rule once) (use that in auto)
  show thesis
  proof (cases "f_err f1")
    case None
    then show thesis using D by (intro stop) auto
  next
    case e: (Some err)
    show thesis
    proof (cases "Pick (f_pool f1) (fst (e_pick' env)) (snd (e_pick' env))")
      case None
      then show thesis using D e by (intro stop) (auto split: if_splits)
    next
      case p: (Some alt)
      show thesis
      proof (cases "isRetryable (Some err) \<and> ID (backends (f_pool f1) ! alt) \<noteq> f_id f1")
        case True
        then show thesis using D e p by (intro twice [of err alt]) auto
      next
        case False
        then show thesis using D e p by (intro stop) (auto split: if_splits)
      qed
    qed
  qed
qed

text \<open>What every attempt leaves behind, by whichever case it ends.\<close>

lemma forward_outcome:
  assumes "f = forward env h r w route pool i rid subject" and "b = backends pool ! i"
  shows "f_id f = ID b \<and> set (f_sent f) \<subseteq> {out_request r route b rid subject} \<and> length (f_sent f) \<le> 1
    \<and> (f_err f \<noteq> None \<longrightarrow> f_w f = w \<and> f_code f = 0 \<and> \<not> f_panic f)
    \<and> event_logs (f_events f) = []
    \<and> (f_body f = rq_Body r \<or> f_body f = close_body (rq_Body r) \<and> f_sent f \<noteq> [])"
  by (cases rule: forward_cases [OF assms]) (simp_all add: observed_def)

lemma forward_facts:
  assumes "f = forward env h r w route pool i rid subject" and "b = backends pool ! i"
  shows "f_id f = ID b"
    and "req \<in> set (f_sent f) \<Longrightarrow> req = out_request r route b rid subject"
    and "length (f_sent f) \<le> 1"
    and "f_err f \<noteq> None \<Longrightarrow> f_w f = w \<and> f_code f = 0 \<and> \<not> f_panic f"
    and "event_logs (f_events f) = []"
    and "f_body f = rq_Body r \<or> f_body f = close_body (rq_Body r) \<and> f_sent f \<noteq> []"
  using forward_outcome [OF assms] by auto

lemma forward_metrics:
  assumes "f = forward env h r w route pool i rid subject"
  shows "RequestsTotal_Inc p d x \<notin> set (event_metrics (f_events f))"
  by (cases rule: forward_cases [OF assms refl]) (simp_all add: observed_def Observe_def)

section \<open>The cases of a request\<close>

definition request_id :: "('pool, 'cert) serve_env \<Rightarrow> string" where
  "request_id env = newRequestID (e_random env)"

definition identified :: "('pool, 'cert) serve_env \<Rightarrow> response_writer \<Rightarrow> response_writer" where
  "identified env w = w_Set w ''X-Request-Id'' (request_id env)"

text \<open>
  A request is authenticated for a client key and claims when its bearer token is authentic
  and acceptable and its nonce is taken as new; it is admitted on a route when the route is
  the first one that matches and the claims carry the scope of the route.
\<close>

definition authenticated ::
  "auth_lib \<Rightarrow> 's nonce_op \<Rightarrow> ('pool, 'cert) serve_env \<Rightarrow> ('pool, 'cert) Handler \<Rightarrow> 's \<Rightarrow> http_Request
   \<Rightarrow> registeredKey \<Rightarrow> Claims \<Rightarrow> 's \<Rightarrow> bool" where
  "authenticated lib cas env h nst r key c nst' \<longleftrightarrow>
     extractBearer (rq_Header r) \<noteq> ''''
     \<and> authentic lib (h_verifier h) (extractBearer (rq_Header r)) key c
     \<and> acceptable (e_now env) (h_verifier h) c
     \<and> cas (e_now' env) nst (Jti c) (time_Unix (Exp c)) = (True, nst')"

definition admitted ::
  "auth_lib \<Rightarrow> 's nonce_op \<Rightarrow> ('pool, 'cert) serve_env \<Rightarrow> ('pool, 'cert) Handler \<Rightarrow> 's \<Rightarrow> http_Request
   \<Rightarrow> routeEntry \<Rightarrow> registeredKey \<Rightarrow> Claims \<Rightarrow> 's \<Rightarrow> bool" where
  "admitted lib cas env h nst r route key c nst' \<longleftrightarrow>
     match_route (routes h) (rq_Path r) = Some route
     \<and> authenticated lib cas env h nst r key c nst' \<and> HasScope c (requiredScope route)"

lemma authenticated_unique:
  "authenticated lib cas env h nst r key c nst' \<Longrightarrow> authenticated lib cas env h nst r key' c' nst'' \<Longrightarrow>
   key' = key \<and> c' = c \<and> nst'' = nst'"
  by (auto simp: authenticated_def dest: authentic_unique)

definition denied :: "'s gw_state \<Rightarrow> response_writer \<times> event list \<Rightarrow> 's served" where
  "denied st d = \<lparr>sv_w = fst d, sv_state = st, sv_events = snd d, sv_sent = [], sv_panic = False\<rparr>"

lemma ServeHTTP_cases:
  fixes env :: "('pool, 'cert) serve_env" and cas :: "'s nonce_op"
  obtains
    (no_route) "match_route (routes h) (rq_Path r) = None"
      "ServeHTTP lib cas env h st w r = denied st (http_Error (identified env w) ''no route'' NotFound,
         [Metric (RequestsTotal_Inc ''none'' ''deny'' ''no_route''), Log (no_route_line (request_id env) r)])"
  | (no_token) route where "match_route (routes h) (rq_Path r) = Some route" "extractBearer (rq_Header r) = ''''"
      "ServeHTTP lib cas env h st w r =
         denied st (denyAuth (identified env w) (request_id env) route '''' '''' ReasonNoToken)"
  | (bad_token) route reason nst' where "match_route (routes h) (rq_Path r) = Some route"
      "extractBearer (rq_Header r) \<noteq> ''''" "reason \<in> insert ReasonReplay token_reasons"
      "reason \<in> token_reasons \<Longrightarrow> nst' = nonces st"
      "\<And>key c nst''. \<not> authenticated lib cas env h (nonces st) r key c nst''"
      "ServeHTTP lib cas env h st w r =
         denied (st\<lparr>nonces := nst'\<rparr>) (denyAuth (identified env w) (request_id env) route '''' ''unknown'' reason)"
  | (no_scope) route key c nst' where "match_route (routes h) (rq_Path r) = Some route"
      "authenticated lib cas env h (nonces st) r key c nst'" "\<not> HasScope c (requiredScope route)"
      "ServeHTTP lib cas env h st w r =
         denied (st\<lparr>nonces := nst'\<rparr>)
           (denyAuth (identified env w) (request_id env) route (sub key) (Jti c) ReasonMissingScope)"
  | (admit) route key c nst' where "admitted lib cas env h (nonces st) r route key c nst'"
      "ServeHTTP lib cas env h st w r =
         route_admitted env h (st\<lparr>nonces := nst'\<rparr>) (identified env w) r route (request_id env) (sub key) c"
proof (cases "match_route (routes h) (rq_Path r)")
  case None
  then show ?thesis
    by (rule no_route) (simp add: None ServeHTTP_def Let_def denied_def request_id_def identified_def)
next
  case (Some route)
  note rt = Some
  let ?tok = "extractBearer (rq_Header r)"
  show ?thesis
  proof (cases "?tok = ''''")
    case True
    with rt show ?thesis
      by (rule no_token)
         (simp add: rt True ServeHTTP_def Let_def denied_def request_id_def identified_def split_beta)
  next
    case tok: False
    note defs = ServeHTTP_def Let_def denied_def request_id_def identified_def split_beta
    show ?thesis
    proof (cases rule: Verify_cases [of lib cas "e_now env" "e_now' env" "h_verifier h" "nonces st" ?tok])
      case (rejected reason e)
      from rt tok show ?thesis
        by (rule bad_token [of route reason "nonces st"])
           (use rt tok rejected in \<open>auto simp: defs reject_def newErr_def authenticated_def\<close>)
    next
      case (replayed key c nst')
      from rt tok show ?thesis
        by (rule bad_token [of route ReasonReplay nst'])
           (use rt tok replayed in \<open>auto simp: defs reject_def newErr_def authenticated_def dest: authentic_unique\<close>)
    next
      case (accepted key c nst')
      show ?thesis
      proof (cases "HasScope c (requiredScope route)")
        case True
        show ?thesis
          by (rule admit [of route key c nst'])
             (use rt tok accepted True in \<open>simp_all add: defs admitted_def authenticated_def\<close>)
      next
        case False
        show ?thesis
          by (rule no_scope [of route key c nst'])
             (use rt tok accepted False in \<open>simp_all add: defs authenticated_def\<close>)
      qed
    qed
  qed
qed

lemma route_admitted_cases:
  fixes env :: "('pool, 'cert) serve_env" and st :: "'s gw_state"
  obtains
    (no_pool) "pools st (re_service route) = None"
      "route_admitted env h st w r route rid subject c =
         \<lparr>sv_w = w, sv_state = st, sv_events = [], sv_sent = [], sv_panic = True\<rparr>"
  | (no_backend) pool where "pools st (re_service route) = Some pool" "Healthy pool = []"
      "route_admitted env h st w r route rid subject c =
         denied st (http_Error w ''no healthy backend'' ServiceUnavailable,
           [Metric (RequestsTotal_Inc (re_prefix route) ''deny'' ''no_healthy_backend''),
            Log (no_backend_line rid route subject)])"
  | (panicked) pool i f sent where "pools st (re_service route) = Some pool"
      "Pick pool (fst (e_pick env)) (snd (e_pick env)) = Some i"
      "forward_with_retry env h r w route pool i rid subject = (f, sent)" "f_panic f"
      "route_admitted env h st w r route rid subject c =
         \<lparr>sv_w = f_w f, sv_state = st\<lparr>pools := (pools st)(re_service route \<mapsto> f_pool f)\<rparr>,
          sv_events = f_events f, sv_sent = sent, sv_panic = True\<rparr>"
  | (failed) pool i f sent err where "pools st (re_service route) = Some pool"
      "Pick pool (fst (e_pick env)) (snd (e_pick env)) = Some i"
      "forward_with_retry env h r w route pool i rid subject = (f, sent)" "\<not> f_panic f" "f_err f = Some err"
      "route_admitted env h st w r route rid subject c =
         \<lparr>sv_w = http_Error (f_w f) ''bad gateway'' BadGateway,
          sv_state = st\<lparr>pools := (pools st)(re_service route \<mapsto> f_pool f)\<rparr>,
          sv_events = f_events f @ [Metric (RequestsTotal_Inc (re_prefix route) ''deny'' ''upstream_error''),
            Log (upstream_error_line rid route (f_id f) err)],
          sv_sent = sent, sv_panic = False\<rparr>"
  | (allowed) pool i f sent where "pools st (re_service route) = Some pool"
      "Pick pool (fst (e_pick env)) (snd (e_pick env)) = Some i"
      "forward_with_retry env h r w route pool i rid subject = (f, sent)" "\<not> f_panic f" "f_err f = None"
      "route_admitted env h st w r route rid subject c =
         \<lparr>sv_w = f_w f, sv_state = st\<lparr>pools := (pools st)(re_service route \<mapsto> f_pool f)\<rparr>,
          sv_events = f_events f @ [Metric (RequestsTotal_Inc (re_prefix route) ''allow'' ''ok''),
            Log (forwarded_line rid route (f_id f) subject (Jti c) (f_code f))],
          sv_sent = sent, sv_panic = False\<rparr>"
proof (cases "pools st (re_service route)")
  case None
  then show ?thesis by (rule no_pool) (simp add: None route_admitted_def)
next
  case (Some pool)
  note p = Some
  show ?thesis
  proof (cases "Pick pool (fst (e_pick env)) (snd (e_pick env))")
    case None
    then have "Healthy pool = []" using Pick_None_iff by blast
    from p this show ?thesis by (rule no_backend) (simp add: p None route_admitted_def denied_def)
  next
    case i: (Some i)
    obtain f sent where f: "forward_with_retry env h r w route pool i rid subject = (f, sent)"
      by (cases "forward_with_retry env h r w route pool i rid subject")
    show ?thesis
    proof (cases "f_panic f")
      case True
      with p i f show ?thesis by (rule panicked) (simp add: route_admitted_def p i f True)
    next
      case np: False
      show ?thesis
      proof (cases "f_err f")
        case None
        with p i f np show ?thesis by (rule allowed) (simp add: route_admitted_def p i f np None)
      next
        case (Some err)
        with p i f np show ?thesis by (rule failed) (simp add: route_admitted_def p i f np Some)
      qed
    qed
  qed
qed

section \<open>Both attempts together\<close>

text \<open>Other goroutines run pool operations, which never rename or move a backend.\<close>

definition same_backends :: "Pool \<Rightarrow> Pool \<Rightarrow> bool" where
  "same_backends p q \<longleftrightarrow> map ID (backends p) = map ID (backends q) \<and> map Addr (backends p) = map Addr (backends q)"

definition world_ok :: "('pool, 'cert) attempt_env \<Rightarrow> bool" where
  "world_ok env \<longleftrightarrow> (\<forall>p. same_backends (ae_world env p) p \<and> same_backends (ae_world' env p) p)"

lemma same_backends_traffic: "traffic_op f \<Longrightarrow> same_backends (on_backend f i p) q = same_backends p q"
  by (simp add: same_backends_def traffic_op.keeps_IDs traffic_op.keeps_Addrs)

lemma same_backends_trans: "same_backends p q \<Longrightarrow> same_backends q s \<Longrightarrow> same_backends p s"
  by (simp add: same_backends_def)

lemma same_backends_nth:
  assumes "same_backends p q" and "i < length (backends p)"
  shows "i < length (backends q)" "ID (backends p ! i) = ID (backends q ! i)" "Addr (backends p ! i) = Addr (backends q ! i)"
proof -
  have l: "length (backends p) = length (backends q)"
    using assms(1) unfolding same_backends_def by (metis length_map)
  with assms show "i < length (backends q)" by simp
  with assms l show "ID (backends p ! i) = ID (backends q ! i)" "Addr (backends p ! i) = Addr (backends q ! i)"
    unfolding same_backends_def by (metis nth_map)+
qed

lemma forward_same_backends:
  assumes "f = forward env h r w route pool i rid subject" and "world_ok env"
  shows "same_backends (f_pool f) pool"
proof -
  have "same_backends (on_backend Release i (on_backend Acquire i pool)) pool"
    by (simp add: same_backends_traffic acquire.traffic_op_axioms release.traffic_op_axioms)
       (simp add: same_backends_def)
  moreover have "same_backends (pool_after env i pool) pool"
  proof (rule same_backends_trans)
    define q where "q = on_backend (\<lambda>b. RecordLatency b (time_Sub (ae_done env) (ae_start env))) i
      (ae_world env (on_backend Acquire i pool))"
    have "same_backends (ae_world' env q) q" "same_backends q (on_backend Acquire i pool)"
      using assms(2) by (simp_all add: q_def world_ok_def same_backends_traffic latency.traffic_op_axioms)
    from same_backends_trans [OF this] show "same_backends (pool_after env i pool) (on_backend Acquire i pool)"
      by (simp add: pool_after_def q_def same_backends_traffic release.traffic_op_axioms)
    show "same_backends (on_backend Acquire i pool) pool"
      by (simp add: same_backends_traffic acquire.traffic_op_axioms) (simp add: same_backends_def)
  qed
  ultimately show ?thesis by (cases rule: forward_cases [OF assms(1) refl]) simp_all
qed

lemma retry_same_backends:
  assumes "forward_with_retry env h r w route pool i rid subject = (f, sent)"
    and "world_ok (e_first env)" and "world_ok (e_retry env)"
  shows "same_backends (f_pool f) pool"
proof -
  define f1 where "f1 = forward (e_first env) h r w route pool i rid subject"
  note s1 = forward_same_backends [OF f1_def assms(2)]
  show ?thesis
  proof (cases rule: forward_with_retry_cases [OF assms(1) f1_def, case_names once twice])
    case once
    with s1 show ?thesis by simp
  next
    case (twice err alt f2)
    with same_backends_trans [OF forward_same_backends [OF twice(5) assms(3)] s1] show ?thesis by simp
  qed
qed

text \<open>A request that one of the attempts for \<^verbatim>\<open>r\<close> may send: to a backend of the pool, with rewritten headers.\<close>

definition sent_for :: "Pool \<Rightarrow> http_Request \<Rightarrow> routeEntry \<Rightarrow> string \<Rightarrow> string \<Rightarrow> string \<times> out_Request \<Rightarrow> bool" where
  "sent_for pool r route rid subject s \<longleftrightarrow>
     (\<exists>i < length (backends pool).
        fst s = ID (backends pool ! i)
        \<and> o_URL (snd s) = forward_target (backends pool ! i) route r
        \<and> o_Method (snd s) = rq_Method r
        \<and> o_Header (snd s) = out_headers (rq_Header r) subject rid)"

lemma forward_sent_for:
  assumes "f = forward env h r' w route pool' i rid subject" and "same_backends pool' pool"
    and "i < length (backends pool')" and "r' = r\<lparr>rq_Body := bd\<rparr>" and "req \<in> set (f_sent f)"
  shows "sent_for pool r route rid subject (f_id f, req)"
proof -
  have "req = out_request r' route (backends pool' ! i) rid subject" "f_id f = ID (backends pool' ! i)"
    using forward_facts(1,2) [OF assms(1) refl] assms(5) by auto
  with same_backends_nth [OF assms(2,3)] assms(4) show ?thesis
    by (auto simp: sent_for_def out_request_def forward_target_def Let_def intro!: exI [of _ i])
qed

lemma Pick_bound: "Pick p r1 r2 = Some i \<Longrightarrow> i < length (backends p)"
  using Pick_in_Healthy [of p r1 r2 i] by (simp add: Healthy_set)

text \<open>At most two requests, two lines, no request count of their own, and nothing reaches the client on failure.\<close>

lemma retry_facts:
  assumes "forward_with_retry env h r w route pool i rid subject = (f, sent)"
  shows "length sent \<le> 2"
    and "f_err f \<noteq> None \<Longrightarrow> f_w f = w \<and> \<not> f_panic f"
    and "length (event_logs (f_events f)) \<le> 1"
    and "RequestsTotal_Inc p d x \<notin> set (event_metrics (f_events f))"
proof -
  define f1 where "f1 = forward (e_first env) h r w route pool i rid subject"
  note o1 = forward_outcome [OF f1_def refl] and m1 = forward_metrics [OF f1_def]
  have "length sent \<le> 2 \<and> (f_err f \<noteq> None \<longrightarrow> f_w f = w \<and> \<not> f_panic f) \<and> length (event_logs (f_events f)) \<le> 1
      \<and> RequestsTotal_Inc p d x \<notin> set (event_metrics (f_events f))"
  proof (cases rule: forward_with_retry_cases [OF assms f1_def, case_names once twice])
    case once
    with o1 m1 show ?thesis by auto
  next
    case (twice err alt f2)
    note o2 = forward_outcome [OF twice(5) refl] and m2 = forward_metrics [OF twice(5)]
    have "f_w f1 = w" using o1 twice(1) by simp
    with o1 o2 m1 m2 show ?thesis unfolding twice(6,7) by auto
  qed
  then show "length sent \<le> 2" "f_err f \<noteq> None \<Longrightarrow> f_w f = w \<and> \<not> f_panic f"
    "length (event_logs (f_events f)) \<le> 1" "RequestsTotal_Inc p d x \<notin> set (event_metrics (f_events f))"
    by blast+
qed

lemma retry_sent_for:
  assumes "forward_with_retry env h r w route pool i rid subject = (f, sent)"
    and "i < length (backends pool)" and "world_ok (e_first env)" and "s \<in> set sent"
  shows "sent_for pool r route rid subject s"
proof -
  define f1 where "f1 = forward (e_first env) h r w route pool i rid subject"
  have refl: "same_backends pool pool" by (simp add: same_backends_def)
  have one: "sent_for pool r route rid subject (f_id f1, req)" if "req \<in> set (f_sent f1)" for req
    by (rule forward_sent_for [OF f1_def refl assms(2) _ that, where bd = "rq_Body r"]) simp
  show ?thesis
  proof (cases rule: forward_with_retry_cases [OF assms(1) f1_def, case_names once twice])
    case once
    with one assms(4) show ?thesis by auto
  next
    case (twice err alt f2)
    have "sent_for pool r route rid subject (f_id f2, req)" if "req \<in> set (f_sent f2)" for req
      by (rule forward_sent_for [OF twice(5) forward_same_backends [OF f1_def assms(3)] Pick_bound [OF twice(3)] _ that])
         simp
    with one assms(4) twice(7) show ?thesis by auto
  qed
qed

section \<open>Admission and its consequences\<close>

lemma ServeHTTP_admitted:
  assumes "admitted lib cas env h (nonces st) r route key c nst'"
  shows "ServeHTTP lib cas env h st w r =
    route_admitted env h (st\<lparr>nonces := nst'\<rparr>) (identified env w) r route (request_id env) (sub key) c"
proof (cases rule: ServeHTTP_cases [of h r lib cas env st w])
  case no_token
  with assms show ?thesis by (simp add: admitted_def authenticated_def)
qed (use assms in \<open>auto simp: admitted_def dest: authenticated_unique\<close>)

lemma ServeHTTP_not_admitted:
  assumes "\<And>route key c nst'. \<not> admitted lib cas env h (nonces st) r route key c nst'"
  shows "\<exists>nst' d. ServeHTTP lib cas env h st w r = denied (st\<lparr>nonces := nst'\<rparr>) d"
proof (cases rule: ServeHTTP_cases [of h r lib cas env st w])
  case no_route
  then show ?thesis by (intro exI [of _ "nonces st"] exI) simp
next
  case (no_token route)
  then show ?thesis by (intro exI [of _ "nonces st"] exI) simp
qed (use assms in \<open>blast+\<close>)

lemma sv_sent_admitted:
  "sv_sent (route_admitted env h st w r route rid subject c) =
     (case pools st (re_service route) of None \<Rightarrow> []
      | Some pool \<Rightarrow> (case Pick pool (fst (e_pick env)) (snd (e_pick env)) of None \<Rightarrow> []
      | Some i \<Rightarrow> snd (forward_with_retry env h r w route pool i rid subject)))"
  by (cases rule: route_admitted_cases [of st route env h w r rid subject c])
     (simp_all add: denied_def Pick_def)

end
