(* ===== verification/Request_Path.thy ===== *)
theory Request_Path
  imports Handler "HOL-Library.Multiset"
begin

text \<open>
  The properties of the request path of \<^verbatim>\<open>internal/proxy/handler.go\<close>: what reaches a backend,
  what the client is answered, what is reported, and the retry.  They hold for every network,
  clock, random source and interference of other requests; the exceptions name what they
  assume.
\<close>

section \<open>A worked example\<close>

text \<open>
  One route with two backends, the first of which refuses connections, and a request whose
  client sends the token of the authentication example and two headers it should not.
\<close>

definition demo_route :: routeEntry where
  "demo_route = \<lparr>re_prefix = ''/v1/llm'', re_service = ''llm'', requiredScope = ''llm:invoke''\<rparr>"

definition demo_client :: "(nat, nat) http_Client" where
  "demo_client = NewBackendClient
     \<lparr>MinVersion = VersionTLS12, RootCAs = 0, Certificates = [0], ServerName = ''llm''\<rparr>"

definition demo_handler :: "(nat, nat) Handler" where
  "demo_handler = \<lparr>routes = [demo_route], h_verifier = demo_verifier, clients = [''llm'' \<mapsto> demo_client]\<rparr>"

definition demo_llm :: Pool where
  "demo_llm = NewPool ''llm'' [\<lparr>cb_ID = ''llm-1'', cb_Addr = ''https://llm-1:9001''\<rparr>,
     \<lparr>cb_ID = ''llm-2'', cb_Addr = ''https://llm-2:9002''\<rparr>]"

definition demo_gw :: "nonceCache gw_state" where
  "demo_gw = \<lparr>pools = [''llm'' \<mapsto> demo_llm], nonces = demo_store\<rparr>"

definition demo_request :: http_Request where
  "demo_request = \<lparr>rq_Method = ''POST'', rq_Path = ''/v1/llm/chat'', rq_RawQuery = '''',
     rq_Header = [(''Authorization'', [''bearer '' @ demo_token]), (''Connection'', [''close'']),
       (''X-Forwarded-Sub'', [''admin'']), (''Accept'', [''a'', ''b''])],
     rq_Body = Unread ''prompt''\<rparr>"

definition demo_attempt :: "(nat, nat) attempt_env" where
  "demo_attempt = \<lparr>ae_newreq = (\<lambda>_ _. None), ae_start = demo_now, ae_done = demo_now, ae_observed = demo_now,
     ae_Do = (\<lambda>_ req. if strings_HasPrefix (o_URL req) ''https://llm-1:9001''
        then Transport \<lparr>Error_text = ''refused'', is_Canceled = False, is_DeadlineExceeded = False\<rparr>
        else Answer 200 [(''Content-Type'', [''text/plain''])] ''ok''),
     ae_world = (\<lambda>p. p), ae_world' = (\<lambda>p. p)\<rparr>"

definition demo_env :: "(nat, nat) serve_env" where
  "demo_env = \<lparr>e_random = ''01234567'', e_now = demo_now, e_now' = demo_now, e_pick = (0, 0), e_pick' = (3, 0),
     e_first = demo_attempt, e_retry = demo_attempt\<rparr>"

definition demo_served :: "nonceCache served" where
  "demo_served = ServeHTTP demo_lib CheckAndStore demo_env demo_handler demo_gw new_writer demo_request"

definition demo_rid :: string where
  "demo_rid = request_id demo_env"

definition demo_w :: response_writer where
  "demo_w = identified demo_env new_writer"

definition demo_f1 :: forwarded where
  "demo_f1 = forward demo_attempt demo_handler demo_request demo_w demo_route demo_llm 0 demo_rid ''intern''"

definition demo_f2 :: forwarded where
  "demo_f2 = forward demo_attempt demo_handler (demo_request\<lparr>rq_Body := ClosedBody\<rparr>) (f_w demo_f1)
     demo_route (f_pool demo_f1) 1 demo_rid ''intern''"

definition refused :: go_error where
  "refused = \<lparr>Error_text = ''refused'', is_Canceled = False, is_DeadlineExceeded = False\<rparr>"

lemma demo_bearer: "extractBearer (rq_Header demo_request) = demo_token" "demo_token \<noteq> ''''"
  by code_simp (simp add: demo_token_def)

lemma demo_match: "match_route (routes demo_handler) (rq_Path demo_request) = Some demo_route"
  by (simp add: demo_handler_def demo_request_def demo_route_def go_lib)

lemma demo_stored:
  "CheckAndStore demo_now demo_store (Jti demo_claims) (time_Unix (Exp demo_claims)) =
     (True, demo_store\<lparr>items := [''j1'' \<mapsto> time_Unix 1700000300]\<rparr>)"
  by (rule trans [OF CheckAndStore_new])
     (simp_all add: demo_store_def newNonceCache_def time_IsZero_def time_Unix_def unixToInternal_def demo_claims_def)

lemma demo_admitted:
  "admitted demo_lib CheckAndStore demo_env demo_handler (nonces demo_gw) demo_request demo_route demo_key demo_claims
     (demo_store\<lparr>items := [''j1'' \<mapsto> time_Unix 1700000300]\<rparr>)"
proof -
  have "e_now demo_env = demo_now" "e_now' demo_env = demo_now" "nonces demo_gw = demo_store"
    "h_verifier demo_handler = demo_verifier" "HasScope demo_claims (requiredScope demo_route)"
    by (simp_all add: demo_env_def demo_gw_def demo_handler_def HasScope_iff demo_route_def demo_claims_def)
  then show ?thesis
    unfolding admitted_def authenticated_def
    using demo_match demo_authentic demo_acceptable demo_stored demo_bearer by simp
qed

lemma demo_pool: "pools demo_gw (re_service demo_route) = Some demo_llm"
  by (simp add: demo_gw_def demo_route_def)

lemma demo_picks: "Pick demo_llm 0 0 = Some 0" "Pick (f_pool demo_f1) 3 0 = Some 1"
  by code_simp+

lemma demo_f1_err: "f_err demo_f1 = Some refused" "f_body demo_f1 = ClosedBody" "f_id demo_f1 = ''llm-1''"
  by (simp_all add: demo_f1_def forward_def Let_def demo_attempt_def demo_llm_def NewPool_def new_backend_def
      forward_target_def demo_request_def demo_handler_def demo_route_def refused_def go_lib close_body_def)

lemma demo_env_simps:
  "fst (e_pick demo_env) = 0" "snd (e_pick demo_env) = 0" "fst (e_pick' demo_env) = 3" "snd (e_pick' demo_env) = 0"
  "e_first demo_env = demo_attempt" "e_retry demo_env = demo_attempt"
  by (simp_all add: demo_env_def)

lemma demo_lib_facts:
  "ae_newreq demo_attempt m u = None" "clients demo_handler (re_service demo_route) = Some demo_client"
  by (simp_all add: demo_attempt_def demo_handler_def demo_route_def)

lemma demo_world: "world_ok demo_attempt"
  by (simp add: world_ok_def demo_attempt_def same_backends_def)

lemma demo_alt: "ID (backends (f_pool demo_f1) ! 1) = ''llm-2''" "Addr (backends (f_pool demo_f1) ! 1) = ''https://llm-2:9002''"
proof -
  have s: "same_backends (f_pool demo_f1) demo_llm"
    by (rule forward_same_backends [OF demo_f1_def demo_world])
  have "length (backends (f_pool demo_f1)) = length (backends demo_llm)"
    using s unfolding same_backends_def by (metis length_map)
  then have "1 < length (backends (f_pool demo_f1))" by (simp add: demo_llm_def NewPool_def)
  from same_backends_nth [OF s this]
  show "ID (backends (f_pool demo_f1) ! 1) = ''llm-2''" "Addr (backends (f_pool demo_f1) ! 1) = ''https://llm-2:9002''"
    by (simp_all add: demo_llm_def NewPool_def new_backend_def)
qed

lemma demo_forwarded:
  "forward_with_retry demo_env demo_handler demo_request demo_w demo_route demo_llm 0 demo_rid ''intern'' =
     (demo_f2\<lparr>f_events := f_events demo_f1
        @ Log (retry_line demo_rid demo_route ''llm-1'' ''llm-2'' refused) # f_events demo_f2\<rparr>,
      map (Pair ''llm-1'') (f_sent demo_f1) @ map (Pair (f_id demo_f2)) (f_sent demo_f2))"
  by (simp add: forward_with_retry_def Let_def demo_env_simps demo_f1_def [symmetric] demo_f2_def [symmetric]
      demo_f1_err demo_picks demo_alt isRetryable_def refused_def del: One_nat_def)

section \<open>The host of a URL\<close>

text \<open>
  The host a URL with scheme https is dialled at, as \<^verbatim>\<open>net/url\<close> reads it: the authority ends at
  the first \<^verbatim>\<open>/\<close>, \<^verbatim>\<open>?\<close> or \<^verbatim>\<open>#\<close>, and whatever precedes its last \<^verbatim>\<open>@\<close> is user information.
\<close>

definition url_host :: "string \<Rightarrow> string" where
  "url_host url =
     (let authority = takeWhile (\<lambda>c. c \<notin> set ''/?#'') (strings_TrimPrefix url ''https://'')
      in last (strings_Split authority (CHR ''@'')))"

definition plain_host :: "string \<Rightarrow> bool" where
  "plain_host host \<longleftrightarrow> (\<forall>c \<in> set host. c \<notin> set ''/?#@'')"

lemma takeWhile_plain: "plain_host host \<Longrightarrow> takeWhile (\<lambda>c. c \<notin> set ''/?#'') (host @ rest) = host @ takeWhile (\<lambda>c. c \<notin> set ''/?#'') rest"
  by (auto simp: plain_host_def intro: takeWhile_append2)

lemma url_host_plain:
  assumes "plain_host host" and "rest = '''' \<or> hd rest \<in> set ''/?#''"
  shows "url_host (''https://'' @ host @ rest) = host"
proof -
  have "takeWhile (\<lambda>c. c \<notin> set ''/?#'') rest = ''''" using assms(2) by (cases rest) auto
  moreover have "CHR ''@'' \<notin> set host" using assms(1) by (auto simp: plain_host_def)
  ultimately show ?thesis
    using takeWhile_plain [OF assms(1), of rest]
    unfolding url_host_def TrimPrefix_append by (simp add: Split_single)
qed

lemma url_host_userinfo:
  assumes "plain_host host" and "plain_host evil" and "rest = '''' \<or> hd rest \<in> set ''/?#''"
  shows "url_host (''https://'' @ host @ ''@'' @ evil @ rest) = evil"
proof -
  have "takeWhile (\<lambda>c. c \<notin> set ''/?#'') rest = ''''" using assms(3) by (cases rest) auto
  then have "takeWhile (\<lambda>c. c \<notin> set ''/?#'') (host @ ''@'' @ evil @ rest) = host @ CHR ''@'' # evil"
    using takeWhile_plain [OF assms(1), of "''@'' @ evil @ rest"] takeWhile_plain [OF assms(2), of rest] by simp
  moreover have "CHR ''@'' \<notin> set host" "CHR ''@'' \<notin> set evil" using assms(1,2) by (auto simp: plain_host_def)
  ultimately show ?thesis
    unfolding url_host_def TrimPrefix_append by (simp add: Split_append_sep Split_single)
qed

section \<open>What reaches a backend\<close>

lemma sv_sent_admitted_iff:
  "s \<in> set (sv_sent (route_admitted env h st w r route rid subject c)) \<longleftrightarrow>
   (\<exists>pool i. pools st (re_service route) = Some pool
      \<and> Pick pool (fst (e_pick env)) (snd (e_pick env)) = Some i
      \<and> s \<in> set (snd (forward_with_retry env h r w route pool i rid subject)))"
proof (cases "pools st (re_service route)")
  case (Some pool)
  then show ?thesis
    by (cases "Pick pool (fst (e_pick env)) (snd (e_pick env))") (simp_all add: sv_sent_admitted)
qed (simp add: sv_sent_admitted)

lemma forward_sends:
  assumes "f = forward env h r w route pool i rid subject"
    and "ae_newreq env (rq_Method r) (forward_target (backends pool ! i) route r) = None"
    and "clients h (re_service route) = Some client"
  shows "f_sent f = [out_request r route (backends pool ! i) rid subject]"
  using assms(2,3) by (cases rule: forward_cases [OF assms(1) refl]) simp_all

text \<open>
  The URL of a request sent: the address configured for the backend, what follows the route's
  prefix in the path, and the query.
\<close>

lemma sent_for_URL:
  assumes "sent_for pool r route rid subject s" and "rq_Path r = re_prefix route @ rest"
  obtains i where "i < length (backends pool)" "fst s = ID (backends pool ! i)"
    "o_URL (snd s) = Addr (backends pool ! i) @ rest @ (if rq_RawQuery r = '''' then '''' else ''?'' @ rq_RawQuery r)"
    "o_Method (snd s) = rq_Method r" "o_Header (snd s) = out_headers (rq_Header r) subject rid"
  using assms by (auto simp: sent_for_def forward_target_def)

lemma match_route_prefix: "match_route rs path = Some rt \<Longrightarrow> \<exists>rest. path = re_prefix rt @ rest"
  by (induction rs path rule: match_route.induct) (auto simp: HasPrefix_iff_prefix prefix_def split: if_splits)

lemma url_host_configured:
  assumes "plain_host host" and "rest = '''' \<or> hd rest = CHR ''/''"
  shows "url_host ((''https://'' @ host) @ rest @ (if q = '''' then '''' else ''?'' @ q)) = host"
  using url_host_plain [OF assms(1), of "rest @ (if q = '''' then '''' else ''?'' @ q)"] assms(2)
  by (cases rest) auto

lemma sent_admitted_for:
  assumes "s \<in> set (sv_sent (ServeHTTP lib cas env h st w r))" and "world_ok (e_first env)"
  obtains route key c nst' pool where "admitted lib cas env h (nonces st) r route key c nst'"
    "pools st (re_service route) = Some pool" "sent_for pool r route (request_id env) (sub key) s"
proof (cases "\<exists>route key c nst'. admitted lib cas env h (nonces st) r route key c nst'")
  case False
  with ServeHTTP_not_admitted [of lib cas env h st r w] assms(1) show ?thesis by (auto simp: denied_def)
next
  case True
  then obtain route key c nst' where a: "admitted lib cas env h (nonces st) r route key c nst'" by blast
  have "s \<in> set (sv_sent (route_admitted env h (st\<lparr>nonces := nst'\<rparr>) (identified env w) r route
      (request_id env) (sub key) c))"
    using assms(1) by (simp add: ServeHTTP_admitted [OF a])
  then obtain pool i where p: "pools st (re_service route) = Some pool"
    "Pick pool (fst (e_pick env)) (snd (e_pick env)) = Some i"
    "s \<in> set (snd (forward_with_retry env h r (identified env w) route pool i (request_id env) (sub key)))"
    by (auto simp: sv_sent_admitted_iff)
  from retry_sent_for [OF prod.collapse [symmetric] Pick_bound [OF p(2)] assms(2) p(3)] a p(1)
  show ?thesis by (blast intro: that)
qed

text \<open>
  C3: nothing reaches a backend without authentication and authorization.  Every request
  the handler sends, on the first attempt or on the retry, stems from a request whose first
  matching route, bearer token, nonce and scope passed every check.  Its URL is the address
  configured for a backend in the pool of that route's service, followed by what the client's
  path has after the route's prefix and by the client's query; and it carries the subject
  registered with the key.  Where that address is \<^verbatim>\<open>https://\<close> and a plain host, and the path
  leaves the prefix at a segment boundary, the host dialled is the configured one; a path that
  does not is the exception that \<^verbatim>\<open>dialled_host\<close> describes.
\<close>

theorem upstream_only_if_admitted:
  assumes "s \<in> set (sv_sent (ServeHTTP lib cas env h st w r))" and "world_ok (e_first env)"
  shows "\<exists>route key c nst' pool i rest. admitted lib cas env h (nonces st) r route key c nst'
     \<and> pools st (re_service route) = Some pool \<and> i < length (backends pool)
     \<and> rq_Path r = re_prefix route @ rest
     \<and> fst s = ID (backends pool ! i)
     \<and> o_URL (snd s) = Addr (backends pool ! i) @ rest @ (if rq_RawQuery r = '''' then '''' else ''?'' @ rq_RawQuery r)
     \<and> o_Method (snd s) = rq_Method r
     \<and> o_Header (snd s) = out_headers (rq_Header r) (sub key) (request_id env)
     \<and> (\<forall>host. Addr (backends pool ! i) = ''https://'' @ host \<and> plain_host host
          \<and> (rest = '''' \<or> hd rest = CHR ''/'') \<longrightarrow> url_host (o_URL (snd s)) = host)"
proof -
  obtain route key c nst' pool where a: "admitted lib cas env h (nonces st) r route key c nst'"
    and p: "pools st (re_service route) = Some pool" "sent_for pool r route (request_id env) (sub key) s"
    by (rule sent_admitted_for [OF assms])
  obtain rest where rest: "rq_Path r = re_prefix route @ rest"
    using a by (auto simp: admitted_def dest!: match_route_prefix)
  from sent_for_URL [OF p(2) rest] obtain i where i: "i < length (backends pool)" "fst s = ID (backends pool ! i)"
    "o_URL (snd s) = Addr (backends pool ! i) @ rest @ (if rq_RawQuery r = '''' then '''' else ''?'' @ rq_RawQuery r)"
    "o_Method (snd s) = rq_Method r" "o_Header (snd s) = out_headers (rq_Header r) (sub key) (request_id env)" .
  have "url_host (o_URL (snd s)) = host"
    if "Addr (backends pool ! i) = ''https://'' @ host" "plain_host host" "rest = '''' \<or> hd rest = CHR ''/''" for host
    unfolding i(3) that(1) by (rule url_host_configured [OF that(2,3)])
  with a p(1) rest i show ?thesis
    by (intro exI [of _ route] exI [of _ key] exI [of _ c] exI [of _ nst'] exI [of _ pool] exI [of _ i] exI [of _ rest]) blast
qed

theorem upstream_only_if_admitted_witness:
  "\<exists>pool i rest. pools demo_gw (re_service demo_route) = Some pool \<and> i < length (backends pool)
     \<and> o_URL (hd (f_sent demo_f1)) = Addr (backends pool ! i) @ rest"
proof -
  have "f_sent demo_f1 \<noteq> []"
    by (simp add: forward_sends [OF demo_f1_def] demo_lib_facts)
  then have "(''llm-1'', hd (f_sent demo_f1)) \<in>
      set (sv_sent (ServeHTTP demo_lib CheckAndStore demo_env demo_handler demo_gw new_writer demo_request))"
    using demo_pool demo_forwarded
    by (simp add: ServeHTTP_admitted [OF demo_admitted] sv_sent_admitted demo_env_simps demo_picks
        demo_w_def demo_rid_def demo_key_def)
  from upstream_only_if_admitted [OF this] demo_match show ?thesis
    by (auto simp: demo_env_simps demo_world admitted_def)
qed

text \<open>
  C17: the converse.  An admitted request whose service has an mTLS client, for which
  power-of-two-choices picks a backend, and whose method and target on that backend
  \<^verbatim>\<open>http.NewRequest\<close> accepts, is sent at least once, and first to the picked backend.
\<close>

theorem admitted_is_sent:
  assumes "admitted lib cas env h (nonces st) r route key c nst'"
    and "pools st (re_service route) = Some pool"
    and "Pick pool (fst (e_pick env)) (snd (e_pick env)) = Some i"
    and "clients h (re_service route) = Some client"
    and "ae_newreq (e_first env) (rq_Method r) (forward_target (backends pool ! i) route r) = None"
  shows "\<exists>more. sv_sent (ServeHTTP lib cas env h st w r) =
     (ID (backends pool ! i), out_request r route (backends pool ! i) (request_id env) (sub key)) # more"
proof -
  obtain f sent where f: "forward_with_retry env h r (identified env w) route pool i (request_id env) (sub key) = (f, sent)"
    by (cases "forward_with_retry env h r (identified env w) route pool i (request_id env) (sub key)")
  define f1 where "f1 = forward (e_first env) h r (identified env w) route pool i (request_id env) (sub key)"
  have "f_sent f1 = [out_request r route (backends pool ! i) (request_id env) (sub key)]"
    "f_id f1 = ID (backends pool ! i)"
    using forward_sends [OF f1_def _ assms(4)] forward_facts(1) [OF f1_def refl] assms(5) by simp_all
  then have "\<exists>more. sent = (ID (backends pool ! i), out_request r route (backends pool ! i) (request_id env) (sub key)) # more"
    by (cases rule: forward_with_retry_cases [OF f f1_def]) simp_all
  then show ?thesis
    using assms(2,3) f by (simp add: ServeHTTP_admitted [OF assms(1)] sv_sent_admitted)
qed

theorem admitted_is_sent_witness:
  "\<exists>more. sv_sent (ServeHTTP demo_lib CheckAndStore demo_env demo_handler demo_gw new_writer demo_request) =
     (ID (backends demo_llm ! 0), out_request demo_request demo_route (backends demo_llm ! 0)
        (request_id demo_env) (sub demo_key)) # more"
  using admitted_is_sent [OF demo_admitted demo_pool _ demo_lib_facts(2)]
  by (simp add: demo_env_simps demo_picks demo_lib_facts)

text \<open>
  C6: the headers a backend sees.  For every client header, the outgoing identity header is
  exactly the subject the gateway established, whatever the client sent under any spelling of
  its name; the credential and the hop-by-hop fields are gone under every spelling; and every
  other field arrives with the client's values.
\<close>

theorem outgoing_headers:
  "header_values (out_headers hdr subject rid) ''X-Forwarded-Sub'' = [subject]
   \<and> header_values (out_headers hdr subject rid) ''X-Request-Id'' = [rid]
   \<and> (\<forall>k \<in> fst ` set (out_headers hdr subject rid).
        strings_ToLower k \<noteq> ''authorization'' \<and> strings_ToLower k \<notin> set hop_by_hop
        \<and> (strings_ToLower k = ''x-forwarded-sub'' \<longrightarrow> k = ''X-Forwarded-Sub''))
   \<and> (\<forall>k. k \<noteq> ''Authorization'' \<and> k \<noteq> ''X-Forwarded-Sub'' \<and> k \<noteq> ''X-Request-Id'' \<longrightarrow>
        header_values (out_headers hdr subject rid) k =
          concat (map snd (filter (\<lambda>(k', vs). CanonicalHeaderKey k' = k \<and> strings_ToLower k' \<notin> set hop_by_hop) hdr)))"
proof (intro conjI ballI allI impI)
  fix k
  assume k: "k \<in> fst ` set (out_headers hdr subject rid)"
  show "strings_ToLower k \<noteq> ''authorization''"
    using canonical_of_lower(1) [of k] keys_out_headers(1,2) [OF k] by auto
  show "strings_ToLower k \<notin> set hop_by_hop" by (rule keys_out_headers(3) [OF k])
  show "k = ''X-Forwarded-Sub''" if "strings_ToLower k = ''x-forwarded-sub''"
    using canonical_of_lower(2) [OF that] keys_out_headers(2) [OF k] by simp
next
  fix k
  assume "k \<noteq> ''Authorization'' \<and> k \<noteq> ''X-Forwarded-Sub'' \<and> k \<noteq> ''X-Request-Id''"
  moreover have "contributes k = (\<lambda>(k', vs). CanonicalHeaderKey k' = k \<and> strings_ToLower k' \<notin> set hop_by_hop)"
    by (auto simp: contributes_def fun_eq_iff)
  ultimately show "header_values (out_headers hdr subject rid) k =
      concat (map snd (filter (\<lambda>(k', vs). CanonicalHeaderKey k' = k \<and> strings_ToLower k' \<notin> set hop_by_hop) hdr))"
    by (simp add: values_out_headers)
qed (simp_all add: values_out_headers)

theorem outgoing_headers_witness:
  "header_values (out_headers (rq_Header demo_request) ''intern'' ''r'') ''X-Forwarded-Sub'' = [''intern'']
   \<and> header_values (out_headers (rq_Header demo_request) ''intern'' ''r'') ''Accept'' = [''a'', ''b'']"
proof -
  have "concat (map snd (filter (\<lambda>(k', vs). CanonicalHeaderKey k' = ''Accept'' \<and> strings_ToLower k' \<notin> set hop_by_hop)
      (rq_Header demo_request))) = [''a'', ''b'']"
    by code_simp
  then show ?thesis
    using outgoing_headers [of "rq_Header demo_request" "''intern''" "''r''"] by simp
qed

text \<open>
  The order in which Go ranges over a header map does not matter.  When the keys of the
  source have distinct canonical forms, as those \<^verbatim>\<open>net/http\<close> parses do, every iteration order
  copies the same values to every field.
\<close>

lemma copyHeaders_order:
  assumes "mset src = mset src'" and "distinct (map (CanonicalHeaderKey \<circ> fst) src)"
  shows "header_values (copyHeaders src dst) k = header_values (copyHeaders src' dst) k"
proof -
  have small: "length (filter (contributes k) xs) \<le> 1" if "distinct (map (CanonicalHeaderKey \<circ> fst) xs)" for xs
  proof -
    have "set (map (CanonicalHeaderKey \<circ> fst) (filter (contributes k) xs)) \<subseteq> {k}"
      by (auto simp: contributes_def)
    moreover have "distinct (map (CanonicalHeaderKey \<circ> fst) (filter (contributes k) xs))"
      using that by (rule distinct_map_filter)
    ultimately have "length (map (CanonicalHeaderKey \<circ> fst) (filter (contributes k) xs)) \<le> card {k}"
      by (metis card_mono distinct_card finite.emptyI finite.insertI)
    then show ?thesis by simp
  qed
  have m: "mset (filter (contributes k) src) = mset (filter (contributes k) src')"
    using assms(1) by (simp add: mset_filter)
  then have "length (filter (contributes k) src) = length (filter (contributes k) src')"
    by (rule mset_eq_length)
  with small [OF assms(2)] m have "filter (contributes k) src = filter (contributes k) src'"
    by (cases "filter (contributes k) src"; cases "filter (contributes k) src'") auto
  then show ?thesis by (simp add: values_copyHeaders)
qed

section \<open>What the client is answered\<close>

text \<open>
  C7: the refusals.  Without a matching route the answer is 404; without a bearer token, or
  with one that does not authenticate, 401 and the reason; with a token that lacks the scope,
  403, and the token is spent; with no healthy backend, 503.  In each case nothing is sent to
  a backend, no pool changes, and the body is the reason.
\<close>

theorem refusals:
  fixes cas :: "'s nonce_op"
  assumes s_def: "s = ServeHTTP lib cas env h st w r" and w'_def: "w' = identified env w"
  shows
    "(match_route (routes h) (rq_Path r) = None \<longrightarrow>
        s = denied st (http_Error w' ''no route'' NotFound, sv_events s))
     \<and> (match_route (routes h) (rq_Path r) = Some route \<and> extractBearer (rq_Header r) = '''' \<longrightarrow>
        s = denied st (http_Error w' ReasonNoToken Unauthorized, sv_events s))
     \<and> (match_route (routes h) (rq_Path r) = Some route \<and> extractBearer (rq_Header r) \<noteq> ''''
          \<and> (\<nexists>key c nst'. authenticated lib cas env h (nonces st) r key c nst') \<longrightarrow>
        (\<exists>reason \<in> insert ReasonReplay token_reasons. \<exists>nst'.
           (reason \<noteq> ReasonReplay \<longrightarrow> nst' = nonces st)
           \<and> s = denied (st\<lparr>nonces := nst'\<rparr>) (http_Error w' reason Unauthorized, sv_events s)))
     \<and> (match_route (routes h) (rq_Path r) = Some route
          \<and> authenticated lib cas env h (nonces st) r key c nst' \<and> \<not> HasScope c (requiredScope route) \<longrightarrow>
        s = denied (st\<lparr>nonces := nst'\<rparr>) (http_Error w' ReasonMissingScope Forbidden, sv_events s))
     \<and> (admitted lib cas env h (nonces st) r route key c nst' \<and> pools st (re_service route) = Some pool
          \<and> (\<forall>b \<in> set (backends pool). \<not> healthy b) \<longrightarrow>
        s = denied (st\<lparr>nonces := nst'\<rparr>) (http_Error w' ''no healthy backend'' ServiceUnavailable, sv_events s))"
proof -
  have tr: "reason \<in> insert ReasonReplay token_reasons \<Longrightarrow> reason \<noteq> ReasonMissingScope" for reason
    by (auto simp: token_reasons_def reason_defs)
  show ?thesis
  proof (cases rule: ServeHTTP_cases [of h r lib cas env st w])
    case no_route
    then show ?thesis by (simp add: s_def w'_def denied_def admitted_def)
  next
    case (no_token route')
    then show ?thesis
      by (simp add: s_def w'_def denied_def admitted_def authenticated_def denyAuth_def reason_defs)
  next
    case (bad_token route' reason nst'')
    then show ?thesis
      using tr [OF bad_token(3)]
      by (auto simp: s_def w'_def denied_def admitted_def denyAuth_def Let_def intro!: bexI [of _ reason] exI [of _ nst''])
  next
    case (no_scope route' key' c' nst'')
    then show ?thesis
      by (auto simp: s_def w'_def denied_def admitted_def denyAuth_def Let_def authenticated_def
          dest: authentic_unique)
  next
    case (admit route' key' c' nst'')
    have "s = denied (st\<lparr>nonces := nst''\<rparr>) (http_Error w' ''no healthy backend'' ServiceUnavailable, sv_events s)"
      if "pools st (re_service route') = Some pool" "\<forall>b \<in> set (backends pool). \<not> healthy b"
    proof -
      have "Healthy pool = []" using that(2) Healthy_Nil_iff by blast
      then have "Pick pool a b = None" for a b using Pick_None_iff by blast
      with that(1) admit(2) show ?thesis
        by (simp add: s_def w'_def route_admitted_def denied_def)
    qed
    with admit(1) show ?thesis
      by (auto simp: admitted_def authenticated_def dest: authentic_unique)
  qed
qed

theorem refusals_witness:
  "let r = demo_request\<lparr>rq_Header := []\<rparr>; s = ServeHTTP demo_lib CheckAndStore demo_env demo_handler demo_gw new_writer r
   in w_status (sv_w s) = Some 401 \<and> w_body (sv_w s) = ''no_token'' @ [char_of (10 :: nat)] \<and> sv_sent s = []"
proof -
  let ?r = "demo_request\<lparr>rq_Header := []\<rparr>"
  define s where "s = ServeHTTP demo_lib CheckAndStore demo_env demo_handler demo_gw new_writer ?r"
  have "match_route (routes demo_handler) (rq_Path ?r) = Some demo_route" using demo_match by simp
  moreover have "extractBearer (rq_Header ?r) = ''''" by (simp add: extractBearer_def header_Get_def header_values_def)
  ultimately have d: "s = denied demo_gw (http_Error (identified demo_env new_writer) ReasonNoToken Unauthorized, sv_events s)"
    using refusals [OF s_def refl, of demo_route] by blast
  have "sv_w s = http_Error (identified demo_env new_writer) ReasonNoToken Unauthorized" "sv_sent s = []"
    by (subst d, simp add: denied_def)+
  moreover have "w_status (identified demo_env new_writer) = None" "w_body (identified demo_env new_writer) = ''''"
    by (simp_all add: identified_def w_Set_def new_writer_def)
  ultimately show ?thesis
    by (simp add: s_def [symmetric] http_Error_fresh Unauthorized_def ReasonNoToken_def)
qed

text \<open>
  C18: the answer when every attempt failed.  The client gets 502 and only the gateway's own
  headers: a failed attempt leaves nothing of a backend in the response.
\<close>

theorem upstream_failure:
  assumes "admitted lib cas env h (nonces st) r route key c nst'"
    and "pools st (re_service route) = Some pool"
    and "Pick pool (fst (e_pick env)) (snd (e_pick env)) = Some i"
    and "forward_with_retry env h r (identified env w) route pool i (request_id env) (sub key) = (f, sent)"
    and "f_err f = Some err"
  shows "sv_w (ServeHTTP lib cas env h st w r) = http_Error (identified env w) ''bad gateway'' BadGateway"
  using assms(2,3,5) retry_facts(2) [OF assms(4)]
  by (simp add: ServeHTTP_admitted [OF assms(1)] route_admitted_def assms(4))

theorem upstream_failure_witness:
  "let err = \<lparr>Error_text = ''gone'', is_Canceled = True, is_DeadlineExceeded = False\<rparr>;
       env = demo_env\<lparr>e_first := demo_attempt\<lparr>ae_Do := \<lambda>_ _. Transport err\<rparr>\<rparr>
   in w_status (sv_w (ServeHTTP demo_lib CheckAndStore env demo_handler demo_gw new_writer demo_request)) = Some 502"
proof -
  define err where "err = \<lparr>Error_text = ''gone'', is_Canceled = True, is_DeadlineExceeded = False\<rparr>"
  define env where "env = demo_env\<lparr>e_first := demo_attempt\<lparr>ae_Do := \<lambda>_ _. Transport err\<rparr>\<rparr>"
  have a: "admitted demo_lib CheckAndStore env demo_handler (nonces demo_gw) demo_request demo_route demo_key demo_claims
     (demo_store\<lparr>items := [''j1'' \<mapsto> time_Unix 1700000300]\<rparr>)"
    using demo_admitted by (simp add: admitted_def authenticated_def env_def)
  obtain f sent where f: "forward_with_retry env demo_handler demo_request (identified env new_writer) demo_route demo_llm 0
      (request_id env) (sub demo_key) = (f, sent)" by (rule prod.exhaust)
  have p: "Pick demo_llm (fst (e_pick env)) (snd (e_pick env)) = Some 0"
    using demo_picks(1) by (simp add: env_def demo_env_simps)
  have "f_err f = Some err"
    using f unfolding forward_with_retry_def
    by (auto simp: env_def Let_def forward_def demo_lib_facts isRetryable_def err_def)
  then show ?thesis
    using upstream_failure [OF a demo_pool p f]
    unfolding Let_def err_def [symmetric] env_def [symmetric]
    by (simp add: http_Error_fresh identified_def w_Set_def new_writer_def BadGateway_def)
qed



text \<open>
  C21: the retry cannot resend a request body.  The transport has closed the body when the
  first attempt was sent, so the second attempt carries a closed one, whatever the client
  uploaded; only a request without a body is retried as it was.
\<close>

theorem retry_body_lost:
  assumes "forward_with_retry env h r w route pool i rid subject = (f, [s1, s2])"
  shows "o_Body (snd s1) = rq_Body r \<and> o_Body (snd s2) = close_body (rq_Body r)"
proof -
  define f1 where "f1 = forward (e_first env) h r w route pool i rid subject"
  show ?thesis
  proof (cases rule: forward_with_retry_cases [OF assms f1_def, case_names once twice])
    case once
    with forward_facts(3) [OF f1_def refl] show ?thesis by (metis One_nat_def Suc_n_not_le_n length_map list.size(3,4) add_0 add_Suc_shift plus_1_eq_Suc)
  next
    case (twice err alt f2)
    have l: "length (f_sent f1) \<le> 1" "length (f_sent f2) \<le> 1"
      using forward_facts(3) [OF f1_def refl] forward_facts(3) [OF twice(5) refl] .
    have "length (f_sent f1) + length (f_sent f2) = 2" using arg_cong [OF twice(7), of length] by simp
    with l have "length (f_sent f1) = 1" "length (f_sent f2) = 1" by linarith+
    then obtain q1 q2 where q: "f_sent f1 = [q1]" "f_sent f2 = [q2]"
      by (metis One_nat_def length_0_conv length_Suc_conv)
    have "f_body f1 = close_body (rq_Body r)"
      by (cases rule: forward_cases [OF f1_def refl]) (use q in simp_all)
    moreover have "q1 = out_request r route (backends pool ! i) rid subject"
      "q2 = out_request (r\<lparr>rq_Body := f_body f1\<rparr>) route (backends (f_pool f1) ! alt) rid subject"
      using forward_facts(2) [OF f1_def refl] forward_facts(2) [OF twice(5) refl] q by simp_all
    ultimately show ?thesis using twice(7) q by (simp add: out_request_def)
  qed
qed

theorem retry_body_lost_witness:
  "let sent = snd (forward_with_retry demo_env demo_handler demo_request demo_w demo_route demo_llm 0 demo_rid ''intern'')
   in o_Body (snd (sent ! 0)) = Unread ''prompt'' \<and> o_Body (snd (sent ! 1)) = ClosedBody"
proof -
  obtain q1 q2 where q: "f_sent demo_f1 = [q1]" "f_sent demo_f2 = [q2]"
    using forward_sends [OF demo_f1_def] forward_sends [OF demo_f2_def] by (simp add: demo_lib_facts)
  then show ?thesis
    using retry_body_lost [OF demo_forwarded [unfolded q, simplified]] demo_forwarded
    by (simp add: close_body_def demo_request_def)
qed

section \<open>What is reported\<close>

fun is_request_count :: "metric_call \<Rightarrow> bool" where
  "is_request_count (RequestsTotal_Inc _ _ _) = True"
| "is_request_count _ = False"

lemma retry_no_request_count:
  assumes "forward_with_retry env h r w route pool i rid subject = (f, sent)"
  shows "filter is_request_count (event_metrics (f_events f)) = []"
proof -
  have "\<not> is_request_count m" if "m \<in> set (event_metrics (f_events f))" for m
    using retry_facts(4) [OF assms] that by (cases m) auto
  then show ?thesis by (simp add: filter_empty_conv)
qed

lemma denyAuth_events:
  "filter is_request_count (event_metrics (snd (denyAuth w rid route subject kid reason))) =
     [RequestsTotal_Inc (re_prefix route) ''deny'' reason]"
  "length (event_logs (snd (denyAuth w rid route subject kid reason))) = 1"
  by (simp_all add: denyAuth_def Let_def)

text \<open>The header field in which the gateway tells the client which backend answered.\<close>

definition upstream_seen :: "response_writer \<Rightarrow> string list" where
  "upstream_seen w = header_values (w_header w) ''X-Upstream''"

lemma upstream_identified: "upstream_seen (identified env w) = upstream_seen w"
  by (simp add: upstream_seen_def identified_def w_Set_def values_Set canonical_names)

lemma upstream_Error: "upstream_seen (http_Error w msg code) = upstream_seen w"
  by (simp add: upstream_seen_def http_Error_header)

lemma upstream_denyAuth: "upstream_seen (fst (denyAuth w rid route subject kid reason)) = upstream_seen w"
  by (simp add: denyAuth_def Let_def upstream_Error)

lemma forward_upstream:
  assumes "f = forward env h r w route pool i rid subject" and "f_err f = None" and "\<not> f_panic f"
  shows "f_sent f \<noteq> []" and "upstream_seen (f_w f) = [f_id f]"
proof -
  have "f_sent f \<noteq> [] \<and> upstream_seen (f_w f) = [f_id f]"
    using assms(2,3)
    by (cases rule: forward_cases [OF assms(1) refl])
       (auto simp: upstream_seen_def relay_def Let_def w_Set_def w_WriteHeader_def w_Write_def values_Set canonical_names
         split: if_splits option.splits)
  then show "f_sent f \<noteq> []" and "upstream_seen (f_w f) = [f_id f]" by simp_all
qed

lemma retry_upstream:
  assumes "forward_with_retry env h r w route pool i rid subject = (f, sent)" and "f_err f = None" and "\<not> f_panic f"
  shows "sent \<noteq> []" and "upstream_seen (f_w f) = [fst (last sent)]"
proof -
  define f1 where "f1 = forward (e_first env) h r w route pool i rid subject"
  have "sent \<noteq> [] \<and> upstream_seen (f_w f) = [fst (last sent)]"
  proof (cases rule: forward_with_retry_cases [OF assms(1) f1_def, case_names once twice])
    case once
    with forward_upstream [OF f1_def] assms(2,3) show ?thesis by (simp add: last_map)
  next
    case (twice err alt f2)
    with forward_upstream [OF twice(5)] assms(2,3) show ?thesis by (simp add: last_map)
  qed
  then show "sent \<noteq> []" and "upstream_seen (f_w f) = [fst (last sent)]" by simp_all
qed

lemma retry_logged:
  assumes "forward_with_retry env h r w route pool i rid subject = (f, sent)" and "length sent = 2"
  shows "length (event_logs (f_events f)) = 1"
proof -
  define f1 where "f1 = forward (e_first env) h r w route pool i rid subject"
  show ?thesis
  proof (cases rule: forward_with_retry_cases [OF assms(1) f1_def, case_names once twice])
    case once
    with forward_facts(3) [OF f1_def refl] assms(2) show ?thesis by simp
  next
    case (twice err alt f2)
    with forward_facts(5) [OF f1_def refl] forward_facts(5) [OF twice(5) refl] show ?thesis by simp
  qed
qed



section \<open>Registered scopes\<close>

lemma forward_verifier: "forward env (h\<lparr>h_verifier := v\<rparr>) r w route pool i rid subject = forward env h r w route pool i rid subject"
  by (simp add: forward_def Let_def split: option.split)

lemma route_admitted_verifier:
  "route_admitted env (h\<lparr>h_verifier := v\<rparr>) st w r route rid subject c = route_admitted env h st w r route rid subject c"
  by (simp add: route_admitted_def forward_with_retry_def forward_verifier Let_def split: option.split)

text \<open>
  C24: the scopes registered with a key play no part in verification or authorization.
  Replacing every registered scope set by any other leaves everything the handler does with
  any request unchanged, whom it admits, what it answers, sends, stores and reports, so the
  scopes a caller signs into its own token are the ones that count.
\<close>

theorem registered_scopes_ignored:
  "ServeHTTP lib cas env
     (h\<lparr>h_verifier := (h_verifier h)\<lparr>keys := \<lambda>kid. map_option (\<lambda>key. key\<lparr>scopes := S kid\<rparr>) (keys (h_verifier h) kid)\<rparr>\<rparr>) st w r
   = ServeHTTP lib cas env h st w r"
  by (simp add: ServeHTTP_def Let_def Verify_ignores_registered_scopes route_admitted_verifier case_prod_beta
      cong: option.case_cong if_cong)

section \<open>Panics\<close>

lemma match_route_in: "match_route rs path = Some rt \<Longrightarrow> rt \<in> set rs"
  by (induction rs path rule: match_route.induct) (auto split: if_splits)

lemma no_panic:
  assumes services: "\<forall>rt \<in> set (routes h). pools st (re_service rt) \<noteq> None \<and> clients h (re_service rt) \<noteq> None"
    and status: "\<forall>e cl q code hdr bs. e \<in> {e_first env, e_retry env} \<and> ae_Do e cl q = Answer code hdr bs \<longrightarrow>
      100 \<le> code \<and> code \<le> 999"
  shows "\<not> sv_panic (ServeHTTP lib cas env h st w r)"
proof -
  have one: "\<not> f_panic g" if "g = forward e h q v rt p j rid subject" "e \<in> {e_first env, e_retry env}" "rt \<in> set (routes h)"
    for g e q v rt p j rid subject
  proof (cases rule: forward_cases [OF that(1) refl, case_names unsendable no_client transport answer])
    case (answer client code hdr bs)
    with status that(2) have "100 \<le> code \<and> code \<le> 999" by blast
    then have "\<not> fst (relay v (ID (backends p ! j)) code hdr bs)" by (simp add: relay_def Let_def)
    with answer(3) show ?thesis by simp
  qed (use services that(3) in auto)
  show ?thesis
  proof (cases rule: ServeHTTP_cases [of h r lib cas env st w])
    case (admit rt key c nst')
    have rt: "rt \<in> set (routes h)" using admit(1) by (auto simp: admitted_def intro: match_route_in)
    have two: "\<not> f_panic f" if f: "forward_with_retry env h r v rt pool i rid subject = (f, sent)"
      for v pool i rid subject f sent
    proof -
      define f1 where "f1 = forward (e_first env) h r v rt pool i rid subject"
      show ?thesis
      proof (cases rule: forward_with_retry_cases [OF f f1_def, case_names once twice])
        case once
        with one [OF f1_def _ rt] show ?thesis by simp
      next
        case (twice err alt f2)
        with one [OF twice(5) _ rt] show ?thesis by simp
      qed
    qed
    show ?thesis
      by (cases rule: route_admitted_cases [of "st\<lparr>nonces := nst'\<rparr>" rt env h "identified env w" r
            "request_id env" "sub key" c]) (use admit services rt two in \<open>auto simp: denied_def\<close>)
  qed (simp_all add: denied_def)
qed

text \<open>
  C20: when the handler panics.  A request admitted to a route whose service has no pool
  always does, after its nonce is spent and without any report.  So does one whose first
  attempt is answered with a status outside 100 to 999, which \<^verbatim>\<open>WriteHeader\<close> refuses.  If every
  service named by a route has a pool and a client, and every answer of a backend has a status
  from 100 to 999, no request panics.
\<close>

theorem panic_iff_unknown_service:
  shows "(admitted lib cas env h (nonces st) r route key c nst' \<and> pools st (re_service route) = None \<longrightarrow>
       ServeHTTP lib cas env h st w r =
         \<lparr>sv_w = identified env w, sv_state = st\<lparr>nonces := nst'\<rparr>, sv_events = [], sv_sent = [], sv_panic = True\<rparr>)
     \<and> (admitted lib cas env h (nonces st) r route key c nst' \<and> pools st (re_service route) = Some pool
        \<and> Pick pool (fst (e_pick env)) (snd (e_pick env)) = Some i \<and> clients h (re_service route) = Some client
        \<and> ae_newreq (e_first env) (rq_Method r) (forward_target (backends pool ! i) route r) = None
        \<and> ae_Do (e_first env) client (out_request r route (backends pool ! i) (request_id env) (sub key)) = Answer code hdr bs
        \<and> (code < 100 \<or> 999 < code) \<longrightarrow>
       sv_panic (ServeHTTP lib cas env h st w r))
     \<and> ((\<forall>rt \<in> set (routes h). pools st (re_service rt) \<noteq> None \<and> clients h (re_service rt) \<noteq> None)
        \<and> (\<forall>e cl q code hdr bs. e \<in> {e_first env, e_retry env} \<and> ae_Do e cl q = Answer code hdr bs \<longrightarrow>
             100 \<le> code \<and> code \<le> 999) \<longrightarrow>
       \<not> sv_panic (ServeHTTP lib cas env h st w r))"
proof (intro conjI impI)
  assume "admitted lib cas env h (nonces st) r route key c nst' \<and> pools st (re_service route) = None"
  then show "ServeHTTP lib cas env h st w r =
      \<lparr>sv_w = identified env w, sv_state = st\<lparr>nonces := nst'\<rparr>, sv_events = [], sv_sent = [], sv_panic = True\<rparr>"
    using ServeHTTP_admitted [of lib cas env h st r route key c nst' w] by (simp add: route_admitted_def)
next
  assume a: "admitted lib cas env h (nonces st) r route key c nst' \<and> pools st (re_service route) = Some pool
        \<and> Pick pool (fst (e_pick env)) (snd (e_pick env)) = Some i \<and> clients h (re_service route) = Some client
        \<and> ae_newreq (e_first env) (rq_Method r) (forward_target (backends pool ! i) route r) = None
        \<and> ae_Do (e_first env) client (out_request r route (backends pool ! i) (request_id env) (sub key)) = Answer code hdr bs
        \<and> (code < 100 \<or> 999 < code)"
  define f where "f = forward (e_first env) h r (identified env w) route pool i (request_id env) (sub key)"
  have "f_panic f \<and> f_err f = None"
    using a by (cases rule: forward_cases [OF f_def refl]) (auto simp: relay_def Let_def)
  then show "sv_panic (ServeHTTP lib cas env h st w r)"
    using a ServeHTTP_admitted [of lib cas env h st r route key c nst' w]
    by (simp add: route_admitted_def forward_with_retry_def f_def [symmetric])
qed (elim conjE, rule no_panic)

theorem panic_iff_unknown_service_witness:
  "sv_panic (ServeHTTP demo_lib CheckAndStore demo_env demo_handler (demo_gw\<lparr>pools := Map.empty\<rparr>) new_writer demo_request)"
proof -
  have "admitted demo_lib CheckAndStore demo_env demo_handler (nonces (demo_gw\<lparr>pools := Map.empty\<rparr>)) demo_request demo_route
     demo_key demo_claims (demo_store\<lparr>items := [''j1'' \<mapsto> time_Unix 1700000300]\<rparr>)"
    using demo_admitted by simp
  moreover have "pools (demo_gw\<lparr>pools := Map.empty\<rparr>) (re_service demo_route) = None" by simp
  ultimately show ?thesis
    using panic_iff_unknown_service [of demo_lib CheckAndStore demo_env demo_handler "demo_gw\<lparr>pools := Map.empty\<rparr>"
        demo_request demo_route demo_key demo_claims] by auto
qed

section \<open>Where a request is sent\<close>

text \<open>
  C19: the host a request is sent to.  It is the configured one when the path leaves the
  route prefix at a segment boundary; but the prefix match does not require that, and a path
  that continues it with \<^verbatim>\<open>@\<close> and a name of the caller's choice makes the gateway dial that
  host instead, the configured address having become user information.
\<close>

theorem dialled_host:
  assumes "Addr b = ''https://'' @ host" and "plain_host host"
    and "rq_Path r = re_prefix route @ rest" and "rq_RawQuery r = ''''"
  shows "(rest = '''' \<or> hd rest = CHR ''/'' \<longrightarrow> url_host (forward_target b route r) = host)
    \<and> (rest = ''@'' @ evil @ ''/'' @ tl_path \<and> plain_host evil \<longrightarrow> url_host (forward_target b route r) = evil)"
proof -
  have "forward_target b route r = ''https://'' @ host @ rest"
    by (simp add: forward_target_def assms)
  then show ?thesis
    using url_host_plain [OF assms(2), of rest] url_host_userinfo [OF assms(2), of evil "''/'' @ tl_path"] by auto
qed

theorem dialled_host_witness:
  "let r = demo_request\<lparr>rq_Path := ''/v1/llm@evil.example/x''\<rparr>
   in match_route (routes demo_handler) (rq_Path r) = Some demo_route
      \<and> url_host (forward_target (backends demo_llm ! 0) demo_route r) = ''evil.example''
      \<and> url_host (forward_target (backends demo_llm ! 0) demo_route demo_request) = ''llm-1:9001''"
proof -
  let ?r = "demo_request\<lparr>rq_Path := ''/v1/llm@evil.example/x''\<rparr>"
  have a: "Addr (backends demo_llm ! 0) = ''https://'' @ ''llm-1:9001''"
    by (simp add: demo_llm_def NewPool_def new_backend_def)
  have p: "plain_host ''llm-1:9001''" "plain_host ''evil.example''" by (simp_all add: plain_host_def)
  have "rq_Path ?r = re_prefix demo_route @ ''@evil.example/x''" "rq_RawQuery ?r = ''''"
    "rq_Path demo_request = re_prefix demo_route @ ''/chat''" "rq_RawQuery demo_request = ''''"
    by (simp_all add: demo_route_def demo_request_def)
  moreover have "match_route (routes demo_handler) ''/v1/llm@evil.example/x'' = Some demo_route"
    by (simp add: demo_handler_def demo_route_def go_lib)
  ultimately show ?thesis
    using dialled_host [OF a p(1), of ?r demo_route "''@evil.example/x''" "''evil.example''" "''x''"]
      dialled_host [OF a p(1), of demo_request demo_route "''/chat''"] p(2) by simp
qed

end
