(* ===== verification/Gateway_System.thy ===== *)
theory Gateway_System
  imports Health_Checker Request_Path "HOL-Library.Sublist"
begin

text \<open>
  One service of the running gateway: its pool, shared by the health checker and by any
  number of request goroutines.  A request is in one of three phases, between the atomic
  accesses \<^verbatim>\<open>ServeHTTP\<close> and \<^verbatim>\<open>forward\<close> make to the pool: it has picked a backend, it has
  acquired it and is sending, or it has its outcome and is about to run the deferred
  \<^verbatim>\<open>Release\<close>.  A retry is a request that picks again.  The steps of the checker are its own.
\<close>

section \<open>The step relation\<close>

datatype phase = Chosen nat | Sending nat | Outcome nat

fun at_backend :: "phase \<Rightarrow> nat" where
  "at_backend (Chosen i) = i"
| "at_backend (Sending i) = i"
| "at_backend (Outcome i) = i"

record ('pool, 'cert) system =
  chk :: "('pool, 'cert) checker_state"
  phases :: "phase multiset"

definition touch :: "(Backend \<Rightarrow> Backend) \<Rightarrow> nat \<Rightarrow> ('pool, 'cert) system \<Rightarrow> ('pool, 'cert) system" where
  "touch f i s = s\<lparr>chk := (chk s)\<lparr>cpool := on_backend f i (cpool (chk s))\<rparr>\<rparr>"

definition advance :: "phase multiset \<Rightarrow> phase multiset \<Rightarrow> ('pool, 'cert) system \<Rightarrow> ('pool, 'cert) system" where
  "advance old new s = s\<lparr>phases := phases s - old + new\<rparr>"

inductive system_step :: "('pool, 'cert) system \<Rightarrow> ('pool, 'cert) system \<Rightarrow> bool" where
  Begin: "Pick (cpool (chk s)) r1 r2 = Some i \<Longrightarrow> system_step s (advance {#} {#Chosen i#} s)"
| Start: "Chosen i \<in># phases s \<Longrightarrow> system_step s (advance {#Chosen i#} {#Sending i#} (touch Acquire i s))"
| Unsent: "Sending i \<in># phases s \<Longrightarrow> system_step s (advance {#Sending i#} {#Outcome i#} s)"
| Respond: "Sending i \<in># phases s \<Longrightarrow>
    system_step s (advance {#Sending i#} {#Outcome i#} (touch (\<lambda>b. RecordLatency b d) i s))"
| Return: "Outcome i \<in># phases s \<Longrightarrow> system_step s (advance {#Outcome i#} {#} (touch Release i s))"
| Ticks: "system_step s (s\<lparr>chk := tick (chk s)\<rparr>)"
| Probed: "i \<in># pending (chk s) \<Longrightarrow> system_step s (s\<lparr>chk := finish_probe i r (chk s)\<rparr>)"

inductive_cases system_stepE: "system_step s s'"

definition system_init :: "('pool, 'cert) Checker \<Rightarrow> Pool \<Rightarrow> ('pool, 'cert) system" where
  "system_init c p = \<lparr>chk = Run_init c p, phases = {#}\<rparr>"

text \<open>The requests between \<^verbatim>\<open>Acquire\<close> and \<^verbatim>\<open>Release\<close> on a backend.\<close>

definition in_flight :: "('pool, 'cert) system \<Rightarrow> nat \<Rightarrow> nat" where
  "in_flight s i = count (phases s) (Sending i) + count (phases s) (Outcome i)"

section \<open>The invariant\<close>

definition system_inv :: "('pool, 'cert) system \<Rightarrow> bool" where
  "system_inv s \<longleftrightarrow>
     (\<forall>ph \<in># phases s. at_backend ph < length (backends (cpool (chk s))))
     \<and> (\<forall>i \<in># pending (chk s). i < length (backends (cpool (chk s))))
     \<and> (\<forall>i < length (backends (cpool (chk s))). inflight (backends (cpool (chk s)) ! i) = of_nat (in_flight s i))"

lemma touch_simps [simp]:
  "phases (touch f i s) = phases s" "cpool (chk (touch f i s)) = on_backend f i (cpool (chk s))"
  "pending (chk (touch f i s)) = pending (chk s)"
  by (simp_all add: touch_def)

lemma advance_simps [simp]: "chk (advance old new s) = chk s" "phases (advance old new s) = phases s - old + new"
  by (simp_all add: advance_def)

lemma advance_touch: "advance old new (touch f i s) = touch f i (advance old new s)"
  by (simp add: advance_def touch_def)

text \<open>What a request step does to the phases and to the count of one backend.\<close>

lemma system_inv_request:
  assumes inv: "system_inv s"
    and old: "old \<subseteq># phases s" and at: "\<forall>ph \<in># new. at_backend ph < length (backends (cpool (chk s)))"
    and i: "i < length (backends (cpool (chk s)))"
    and f: "\<And>b. inflight (f b) = inflight b + of_nat (count new (Sending i) + count new (Outcome i))
        - of_nat (count old (Sending i) + count old (Outcome i))"
    and other: "\<And>j. j \<noteq> i \<Longrightarrow> count new (Sending j) + count new (Outcome j) = count old (Sending j) + count old (Outcome j)"
  shows "system_inv (advance old new (touch f i s))"
proof -
  have c: "count (phases s - old + new) ph = count (phases s) ph - count old ph + count new ph"
    and le: "count old ph \<le> count (phases s) ph" for ph
    using old by (simp_all add: mset_subset_eq_count)
  have "inflight (backends (cpool (chk (touch f i s))) ! j) = of_nat (in_flight (advance old new (touch f i s)) j)"
    if j: "j < length (backends (cpool (chk s)))" for j
  proof -
    have fl: "in_flight (advance old new (touch f i s)) j + (count old (Sending j) + count old (Outcome j))
        = in_flight s j + (count new (Sending j) + count new (Outcome j))"
      using le [of "Sending j"] le [of "Outcome j"] by (simp add: in_flight_def)
    show ?thesis
    proof (cases "j = i")
      case True
      have "(of_nat (in_flight (advance old new (touch f i s)) i) :: int64)
          = of_nat (in_flight s i) + of_nat (count new (Sending i) + count new (Outcome i))
            - of_nat (count old (Sending i) + count old (Outcome i))"
        using fl True by (metis add_diff_cancel_right' of_nat_add)
      moreover have "inflight (backends (cpool (chk s)) ! i) = of_nat (in_flight s i)" using inv i by (simp add: system_inv_def)
      moreover have "cpool (chk (touch f i s)) = on_backend f i (cpool (chk s))" by simp
      ultimately show ?thesis using True i by (simp only: on_backend_nth f if_True refl)
    next
      case False
      then have "in_flight (advance old new (touch f i s)) j = in_flight s j" using fl other [OF False] by simp
      with False inv i j show ?thesis by (simp add: on_backend_nth system_inv_def)
    qed
  qed
  then show ?thesis
    using inv at by (auto simp: system_inv_def dest: in_diffD)
qed

lemma system_inv_check:
  assumes inv: "system_inv s" and c: "length (backends (cpool c)) = length (backends (cpool (chk s)))"
    and p: "\<forall>i \<in># pending c. i < length (backends (cpool c))"
    and b: "\<And>i. i < length (backends (cpool c)) \<Longrightarrow> inflight (backends (cpool c) ! i) = inflight (backends (cpool (chk s)) ! i)"
  shows "system_inv (s\<lparr>chk := c\<rparr>)"
  using assms by (simp add: system_inv_def in_flight_def)

lemma finish_probe_inflight:
  assumes "i < length (backends (cpool c))"
  shows "length (backends (cpool (finish_probe i r c))) = length (backends (cpool c))"
    and "inflight (backends (cpool (finish_probe i r c)) ! j) = inflight (backends (cpool c) ! j)"
    and "pending (finish_probe i r c) = pending c - {#i#}"
  using assms by (auto simp: finish_probe_def record_probe_def Let_def on_backend_nth)

lemma system_inv_step:
  assumes "system_step s s'" and inv: "system_inv s"
  shows "system_inv s'"
proof -
  have at: "at_backend ph < length (backends (cpool (chk s)))" if "ph \<in># phases s" for ph
    using inv that by (simp add: system_inv_def)
  from assms(1) show ?thesis
  proof (cases rule: system_step.cases)
    case (Begin r1 r2 i)
    with system_inv_request [OF inv, of "{#}" "{#Chosen i#}" i "\<lambda>b. b"] Pick_bound [OF Begin(2)] show ?thesis
      by (simp add: touch_def on_backend_def)
  next
    case (Start i)
    then have i: "i < length (backends (cpool (chk s)))" using at [of "Chosen i"] by simp
    show ?thesis
      unfolding Start(1) by (rule system_inv_request [OF inv]) (use Start(2) i in \<open>simp_all add: Acquire_def\<close>)
  next
    case (Unsent i)
    then have i: "i < length (backends (cpool (chk s)))" using at [of "Sending i"] by simp
    have "s' = advance {#Sending i#} {#Outcome i#} (touch (\<lambda>b. b) i s)"
      unfolding Unsent(1) by (simp add: touch_def on_backend_def)
    then show ?thesis
      by (simp only:) (rule system_inv_request [OF inv]; use Unsent(2) i in simp)
  next
    case (Respond i d)
    then have i: "i < length (backends (cpool (chk s)))" using at [of "Sending i"] by simp
    show ?thesis
      unfolding Respond(1) by (rule system_inv_request [OF inv]) (use Respond(2) i in \<open>simp_all add: RecordLatency_def Let_def\<close>)
  next
    case (Return i)
    then have i: "i < length (backends (cpool (chk s)))" using at [of "Outcome i"] by simp
    show ?thesis
      unfolding Return(1) by (rule system_inv_request [OF inv]) (use Return(2) i in \<open>simp_all add: Release_def\<close>)
  next
    case Ticks
    show ?thesis
      unfolding Ticks by (rule system_inv_check [OF inv]) (use inv in \<open>auto simp: tick_def All_def system_inv_def\<close>)
  next
    case (Probed i r)
    then have i: "i < length (backends (cpool (chk s)))" using inv by (simp add: system_inv_def)
    show ?thesis
      unfolding Probed(1) by (rule system_inv_check [OF inv])
        (use inv i in \<open>auto simp: finish_probe_inflight [OF i] system_inv_def dest: in_diffD\<close>)
  qed
qed

lemma system_inv_init: "system_inv (system_init c (NewPool service cfg))"
  by (simp add: system_inv_def system_init_def in_flight_def Run_init_def tick_def All_def NewPool_def new_backend_def)

lemma system_inv_reachable: "system_step\<^sup>*\<^sup>* (system_init c (NewPool service cfg)) s \<Longrightarrow> system_inv s"
  by (induction rule: rtranclp_induct) (auto intro: system_inv_init system_inv_step)

section \<open>The checker inside the system\<close>

text \<open>Every step of the system is a step of the checker, or leaves its state alone.\<close>

lemma system_step_checker:
  assumes "system_step s s'" and inv: "system_inv s"
  shows "checker_step\<^sup>*\<^sup>* (chk s) (chk s')"
proof -
  have t: "checker_step\<^sup>*\<^sup>* (chk s) (chk (touch f i s))" if "traffic_op f" "ph \<in># phases s" "at_backend ph = i" for f i ph
    unfolding touch_def using that inv by (auto simp: system_inv_def intro!: r_into_rtranclp checker_step.Traffic)
  from assms(1) show ?thesis
    by (rule system_stepE)
       (auto intro: t acquire.traffic_op_axioms release.traffic_op_axioms latency.traffic_op_axioms
          r_into_rtranclp checker_step.Tick checker_step.Finish)
qed

lemma system_checker_reachable:
  assumes "system_step\<^sup>*\<^sup>* (system_init c (NewPool service cfg)) s"
  shows "checker_step\<^sup>*\<^sup>* (Run_init c (NewPool service cfg)) (chk s)"
  using assms
proof (induction rule: rtranclp_induct)
  case base
  show ?case by (simp add: system_init_def)
next
  case (step s s')
  then show ?case using system_step_checker [OF step(2) system_inv_reachable [OF step(1)]] by simp
qed

section \<open>The request path in the system\<close>

text \<open>
  \<^verbatim>\<open>forward\<close> describes one attempt with the rest of the world folded into \<^verbatim>\<open>ae_world\<close>, while the
  call is in flight, and \<^verbatim>\<open>ae_world'\<close>, while the answer is copied.  Where the world's changes are
  runs of the system that leave this request sending and then at its outcome, the attempt is
  one request of the system from its pick to its release.
\<close>

definition recorded :: "('pool, 'cert) attempt_env \<Rightarrow> nat \<Rightarrow> ('a, 'b) system \<Rightarrow> ('a, 'b) system" where
  "recorded env i s =
     advance {#Sending i#} {#Outcome i#} (touch (\<lambda>b. RecordLatency b (time_Sub (ae_done env) (ae_start env))) i s)"

definition world_runs ::
  "('pool, 'cert) attempt_env \<Rightarrow> nat \<Rightarrow> ('a, 'b) system \<Rightarrow> ('a, 'b) system \<Rightarrow> ('a, 'b) system \<Rightarrow> bool" where
  "world_runs env i s1 s2 s3 \<longleftrightarrow>
     system_step\<^sup>*\<^sup>* s1 s2 \<and> Sending i \<in># phases s2 \<and> cpool (chk s2) = ae_world env (cpool (chk s1))
     \<and> system_step\<^sup>*\<^sup>* (recorded env i s2) s3 \<and> Outcome i \<in># phases s3
     \<and> cpool (chk s3) = ae_world' env (cpool (chk (recorded env i s2)))"

lemma attempt_runs:
  fixes s s2 s3 :: "('a, 'b) system"
  assumes chosen: "Chosen i \<in># phases s"
    and world: "world_runs env i (advance {#Chosen i#} {#Sending i#} (touch Acquire i s)) s2 s3"
  shows "system_step\<^sup>*\<^sup>* s (advance {#Outcome i#} {#} (touch Release i s3))"
proof -
  have w: "Sending i \<in># phases s2" "system_step\<^sup>*\<^sup>* (advance {#Chosen i#} {#Sending i#} (touch Acquire i s)) s2"
    "system_step\<^sup>*\<^sup>* (recorded env i s2) s3" "Outcome i \<in># phases s3"
    using world by (simp_all add: world_runs_def)
  have "system_step\<^sup>*\<^sup>* s s2" using Start [OF chosen] w(2) by (rule converse_rtranclp_into_rtranclp)
  also have "system_step s2 (recorded env i s2)" unfolding recorded_def by (rule Respond [OF w(1)])
  also note w(3)
  also have "system_step s3 (advance {#Outcome i#} {#} (touch Release i s3))" by (rule Return [OF w(4)])
  finally show ?thesis .
qed

lemma unsent_runs:
  assumes chosen: "Chosen i \<in># phases s"
  shows "system_step\<^sup>*\<^sup>* s (advance {#Chosen i#} {#} (touch Release i (touch Acquire i s)))"
proof -
  let ?s1 = "advance {#Chosen i#} {#Sending i#} (touch Acquire i s)"
  let ?s2 = "advance {#Sending i#} {#Outcome i#} ?s1"
  have "system_step s ?s1" by (rule Start [OF chosen])
  moreover have "system_step ?s1 ?s2" by (rule Unsent) simp
  moreover have "system_step ?s2 (advance {#Outcome i#} {#} (touch Release i ?s2))" by (rule Return) simp
  moreover have "advance {#Outcome i#} {#} (touch Release i ?s2) = advance {#Chosen i#} {#} (touch Release i (touch Acquire i s))"
    by (simp add: advance_def touch_def)
  ultimately show ?thesis by (auto intro: rtranclp.rtrancl_into_rtrancl)
qed

lemma forward_runs:
  fixes s s2 s3 :: "('a, 'b) system"
  assumes "Chosen i \<in># phases s"
    and "world_runs env i (advance {#Chosen i#} {#Sending i#} (touch Acquire i s)) s2 s3"
    and "f = forward env h r w route (cpool (chk s)) i rid subject"
  shows "\<exists>s'. system_step\<^sup>*\<^sup>* s s' \<and> cpool (chk s') = f_pool f
     \<and> phases s' = (if f_sent f = [] then phases s - {#Chosen i#} else phases s3 - {#Outcome i#})"
proof -
  let ?sent = "advance {#Outcome i#} {#} (touch Release i s3)"
  let ?unsent = "advance {#Chosen i#} {#} (touch Release i (touch Acquire i s))"
  have sent: "system_step\<^sup>*\<^sup>* s ?sent" by (rule attempt_runs [OF assms(1,2)])
  have pool: "cpool (chk ?sent) = pool_after env i (cpool (chk s))"
    using assms(2) by (simp add: world_runs_def pool_after_def recorded_def)
  show ?thesis
  proof (cases rule: forward_cases [OF assms(3) refl, case_names unsendable no_client transport answer])
    case unsendable
    then show ?thesis by (intro exI [of _ ?unsent]) (simp add: unsent_runs [OF assms(1)])
  next
    case no_client
    then show ?thesis by (intro exI [of _ ?unsent]) (simp add: unsent_runs [OF assms(1)])
  next
    case transport
    then show ?thesis using sent pool by (intro exI [of _ ?sent]) simp
  next
    case answer
    then show ?thesis using sent pool by (intro exI [of _ ?sent]) simp
  qed
qed

text \<open>
  The other requests between two accesses of this one: \<^verbatim>\<open>\<Delta>\<close> says where an attempt of this request
  finds them afterwards.  Everything the world does during an attempt is a run of the system.
\<close>

definition world_within ::
  "('pool, 'cert) attempt_env \<Rightarrow> (phase multiset \<Rightarrow> phase multiset) \<Rightarrow> ('a, 'b) system \<Rightarrow> bool" where
  "world_within env \<Delta> s \<longleftrightarrow>
     (\<forall>i s1. system_step\<^sup>*\<^sup>* s s1 \<and> Sending i \<in># phases s1 \<longrightarrow>
        (\<exists>s2 s3. world_runs env i s1 s2 s3 \<and> phases s3 = add_mset (Outcome i) (\<Delta> (phases s1 - {#Sending i#}))))"

lemma world_within_later: "world_within env \<Delta> s \<Longrightarrow> system_step\<^sup>*\<^sup>* s s' \<Longrightarrow> world_within env \<Delta> s'"
  unfolding world_within_def by (blast intro: rtranclp_trans)

lemma picked_runs:
  fixes s :: "('a, 'b) system"
  assumes pick: "Pick (cpool (chk s)) r1 r2 = Some i" and within: "world_within env \<Delta> s"
    and f: "f = forward env h r w route (cpool (chk s)) i rid subject"
  shows "\<exists>s'. system_step\<^sup>*\<^sup>* s s' \<and> cpool (chk s') = f_pool f
     \<and> phases s' = (if f_sent f = [] then phases s else \<Delta> (phases s))"
proof -
  define s0 where "s0 = advance {#} {#Chosen i#} s"
  define s1 where "s1 = advance {#Chosen i#} {#Sending i#} (touch Acquire i s0)"
  have picks: "system_step s s0" unfolding s0_def by (rule Begin [OF pick])
  have chosen: "Chosen i \<in># phases s0" by (simp add: s0_def)
  have "system_step s0 s1" unfolding s1_def by (rule Start [OF chosen])
  with picks have "system_step\<^sup>*\<^sup>* s s1" by (meson converse_rtranclp_into_rtranclp r_into_rtranclp)
  moreover have "phases s1 = add_mset (Sending i) (phases s)" by (simp add: s1_def s0_def)
  ultimately obtain s2 s3 where s2: "world_runs env i s1 s2 s3" "phases s3 = add_mset (Outcome i) (\<Delta> (phases s))"
    using within unfolding world_within_def by fastforce
  have "f = forward env h r w route (cpool (chk s0)) i rid subject" using f by (simp add: s0_def)
  from forward_runs [OF chosen s2(1) [unfolded s1_def] this] obtain s' where s': "system_step\<^sup>*\<^sup>* s0 s'"
    "cpool (chk s') = f_pool f" "phases s' = (if f_sent f = [] then phases s0 - {#Chosen i#} else phases s3 - {#Outcome i#})"
    by blast
  have "phases s' = (if f_sent f = [] then phases s else \<Delta> (phases s))" using s'(3) s2(2) by (simp add: s0_def)
  with s'(1,2) converse_rtranclp_into_rtranclp [of system_step, OF picks] show ?thesis by blast
qed

text \<open>
  What a request and its retry do to the other requests: the effects of the attempts that
  were sent, in their order.
\<close>

definition after_attempts ::
  "(phase multiset \<Rightarrow> phase multiset) list \<Rightarrow> nat \<Rightarrow> phase multiset \<Rightarrow> phase multiset \<Rightarrow> bool" where
  "after_attempts \<Delta>s n ps ps' \<longleftrightarrow> (\<exists>ds. subseq ds \<Delta>s \<and> length ds = n \<and> ps' = fold (\<lambda>d. d) ds ps)"

lemma after_attempts_once:
  "n \<le> 1 \<Longrightarrow> after_attempts [\<Delta>, \<Delta>'] n ps (if n = 0 then ps else \<Delta> ps)"
  unfolding after_attempts_def
  by (cases n) (auto intro: exI [of _ "[]"] exI [of _ "[\<Delta>]"])

lemma after_attempts_twice:
  assumes "n \<le> 1" and "m \<le> 1"
  shows "after_attempts [\<Delta>, \<Delta>'] (n + m) ps (let qs = (if n = 0 then ps else \<Delta> ps) in if m = 0 then qs else \<Delta>' qs)"
  unfolding after_attempts_def
  by (rule exI [of _ "(if n = 0 then [] else [\<Delta>]) @ (if m = 0 then [] else [\<Delta>'])"]) (use assms in auto)

lemma retry_runs:
  fixes s :: "('a, 'b) system"
  assumes pick: "Pick (cpool (chk s)) r1 r2 = Some i"
    and within: "world_within (e_first env) \<Delta> s" "world_within (e_retry env) \<Delta>' s"
    and f: "forward_with_retry env h r w route (cpool (chk s)) i rid subject = (f, sent)"
  shows "\<exists>s'. system_step\<^sup>*\<^sup>* s s' \<and> cpool (chk s') = f_pool f
     \<and> after_attempts [\<Delta>, \<Delta>'] (length sent) (phases s) (phases s')"
proof -
  define f1 where "f1 = forward (e_first env) h r w route (cpool (chk s)) i rid subject"
  from picked_runs [OF pick within(1) f1_def] obtain s1 where s1: "system_step\<^sup>*\<^sup>* s s1" "cpool (chk s1) = f_pool f1"
    "phases s1 = (if length (f_sent f1) = 0 then phases s else \<Delta> (phases s))" by auto
  have l1: "length (f_sent f1) \<le> 1" by (rule forward_facts(3) [OF f1_def refl])
  show ?thesis
  proof (cases rule: forward_with_retry_cases [OF f f1_def, case_names once twice])
    case once
    with s1 after_attempts_once [OF l1, of \<Delta> \<Delta>' "phases s"] show ?thesis by auto
  next
    case (twice err alt f2)
    have "Pick (cpool (chk s1)) (fst (e_pick' env)) (snd (e_pick' env)) = Some alt" using twice(3) s1(2) by simp
    from picked_runs [OF this world_within_later [OF within(2) s1(1)] twice(5) [folded s1(2)]]
    obtain s2 where s2: "system_step\<^sup>*\<^sup>* s1 s2" "cpool (chk s2) = f_pool f2"
      "phases s2 = (if length (f_sent f2) = 0 then phases s1 else \<Delta>' (phases s1))" by auto
    have "length (f_sent f2) \<le> 1" by (rule forward_facts(3) [OF twice(5) refl])
    from after_attempts_twice [OF l1 this, of \<Delta> \<Delta>' "phases s"]
    have "after_attempts [\<Delta>, \<Delta>'] (length sent) (phases s) (phases s2)"
      unfolding twice(7) s2(3) s1(3) by (simp only: Let_def length_append length_map)
    with s1(1) s2(1,2) twice(6) show ?thesis by (auto intro!: exI [of _ s2] rtranclp_trans [of system_step s s1])
  qed
qed

section \<open>Properties\<close>

text \<open>
  C28: the in-flight counters under concurrency.  In every state the running gateway can
  reach, by any interleaving of any number of requests, retries, probes and ticks, the
  counter of a backend is the number of requests between its acquisition and its release,
  modulo the width of the counter; so below 2^63 - 1 concurrent requests the load factor of
  \<^verbatim>\<open>score\<close> is one more than that number, and with no request in the gateway every counter is zero.
  The hysteresis of the health bits holds in the same states.
\<close>

theorem concurrent_inflight:
  assumes "distinct (map cb_ID cfg)"
    and "system_step\<^sup>*\<^sup>* (system_init (NewChecker tlsCfg path iv) (NewPool service cfg)) s"
    and "i < length (backends (cpool (chk s)))"
  shows "(let b = backends (cpool (chk s)) ! i in
     Inflight b = of_nat (in_flight s i)
     \<and> (in_flight s i < 2 ^ 63 - 1 \<longrightarrow> sint (Inflight b + 1) = int (in_flight s i) + 1)
     \<and> (phases s = {#} \<longrightarrow> Inflight b = 0)
     \<and> healthy b = decided_up (results (chk s) i))"
proof -
  let ?b = "backends (cpool (chk s)) ! i"
  have n: "Inflight ?b = of_nat (in_flight s i)"
    using system_inv_reachable [OF assms(2)] assms(3) by (simp add: system_inv_def Inflight_def)
  have "sint (Inflight ?b + 1) = int (in_flight s i) + 1" if "in_flight s i < 2 ^ 63 - 1"
    using n that by (rule load_factor)
  moreover have "Inflight ?b = 0" if "phases s = {#}" using that by (simp add: n in_flight_def)
  moreover have "healthy ?b = decided_up (results (chk s) i)"
    by (rule checker_inv_healthy [OF checker_inv_reachable [OF system_checker_reachable [OF assms(2)] assms(1)] assms(3)])
  ultimately show ?thesis using n by (simp add: Let_def)
qed

text \<open>
  C29: the request path runs inside the system.  Whatever \<^verbatim>\<open>ServeHTTP\<close> does with a request for
  a route, refuse it, answer it, retry it or panic, is a run of the concurrent system of that
  route's service: it ends with exactly the pool \<^verbatim>\<open>ServeHTTP\<close> leaves, with this request gone
  and the others where the world's own steps have taken them during the attempts that were
  sent, so the in-flight counts balance on every branch.  No other service is touched.
\<close>

theorem request_refines_system:
  fixes s :: "('a, 'b) system"
  assumes "match_route (routes h) (rq_Path r) = Some route"
    and "pools st (re_service route) = Some (cpool (chk s))"
    and "world_within (e_first env) \<Delta> s" and "world_within (e_retry env) \<Delta>' s"
    and "res = ServeHTTP lib cas env h st w r"
  shows "\<exists>s'. system_step\<^sup>*\<^sup>* s s'
     \<and> pools (sv_state res) = (pools st)(re_service route \<mapsto> cpool (chk s'))
     \<and> after_attempts [\<Delta>, \<Delta>'] (length (sv_sent res)) (phases s) (phases s')"
proof -
  have idle: ?thesis if "pools (sv_state res) = pools st" "sv_sent res = []"
    using that assms(2) after_attempts_once [of 0 \<Delta> \<Delta>' "phases s"] by (intro exI [of _ s]) (simp add: fun_upd_idem)
  show ?thesis
  proof (cases rule: ServeHTTP_cases [of h r lib cas env st w])
    case (admit route' key c nst')
    have rt: "route' = route" using admit(1) assms(1) by (simp add: admitted_def)
    have sent: ?thesis if i: "Pick (cpool (chk s)) (fst (e_pick env)) (snd (e_pick env)) = Some i"
      and f: "forward_with_retry env h r (identified env w) route (cpool (chk s)) i (request_id env) (sub key) = (f, sent)"
      and res: "pools (sv_state res) = (pools st)(re_service route \<mapsto> f_pool f)" "sv_sent res = sent" for i f sent
      using retry_runs [OF i assms(3,4) f] res by auto
    show ?thesis
      by (cases rule: route_admitted_cases [of "st\<lparr>nonces := nst'\<rparr>" route env h "identified env w" r
            "request_id env" "sub key" c])
         (use assms(2,5) admit(2) rt idle sent in \<open>auto simp: denied_def\<close>)
  qed (use idle assms(5) in \<open>simp_all add: denied_def\<close>)
qed

text \<open>A gateway with one backend and one request on its way to it.\<close>

definition lone_cfg :: "CfgBackend list" where
  "lone_cfg = [\<lparr>cb_ID = ''a'', cb_Addr = ''https://a:1''\<rparr>]"

definition lone_start :: "(nat, nat) system" where
  "lone_start = system_init (NewChecker demo_tls ''/healthz'' (2 * second)) (NewPool ''s'' lone_cfg)"

definition lone_chosen :: "(nat, nat) system" where
  "lone_chosen = advance {#} {#Chosen 0#} lone_start"

definition lone_sending :: "(nat, nat) system" where
  "lone_sending = advance {#Chosen 0#} {#Sending 0#} (touch Acquire 0 lone_chosen)"

lemma lone_reachable: "system_step\<^sup>*\<^sup>* lone_start lone_chosen" "system_step\<^sup>*\<^sup>* lone_start lone_sending"
proof -
  have "Pick (cpool (chk lone_start)) 0 0 = Some 0"
    by (simp add: lone_start_def system_init_def Run_init_def tick_def Pick_def Healthy_def All_def IsHealthy_def
        NewPool_def lone_cfg_def new_backend_def)
  then have b: "system_step lone_start lone_chosen" unfolding lone_chosen_def by (rule Begin)
  moreover have "system_step lone_chosen lone_sending"
    unfolding lone_sending_def by (rule Start) (simp add: lone_chosen_def)
  ultimately show "system_step\<^sup>*\<^sup>* lone_start lone_chosen" "system_step\<^sup>*\<^sup>* lone_start lone_sending" by auto
qed

theorem concurrent_inflight_witness:
  "in_flight lone_sending 0 = 1 \<and> Inflight (backends (cpool (chk lone_sending)) ! 0) = 1
   \<and> healthy (backends (cpool (chk lone_sending)) ! 0)"
proof -
  have f: "in_flight lone_sending 0 = 1"
    by (simp add: in_flight_def lone_sending_def lone_chosen_def lone_start_def system_init_def)
  have r: "results (chk lone_sending) 0 = []"
    by (simp add: lone_sending_def lone_chosen_def lone_start_def system_init_def Run_init_def tick_def touch_def advance_def)
  have "distinct (map cb_ID lone_cfg)" "0 < length (backends (cpool (chk lone_sending)))"
    by (simp_all add: lone_cfg_def lone_sending_def lone_chosen_def lone_start_def system_init_def Run_init_def tick_def NewPool_def)
  from concurrent_inflight [OF this(1) lone_reachable(2) [unfolded lone_start_def] this(2)] f r
  show ?thesis by (simp add: Let_def)
qed

text \<open>The demo request, retried on the second backend, in the system of its service.\<close>

definition demo_system :: "(nat, nat) system" where
  "demo_system = system_init (NewChecker demo_tls ''/healthz'' (2 * second)) demo_llm"

lemma demo_within: "world_within demo_attempt (\<lambda>ps. ps) s"
  proof -
  have "world_runs demo_attempt i s1 s1 (recorded demo_attempt i s1)
      \<and> phases (recorded demo_attempt i s1) = add_mset (Outcome i) (phases s1 - {#Sending i#})"
    if "Sending i \<in># phases s1" for i s1
    using that by (simp add: world_runs_def recorded_def demo_attempt_def)
  then show ?thesis unfolding world_within_def by blast
qed

theorem request_refines_system_witness:
  "\<exists>s'. system_step\<^sup>*\<^sup>* demo_system s' \<and> pools (sv_state demo_served) = [''llm'' \<mapsto> cpool (chk s')] \<and> phases s' = {#}"
proof -
  have p: "pools demo_gw (re_service demo_route) = Some (cpool (chk demo_system))"
    by (simp add: Request_Path.demo_pool demo_system_def system_init_def Run_init_def tick_def)
  have "world_within (e_first demo_env) (\<lambda>ps. ps) demo_system" "world_within (e_retry demo_env) (\<lambda>ps. ps) demo_system"
    by (simp_all add: demo_env_simps demo_within)
  from request_refines_system [OF demo_match p this demo_served_def] obtain s' where s': "system_step\<^sup>*\<^sup>* demo_system s'"
    "pools (sv_state demo_served) = (pools demo_gw)(re_service demo_route \<mapsto> cpool (chk s'))"
    "after_attempts [\<lambda>ps. ps, \<lambda>ps. ps] (length (sv_sent demo_served)) (phases demo_system) (phases s')" by blast
  have "fold (\<lambda>d. d) ds ps = ps" if "subseq ds [\<lambda>ps. ps, \<lambda>ps. ps]" for ds and ps :: "phase multiset"
  proof -
    have "\<forall>d \<in> set ds. d = (\<lambda>ps. ps)" using that by (auto elim: list_emb_set)
    then show ?thesis by (induction ds) auto
  qed
  with s'(3) have "phases s' = {#}"
    by (auto simp: after_attempts_def demo_system_def system_init_def)
  with s'(1,2) show ?thesis by (auto simp: demo_gw_def demo_route_def)
qed

end
