(* ===== verification/Gateway_Main.thy ===== *)
theory Gateway_Main
  imports Request_Path Health_Checker
begin

text \<open>
  \<^verbatim>\<open>cmd/gateway/main.go\<close>: start-up.  \<^verbatim>\<open>main\<close> is modelled up to the point where the servers and
  the checkers are started: it ends the process with a cause, or yields the running gateway,
  the handler with its pools and nonce store, one checker per configured service, and the
  two listeners.  The environment, the files, the YAML parser, Redis and the key material
  are parameters.  What follows, the running process and its end, is \<^verbatim>\<open>Gateway_Lifecycle\<close>.
\<close>

section \<open>Data\<close>

text \<open>The \<^verbatim>\<open>auth.NonceStore\<close> interface value: which implementation is behind it, and its state.\<close>

datatype 'r nonce_backend = MemStore nonceCache | RedisStore 'r

datatype exit_cause =
    ConfigLoadFailed config_error
  | RedisInitFailed redis_init_error
  | AuthInitFailed register_error
  | BackendTLSFailed string tls_error

record server =
  srv_name :: string
  srv_addr :: string
  srv_cert :: string
  srv_key :: string

record ('pool, 'cert, 'r) gateway =
  g_handler :: "('pool, 'cert) Handler"
  g_state :: "'r nonce_backend gw_state"
  g_checkers :: "(('pool, 'cert) Checker \<times> Pool) list"
  g_servers :: "server list"
  g_logs :: "log_line list"

text \<open>What start-up reads from outside; the answer of Redis may change from one attempt to the next.\<close>

record ('pool, 'cert, 'opt, 'r) outside =
  os_Getenv :: "string \<Rightarrow> string"
  read_config :: "string \<Rightarrow> string + bytes"
  yaml_parse :: "bytes \<Rightarrow> string + yaml"
  time_ParseDuration :: "string \<Rightarrow> duration option"
  redis_ParseURL :: "string \<Rightarrow> string + 'opt"
  redis_NewClient :: "'opt \<Rightarrow> 'r"
  redis_Ping :: "nat \<Rightarrow> 'r \<Rightarrow> string option"
  key_files :: "('pool, 'cert) tls_files"

definition yaml_Unmarshal :: "('pool, 'cert, 'opt, 'r) outside \<Rightarrow> bytes \<Rightarrow> string + Config" where
  "yaml_Unmarshal os = Config_Unmarshal (yaml_parse os) (time_ParseDuration os)"

section \<open>Operations\<close>

definition envOr :: "(string \<Rightarrow> string) \<Rightarrow> string \<Rightarrow> string \<Rightarrow> string" where
  "envOr getenv k def = (let v = getenv k in if v \<noteq> '''' then v else def)"

definition info :: "string \<Rightarrow> (string \<times> log_value) list \<Rightarrow> log_line" where
  "info msg attrs = \<lparr>ll_level = Info, ll_msg = msg, ll_attrs = attrs\<rparr>"

definition key_registrations :: "Config \<Rightarrow> KeyRegistration list" where
  "key_registrations cfg =
     map (\<lambda>k. \<lparr>reg_Kid = ck_Kid k, PubBase64 = ck_PubBase64 k, Subject = ck_Subject k, Scopes = ck_Scopes k\<rparr>)
       (ClientKeys cfg)"

fun redis_error_text :: "redis_init_error \<Rightarrow> string" where
  "redis_error_text (Redis_Nonce.RedisURL e) = ''redis url: '' @ e"
| "redis_error_text (RedisPing e) = ''redis ping: '' @ e"

definition redis_retry_line :: "nat \<Rightarrow> redis_init_error \<Rightarrow> log_line" where
  "redis_retry_line attempt err =
     \<lparr>ll_level = Warn, ll_msg = ''redis not ready, retrying'',
      ll_attrs = [(''attempt'', LInt (int attempt)), (''err'', LStr (redis_error_text err))]\<rparr>"

text \<open>
  The connection loop from one attempt number on: the store or the last error, the warnings,
  and the pauses.  It starts at attempt 1, so its initial value is never returned.
\<close>

function redis_connect ::
  "(nat \<Rightarrow> redis_init_error + 'r) \<Rightarrow> redis_init_error + 'r \<Rightarrow> nat
   \<Rightarrow> (redis_init_error + 'r) \<times> log_line list \<times> duration list" where
  "redis_connect conn prev attempt =
     (if attempt \<le> 10 then
        (case conn attempt of
           Inr rs \<Rightarrow> (Inr rs, [], [])
         | Inl err \<Rightarrow>
             (let (res, logs, pauses) = redis_connect conn (Inl err) (attempt + 1)
              in (res, redis_retry_line attempt err # logs, of_nat attempt * second # pauses)))
      else (prev, [], []))"
  by pat_completeness auto
termination by (relation "measure (\<lambda>(conn, prev, attempt). 11 - attempt)") auto

definition open_nonce_store ::
  "('pool, 'cert, 'opt, 'r) outside \<Rightarrow> Config \<Rightarrow> (redis_init_error + 'r nonce_backend) \<times> log_line list \<times> duration list" where
  "open_nonce_store os cfg =
     (if Config.RedisURL cfg \<noteq> '''' then
        (let conn = (\<lambda>n. NewRedisNonceStore (redis_ParseURL os) (redis_NewClient os) (redis_Ping os n) (Config.RedisURL cfg));
             (res, logs, pauses) = redis_connect conn (conn 1) 1
         in case res of
              Inl err \<Rightarrow> (Inl err, logs, pauses)
            | Inr rs \<Rightarrow> (Inr (RedisStore rs),
                logs @ [info ''nonce store'' [(''backend'', LStr ''redis''), (''url'', LStr (Config.RedisURL cfg))]], pauses))
      else (Inr (MemStore (NewInMemoryNonceStore (NonceTTL cfg))),
            [info ''nonce store'' [(''backend'', LStr ''in-memory''), (''ttl'', LInt (sint (NonceTTL cfg)))]], []))"

text \<open>The dispatch of the interface method.\<close>

fun store_CheckAndStore :: "'r setnx \<Rightarrow> gotime \<Rightarrow> 'r nonce_backend \<Rightarrow> string \<Rightarrow> gotime \<Rightarrow> bool \<times> 'r nonce_backend" where
  "store_CheckAndStore setNX now (MemStore c) jti ex = map_prod (\<lambda>ok. ok) MemStore (CheckAndStore now c jti ex)"
| "store_CheckAndStore setNX now (RedisStore r) jti ex = map_prod (\<lambda>ok. ok) RedisStore (Redis_CheckAndStore setNX now r jti ex)"

definition health_path :: "CfgService \<Rightarrow> string" where
  "health_path svc = (let hp = svc_HealthPath svc in if hp = '''' then ''/healthz'' else hp)"

text \<open>The loop over the services, which fills the two maps and starts the checkers.\<close>

fun start_services ::
  "('pool, 'cert) tls_files \<Rightarrow> Config \<Rightarrow> CfgService list
   \<Rightarrow> (string \<rightharpoonup> Pool) \<times> (string \<rightharpoonup> ('pool, 'cert) http_Client) \<times> (('pool, 'cert) Checker \<times> Pool) list \<times> log_line list
   \<Rightarrow> exit_cause + ((string \<rightharpoonup> Pool) \<times> (string \<rightharpoonup> ('pool, 'cert) http_Client)
        \<times> (('pool, 'cert) Checker \<times> Pool) list \<times> log_line list)" where
  "start_services fs cfg [] acc = Inr acc"
| "start_services fs cfg (svc # svcs) (ps, cls, chks, logs) =
     (case BackendTLS fs (CACertPath cfg) (GatewayCertPath cfg) (GatewayKeyPath cfg) (svc_Name svc) of
        Inl err \<Rightarrow> Inl (BackendTLSFailed (svc_Name svc) err)
      | Inr tlsCfg \<Rightarrow>
          let pool = NewPool (svc_Name svc) (svc_Backends svc);
              hp = health_path svc;
              chk = NewChecker tlsCfg hp (2 * second);
              line = info ''service registered''
                [(''service'', LStr (svc_Name svc)), (''backends'', LInt (int (length (svc_Backends svc)))),
                 (''health_path'', LStr hp)]
          in start_services fs cfg svcs
               (ps(svc_Name svc \<mapsto> pool), cls(svc_Name svc \<mapsto> NewBackendClient tlsCfg),
                chks @ [(chk, pool)], logs @ [line]))"

definition gateway_main :: "('pool, 'cert, 'opt, 'r) outside \<Rightarrow> exit_cause + ('pool, 'cert, 'r) gateway" where
  "gateway_main os =
     (let cfgPath = envOr (os_Getenv os) ''GATEWAY_CONFIG'' ''/etc/gateway/config.yaml'' in
      case Load (read_config os) (yaml_Unmarshal os) cfgPath of
        Inl err \<Rightarrow> Inl (ConfigLoadFailed err)
      | Inr cfg \<Rightarrow>
      (let loaded = info ''config loaded''
             [(''path'', LStr cfgPath), (''services'', LInt (int (length (Services cfg)))),
              (''routes'', LInt (int (length (Routes cfg)))), (''client_keys'', LInt (int (length (ClientKeys cfg))))];
           (store, store_logs, _) = open_nonce_store os cfg
       in case store of
            Inl err \<Rightarrow> Inl (RedisInitFailed err)
          | Inr nonceStore \<Rightarrow>
       (case NewVerifierWithStore (key_registrations cfg) (cfg_Issuer cfg) (cfg_Audience cfg) of
          Inl err \<Rightarrow> Inl (AuthInitFailed err)
        | Inr verifier \<Rightarrow>
       (case start_services (key_files os) cfg (Services cfg) (Map.empty, Map.empty, [], []) of
          Inl cause \<Rightarrow> Inl cause
        | Inr (ps, cls, chks, svc_logs) \<Rightarrow>
            Inr \<lparr>g_handler = NewHandler cfg cls verifier,
                 g_state = \<lparr>pools = ps, nonces = nonceStore\<rparr>,
                 g_checkers = chks,
                 g_servers = [\<lparr>srv_name = ''metrics'', srv_addr = MetricsAddr cfg, srv_cert = '''', srv_key = ''''\<rparr>,
                              \<lparr>srv_name = ''gateway'', srv_addr = ListenAddr cfg,
                               srv_cert = ListenCertPath cfg, srv_key = ListenKeyPath cfg\<rparr>],
                 g_logs = loaded # store_logs @ svc_logs\<rparr>))))"

text \<open>
  \<^verbatim>\<open>serve\<close>: TLS exactly when both files are named.  The listener's result is the error it returns,
  with whether it is \<^verbatim>\<open>http.ErrServerClosed\<close>; any other error ends the process.
\<close>

datatype listen_call = ListenAndServeTLS string string | ListenAndServe

definition serve :: "(listen_call \<Rightarrow> (bool \<times> string) option) \<Rightarrow> server \<Rightarrow> log_line list \<times> bool" where
  "serve run s =
     (let tls = (srv_cert s \<noteq> '''' \<and> srv_key s \<noteq> '''');
          listening = info ''listening'' [(''server'', LStr (srv_name s)), (''addr'', LStr (srv_addr s)),
            (''tls'', LBool tls)];
          err = run (if tls then ListenAndServeTLS (srv_cert s) (srv_key s) else ListenAndServe)
      in case err of
           Some (is_closed, msg) \<Rightarrow>
             if \<not> is_closed
             then ([listening, \<lparr>ll_level = Error, ll_msg = ''server exited'',
                      ll_attrs = [(''server'', LStr (srv_name s)), (''err'', LStr msg)]\<rparr>], True)
             else ([listening], False)
         | None \<Rightarrow> ([listening], False))"

section \<open>The connection loop\<close>

declare redis_connect.simps [simp del]

text \<open>From an attempt on, up to the first that succeeds, or through the tenth.\<close>

lemma redis_connect_success:
  assumes "a \<le> k" and "k \<le> 10" and "\<forall>j. a \<le> j \<and> j < k \<longrightarrow> \<not> (\<exists>rs. conn j = Inr rs)" and "conn k = Inr rs"
  shows "\<exists>logs. redis_connect conn prev a = (Inr rs, logs, map (\<lambda>j. of_nat j * second) [a..<k]) \<and> length logs = k - a"
  using assms
proof (induction "k - a" arbitrary: a prev)
  case 0
  then show ?case by (simp add: redis_connect.simps [of conn prev a])
next
  case (Suc n)
  then have k: "n = k - Suc a" "Suc a \<le> k" by simp_all
  with Suc.prems(3) obtain err where err: "conn a = Inl err" by (metis Suc_le_eq order_refl sum.exhaust)
  note this = k
  from Suc.hyps(1) [OF this Suc.prems(2) _ Suc.prems(4), of "Inl err"] Suc.prems(3)
  obtain logs where "redis_connect conn (Inl err) (Suc a) = (Inr rs, logs, map (\<lambda>j. of_nat j * second) [Suc a..<k])"
    "length logs = k - Suc a" by auto
  then show ?case
    using Suc.prems(1,2) \<open>Suc a \<le> k\<close> err
    by (simp add: redis_connect.simps [of conn prev a] upt_conv_Cons)
qed

lemma redis_connect_failure:
  assumes "a \<le> 10" and "\<forall>j. a \<le> j \<and> j \<le> 10 \<longrightarrow> \<not> (\<exists>rs. conn j = Inr rs)"
  shows "\<exists>logs. redis_connect conn prev a = (conn 10, logs, map (\<lambda>j. of_nat j * second) [a..<11]) \<and> length logs = 11 - a"
  using assms
proof (induction "10 - a" arbitrary: a prev)
  case 0
  then have a: "a = 10" by simp
  then obtain err where "conn 10 = Inl err" using 0 by (metis order_refl sum.exhaust)
  then show ?case by (simp add: a redis_connect.simps [of conn prev 10] redis_connect.simps [of conn "Inl err" 11])
next
  case (Suc n)
  then obtain err where err: "conn a = Inl err" by (metis order_refl sum.exhaust)
  from Suc have "n = 10 - Suc a" "Suc a \<le> 10" by simp_all
  from Suc.hyps(1) [OF this, of "Inl err"] Suc.prems(2)
  obtain logs where "redis_connect conn (Inl err) (Suc a) = (conn 10, logs, map (\<lambda>j. of_nat j * second) [Suc a..<11])"
    "length logs = 11 - Suc a" by auto
  then show ?case
    using Suc.prems(1) \<open>Suc a \<le> 10\<close> err
    by (simp add: redis_connect.simps [of conn prev a] upt_conv_Cons)
qed

section \<open>The wiring of the services\<close>

text \<open>
  What the service loop maintains about the two maps and the checkers, for the TLS
  configuration \<^verbatim>\<open>T n\<close> of each name and the services handled so far.
\<close>

definition wired ::
  "(string \<Rightarrow> ('pool, 'cert) tls_Config) \<Rightarrow> CfgService set \<Rightarrow> (string \<rightharpoonup> Pool) \<Rightarrow> (string \<rightharpoonup> ('pool, 'cert) http_Client)
   \<Rightarrow> (('pool, 'cert) Checker \<times> Pool) list \<Rightarrow> bool" where
  "wired T S ps cls chks \<longleftrightarrow>
     dom ps = svc_Name ` S \<and> dom cls = svc_Name ` S
     \<and> (\<forall>n client. cls n = Some client \<longrightarrow> TLSClientConfig client = T n)
     \<and> (\<forall>n p. ps n = Some p \<longrightarrow> (\<exists>svc \<in> S. svc_Name svc = n \<and> p = NewPool n (svc_Backends svc)
          \<and> (NewChecker (T n) (health_path svc) (2 * second), p) \<in> set chks))"

lemma start_services_wired:
  assumes "start_services fs cfg svcs (ps, cls, chks, logs) = Inr (ps', cls', chks', logs')"
    and "\<And>n t. BackendTLS fs (CACertPath cfg) (GatewayCertPath cfg) (GatewayKeyPath cfg) n = Inr t \<Longrightarrow> t = T n"
    and "wired T S ps cls chks"
  shows "wired T (S \<union> set svcs) ps' cls' chks'"
  using assms(1,3)
proof (induction svcs arbitrary: ps cls chks logs S)
  case (Cons svc svcs)
  from Cons.prems(1) obtain t where t: "BackendTLS fs (CACertPath cfg) (GatewayCertPath cfg) (GatewayKeyPath cfg) (svc_Name svc) = Inr t"
    by (auto split: sum.splits)
  with assms(2) have tT: "t = T (svc_Name svc)" by simp
  have "wired T (insert svc S) (ps(svc_Name svc \<mapsto> NewPool (svc_Name svc) (svc_Backends svc)))
      (cls(svc_Name svc \<mapsto> NewBackendClient t)) (chks @ [(NewChecker t (health_path svc) (2 * second), NewPool (svc_Name svc) (svc_Backends svc))])"
    using Cons.prems(2) unfolding wired_def tT by (auto simp: NewBackendClient_def) blast
  note step = Cons.IH [OF _ this]
  from Cons.prems(1) [unfolded start_services.simps t sum.case Let_def, THEN step] show ?case by simp
qed simp

lemma gateway_main_Inr:
  assumes "gateway_main os = Inr g"
  obtains cfg verifier ps cls chks svc_logs where
    "Load (read_config os) (yaml_Unmarshal os) (envOr (os_Getenv os) ''GATEWAY_CONFIG'' ''/etc/gateway/config.yaml'') = Inr cfg"
    "NewVerifierWithStore (key_registrations cfg) (cfg_Issuer cfg) (cfg_Audience cfg) = Inr verifier"
    "start_services (key_files os) cfg (Services cfg) (Map.empty, Map.empty, [], []) = Inr (ps, cls, chks, svc_logs)"
    "g_handler g = NewHandler cfg cls verifier" "pools (g_state g) = ps" "g_checkers g = chks"
    "fst (open_nonce_store os cfg) = Inr (nonces (g_state g))"
  using assms unfolding gateway_main_def Let_def
  by (auto split: go_split)

lemma gateway_wired:
  assumes "gateway_main os = Inr g"
  obtains cfg raw ca kp where
    "Load (read_config os) (yaml_Unmarshal os) (envOr (os_Getenv os) ''GATEWAY_CONFIG'' ''/etc/gateway/config.yaml'') = Inr cfg"
    "map re_service (routes (g_handler g)) = map rt_Service (Routes cfg)"
    "wired (\<lambda>n. \<lparr>MinVersion = VersionTLS12, RootCAs = ca, Certificates = [kp], ServerName = n\<rparr>)
       (set (Services cfg)) (pools (g_state g)) (clients (g_handler g)) (g_checkers g)"
    "os_ReadFile (key_files os) (CACertPath cfg) = Inr raw" "AppendCertsFromPEM (key_files os) raw = Some ca"
    "LoadX509KeyPair (key_files os) (GatewayCertPath cfg) (GatewayKeyPath cfg) = Inr kp"
proof (rule gateway_main_Inr [OF assms])
  fix cfg verifier ps cls chks logs
  let ?fs = "key_files os"
  assume l: "Load (read_config os) (yaml_Unmarshal os) (envOr (os_Getenv os) ''GATEWAY_CONFIG'' ''/etc/gateway/config.yaml'') = Inr cfg"
    and ss: "start_services ?fs cfg (Services cfg) (Map.empty, Map.empty, [], []) = Inr (ps, cls, chks, logs)"
    and g: "g_handler g = NewHandler cfg cls verifier" "pools (g_state g) = ps" "g_checkers g = chks"
  have "Services cfg \<noteq> []" using l by (auto simp: Load_cases with_defaults_def split: go_split)
  then obtain svc svcs where svcs: "Services cfg = svc # svcs" by (cases "Services cfg") auto
  obtain t where "BackendTLS ?fs (CACertPath cfg) (GatewayCertPath cfg) (GatewayKeyPath cfg) (svc_Name svc) = Inr t"
    using ss svcs by (auto split: sum.splits)
  then obtain raw ca kp where k: "os_ReadFile ?fs (CACertPath cfg) = Inr raw" "AppendCertsFromPEM ?fs raw = Some ca"
    "LoadX509KeyPair ?fs (GatewayCertPath cfg) (GatewayKeyPath cfg) = Inr kp"
    by (auto simp: BackendTLS_Inr_iff)
  let ?T = "\<lambda>n. \<lparr>MinVersion = VersionTLS12, RootCAs = ca, Certificates = [kp], ServerName = n\<rparr>"
  have "wired ?T ({} \<union> set (Services cfg)) ps cls chks"
    by (rule start_services_wired [OF ss]) (use k in \<open>auto simp: BackendTLS_Inr_iff wired_def\<close>)
  then show thesis
    by (intro that [OF l _ _ k]) (use g in \<open>simp_all add: NewHandler_def\<close>)
qed

section \<open>Properties\<close>

definition demo_config :: Config where
  "demo_config = \<lparr>ListenAddr = '''', MetricsAddr = '''', cfg_Issuer = ''secure-svc-gw'', cfg_Audience = ''secure-svc-gw'',
     NonceTTL = 0, RedisURL = '''', ListenCertPath = '''', ListenKeyPath = '''', CACertPath = ''ca'',
     GatewayCertPath = ''crt'', GatewayKeyPath = ''key'',
     ClientKeys = [\<lparr>ck_Kid = ''k-intern'', ck_PubBase64 = ''a2tra2tra2tra2tra2tra2tra2tra2tra2tra2tra2s='',
       ck_Subject = ''intern'', ck_Scopes = []\<rparr>],
     Services = [\<lparr>svc_Name = ''llm'', svc_HealthPath = '''',
       svc_Backends = [\<lparr>cb_ID = ''llm-1'', cb_Addr = ''https://llm-1:9001''\<rparr>]\<rparr>],
     Routes = [\<lparr>rt_Prefix = ''/v1/llm'', rt_Service = ''llm'', rt_RequiredScope = ''llm:invoke''\<rparr>]\<rparr>"

text \<open>The document of this configuration; it leaves out what is empty.\<close>

definition demo_document :: yaml where
  "demo_document = YMap [(''issuer'', YScalar ''secure-svc-gw''), (''audience'', YScalar ''secure-svc-gw''),
     (''ca_cert'', YScalar ''ca''), (''gateway_cert'', YScalar ''crt''), (''gateway_key'', YScalar ''key''),
     (''client_keys'', YSeq [YMap [(''kid'', YScalar ''k-intern''),
        (''pub'', YScalar ''a2tra2tra2tra2tra2tra2tra2tra2tra2tra2tra2s=''), (''sub'', YScalar ''intern'')]]),
     (''services'', YSeq [YMap [(''name'', YScalar ''llm''),
        (''backends'', YSeq [YMap [(''id'', YScalar ''llm-1''), (''addr'', YScalar ''https://llm-1:9001'')]])]]),
     (''routes'', YSeq [YMap [(''prefix'', YScalar ''/v1/llm''), (''service'', YScalar ''llm''),
        (''required_scope'', YScalar ''llm:invoke'')]])]"

lemma demo_decoded: "decode_Config dur demo_document = Some demo_config"
  by (simp add: demo_document_def demo_config_def decode_Config_def decode_defs)

definition demo_outside :: "(nat, nat, nat, redis_model) outside" where
  "demo_outside = \<lparr>os_Getenv = (\<lambda>_. ''''), read_config = (\<lambda>_. Inr ''yaml''), yaml_parse = (\<lambda>_. Inr demo_document),
     time_ParseDuration = (\<lambda>_. None),
     redis_ParseURL = (\<lambda>_. Inl ''no''), redis_NewClient = (\<lambda>_. demo_redis), redis_Ping = (\<lambda>_ _. None),
     key_files = \<lparr>os_ReadFile = (\<lambda>_. Inr ''pem''), AppendCertsFromPEM = (\<lambda>_. Some 7), LoadX509KeyPair = (\<lambda>_ _. Inr 9)\<rparr>\<rparr>"

lemma demo_Unmarshal: "yaml_Unmarshal demo_outside raw = Inr demo_config"
  by (simp add: yaml_Unmarshal_def Config_Unmarshal_def yaml_Unmarshal_with_def demo_outside_def demo_decoded)

lemma demo_read: "read_config demo_outside path = Inr ''yaml''"
  by (simp add: demo_outside_def)

lemma demo_starts: "\<exists>g. gateway_main demo_outside = Inr g"
proof -
  have v: "\<exists>v. NewVerifierWithStore (key_registrations (with_defaults demo_config)) (cfg_Issuer (with_defaults demo_config))
      (cfg_Audience (with_defaults demo_config)) = Inr v"
  proof -
    have "list_all valid_registration (key_registrations (with_defaults demo_config))" by code_simp
    then have "\<exists>m. register_keys Map.empty (key_registrations (with_defaults demo_config)) = Inr m"
      using register_keys_Inr by blast
    then show ?thesis by (auto simp: NewVerifierWithStore_def key_registrations_def with_defaults_def demo_config_def)
  qed
  have "Load (read_config demo_outside) (yaml_Unmarshal demo_outside) p = Inr (with_defaults demo_config)" for p
    by (simp add: Load_cases demo_read demo_Unmarshal) (simp add: demo_config_def)
  moreover have "Config.RedisURL (with_defaults demo_config) = ''''" "Services (with_defaults demo_config) = Services demo_config"
    by (simp_all add: with_defaults_def demo_config_def)
  ultimately show ?thesis
    using v by (auto simp: gateway_main_def Let_def open_nonce_store_def demo_outside_def demo_config_def BackendTLS_def)
qed

text \<open>
  C13: the wiring of a started gateway.  Its pools and its clients are those of the configured
  services; every client trusts only the private CA, the certificates of the file the
  configuration names as \<^verbatim>\<open>ca_cert\<close>, speaks at least TLS 1.2, presents the gateway's own key pair
  and expects the certificate of its own service; and every pool that serves traffic is probed
  over exactly the TLS configuration its requests use.
\<close>

theorem gateway_wiring:
  assumes "gateway_main os = Inr g"
  shows "\<exists>cfg raw ca kp.
     Load (read_config os) (yaml_Unmarshal os) (envOr (os_Getenv os) ''GATEWAY_CONFIG'' ''/etc/gateway/config.yaml'') = Inr cfg
     \<and> dom (pools (g_state g)) = svc_Name ` set (Services cfg)
     \<and> dom (clients (g_handler g)) = svc_Name ` set (Services cfg)
     \<and> os_ReadFile (key_files os) (CACertPath cfg) = Inr raw \<and> AppendCertsFromPEM (key_files os) raw = Some ca
     \<and> LoadX509KeyPair (key_files os) (GatewayCertPath cfg) (GatewayKeyPath cfg) = Inr kp
     \<and> (\<forall>n client. clients (g_handler g) n = Some client \<longrightarrow>
          TLSClientConfig client = \<lparr>MinVersion = VersionTLS12, RootCAs = ca, Certificates = [kp], ServerName = n\<rparr>)
     \<and> (\<forall>n p. pools (g_state g) n = Some p \<longrightarrow>
          (\<exists>svc \<in> set (Services cfg). svc_Name svc = n \<and> p = NewPool n (svc_Backends svc))
          \<and> (\<exists>chk client. (chk, p) \<in> set (g_checkers g) \<and> clients (g_handler g) n = Some client
               \<and> TLSClientConfig (ck_client chk) = TLSClientConfig client))"
proof (rule gateway_wired [OF assms])
  fix cfg raw and ca :: 'a and kp :: 'b
  let ?T = "\<lambda>n. \<lparr>MinVersion = VersionTLS12, RootCAs = ca, Certificates = [kp], ServerName = n\<rparr>"
  assume l: "Load (read_config os) (yaml_Unmarshal os) (envOr (os_Getenv os) ''GATEWAY_CONFIG'' ''/etc/gateway/config.yaml'') = Inr cfg"
    and w: "wired ?T (set (Services cfg)) (pools (g_state g)) (clients (g_handler g)) (g_checkers g)"
    and kp: "os_ReadFile (key_files os) (CACertPath cfg) = Inr raw" "AppendCertsFromPEM (key_files os) raw = Some ca"
      "LoadX509KeyPair (key_files os) (GatewayCertPath cfg) (GatewayKeyPath cfg) = Inr kp"
  have "\<exists>client. clients (g_handler g) n = Some client \<and> TLSClientConfig client = ?T n" if "pools (g_state g) n = Some p" for n p
    using w that unfolding wired_def by (metis domD domI)
  moreover have "TLSClientConfig (ck_client (NewChecker t hp iv)) = t" for t :: "('a, 'b) tls_Config" and hp iv
    by (simp add: NewChecker_def)
  ultimately have chk: "(\<exists>chk client. (chk, p) \<in> set (g_checkers g) \<and> clients (g_handler g) n = Some client
      \<and> TLSClientConfig (ck_client chk) = TLSClientConfig client)" if "pools (g_state g) n = Some p" for n p
    using w that unfolding wired_def by metis
  show ?thesis
    by (rule exI [of _ cfg], rule exI [of _ raw], rule exI [of _ ca], rule exI [of _ kp])
       (use l w [unfolded wired_def] kp chk in \<open>intro conjI allI impI; blast\<close>)
qed

theorem gateway_wiring_witness:
  "\<exists>g client. gateway_main demo_outside = Inr g \<and> clients (g_handler g) ''llm'' = Some client
     \<and> ServerName (TLSClientConfig client) = ''llm''"
proof -
  obtain g where g: "gateway_main demo_outside = Inr g" using demo_starts by blast
  have "clients (g_handler g) ''llm'' \<noteq> None"
    by (rule gateway_wired [OF g])
       (auto simp: wired_def Load_cases demo_Unmarshal with_defaults_def demo_config_def split: if_splits sum.splits)
  then obtain client where c: "clients (g_handler g) ''llm'' = Some client" by blast
  from gateway_wiring [OF g] c have "ServerName (TLSClientConfig client) = ''llm''" by auto
  with g c show ?thesis by blast
qed

text \<open>
  C23: the Redis connection loop.  It ends, with the store of the first of ten attempts that
  succeeds or with the error of the tenth; it pauses one second more after each failure, so
  a successful attempt \<^verbatim>\<open>k\<close> comes after \<^verbatim>\<open>1 + ... + (k - 1)\<close> seconds of pauses, and giving up takes 55.
\<close>

theorem redis_connect_spec:
  "(1 \<le> k \<and> k \<le> 10 \<and> (\<forall>j. 1 \<le> j \<and> j < k \<longrightarrow> \<not> (\<exists>rs. conn j = Inr rs)) \<and> conn k = Inr rs \<longrightarrow>
      fst (redis_connect conn prev 1) = Inr rs
      \<and> length (fst (snd (redis_connect conn prev 1))) = k - 1
      \<and> snd (snd (redis_connect conn prev 1)) = map (\<lambda>j. of_nat j * second) [1..<k])
   \<and> ((\<forall>j. 1 \<le> j \<and> j \<le> 10 \<longrightarrow> \<not> (\<exists>rs. conn j = Inr rs)) \<longrightarrow>
      fst (redis_connect conn prev 1) = conn 10
      \<and> length (fst (snd (redis_connect conn prev 1))) = 10
      \<and> sum_list (snd (snd (redis_connect conn prev 1))) = 55 * second)"
proof -
  have "sum_list (map (\<lambda>j. of_nat j * second) [1..<11]) = 55 * second" by (simp add: upt_rec second_def)
  then show ?thesis
    using redis_connect_success [of 1 k conn rs prev] redis_connect_failure [of 1 conn prev] by auto
qed

theorem redis_connect_spec_witness:
  "let conn = (\<lambda>n. if n < 3 then Inl (RedisPing ''refused'') else Inr ''store'')
   in fst (redis_connect conn (conn 1) 1) = Inr ''store'' \<and> snd (snd (redis_connect conn (conn 1) 1)) = [second, 2 * second]"
  using redis_connect_spec [of 3 "\<lambda>n. if n < 3 then Inl (RedisPing ''refused'') else Inr ''store''" "''store''"
      "Inl (RedisPing ''refused'')"]
  by (simp add: upt_rec)

end
