(* ===== verification/Gen_Artifacts.thy ===== *)
theory Gen_Artifacts
  imports Gateway_Main
begin

text \<open>
  \<^verbatim>\<open>cmd/gen-artifacts/main.go\<close>: the certificates, client keys and configuration of the demo.
  Key generation, serial numbers and the clock are a \<^verbatim>\<open>gen_env\<close>, one answer per use; a key pair
  is a value of any type, and a certificate records the key it binds and the key that signed
  it.  A file is its directory and name under the output root, with the permission bits it is
  created with (a file that exists keeps its own).  Every call under \<^verbatim>\<open>must\<close> (the random source, the
  encoders, the file system) may fail, which panics and leaves what was written before; a failing
  \<^verbatim>\<open>os.WriteFile\<close> may in addition leave a first part of its own file.
\<close>

section \<open>Data\<close>

record serviceSpec =
  ga_Name :: string
  ga_Backends :: "string list"

record clientSpec =
  cl_Kid :: string
  cl_Sub :: string
  cl_Scopes :: "string list"

definition services :: "serviceSpec list" where
  "services =
     [\<lparr>ga_Name = ''llm'', ga_Backends = [''llm-1'', ''llm-2'', ''llm-3'', ''llm-4'']\<rparr>,
      \<lparr>ga_Name = ''embed'', ga_Backends = [''embed-1'', ''embed-2'']\<rparr>]"

definition demo_clients :: "clientSpec list" where
  "demo_clients =
     [\<lparr>cl_Kid = ''k-chatbot'', cl_Sub = ''chatbot'', cl_Scopes = [''llm:invoke'']\<rparr>,
      \<lparr>cl_Kid = ''k-search-svc'', cl_Sub = ''search-svc'', cl_Scopes = [''embed:query'']\<rparr>,
      \<lparr>cl_Kid = ''k-analyst'', cl_Sub = ''analyst'', cl_Scopes = [''llm:invoke'', ''embed:query'']\<rparr>,
      \<lparr>cl_Kid = ''k-intern'', cl_Sub = ''intern'', cl_Scopes = []\<rparr>]"

datatype ext_key_usage = ServerAuth | ClientAuth
datatype key_usage = CertSign | CRLSign | DigitalSignature | KeyEncipherment

record 'k certificate =
  SerialNumber :: nat
  CommonName :: string
  Issuer :: string
  NotBefore :: gotime
  NotAfter :: gotime
  KeyUsage :: "key_usage list"
  ExtKeyUsage :: "ext_key_usage list"
  DNSNames :: "string list"
  IPAddresses :: "string list"
  IsCA :: bool
  PublicKey :: 'k
  SignedBy :: 'k

datatype 'k content =
    CertPEM "'k certificate"
  | KeyPEM 'k
  | ClientJSON string string "string list" string string  \<comment> \<open>kid, sub, scopes, priv, pub\<close>
  | Yaml string
  | FirstPart "'k content"  \<comment> \<open>what a failing write left of it, from nothing to everything\<close>

record 'k artifact =
  af_dir :: string
  af_name :: string
  af_content :: "'k content"
  af_mode :: nat

text \<open>The calls the program checks with \<^verbatim>\<open>must\<close>, numbered by certificate or client where they repeat.\<close>

datatype 'k gen_call =
    MkdirAll string
  | GenerateKey nat
  | RandInt nat
  | CreateCertificate nat
  | ParseCertificate nat
  | MarshalECPrivateKey 'k
  | GenerateEd25519 nat
  | WriteFile "'k artifact"

text \<open>
  The answers of the random source and of the clock: one EC key and serial per certificate,
  two clock readings per certificate, one Ed25519 key pair (public, private) per client.
\<close>

record 'k gen_env =
  ge_key :: "nat \<Rightarrow> 'k"
  ge_serial :: "nat \<Rightarrow> nat"
  ge_now :: "nat \<Rightarrow> gotime"
  ge_ed25519 :: "nat \<Rightarrow> bytes \<times> bytes"

section \<open>Certificates\<close>

definition hours :: "nat \<Rightarrow> duration" where
  "hours n = of_nat n * 60 * minute"

text \<open>A certificate's dates have whole seconds: encoding drops the fraction.\<close>

definition asn1_time :: "gotime \<Rightarrow> gotime" where
  "asn1_time t = t\<lparr>t_nsec := 0\<rparr>"

text \<open>What \<^verbatim>\<open>mustCA\<close> and \<^verbatim>\<open>mustLeaf\<close> check, in the order of the source.\<close>

definition cert_calls :: "nat \<Rightarrow> 'k gen_call list" where
  "cert_calls n = [GenerateKey n, RandInt n, CreateCertificate n, ParseCertificate n]"

definition mustCA :: "'k gen_env \<Rightarrow> nat \<Rightarrow> string \<Rightarrow> 'k certificate" where
  "mustCA env n cn =
     \<lparr>SerialNumber = ge_serial env n, CommonName = cn, Issuer = cn,
      NotBefore = asn1_time (time_Add (ge_now env (2 * n)) (- 1 * minute)),
      NotAfter = asn1_time (time_Add (ge_now env (2 * n + 1)) (hours (10 * 365 * 24))),
      KeyUsage = [CertSign, CRLSign], ExtKeyUsage = [],
      DNSNames = [], IPAddresses = [], IsCA = True, PublicKey = ge_key env n, SignedBy = ge_key env n\<rparr>"

definition mustLeaf ::
  "'k gen_env \<Rightarrow> nat \<Rightarrow> 'k certificate \<Rightarrow> 'k \<Rightarrow> string \<Rightarrow> string list \<Rightarrow> ext_key_usage list \<Rightarrow> 'k certificate" where
  "mustLeaf env n caCert caKey cn sans uses =
     \<lparr>SerialNumber = ge_serial env n, CommonName = cn, Issuer = CommonName caCert,
      NotBefore = asn1_time (time_Add (ge_now env (2 * n)) (- 1 * minute)),
      NotAfter = asn1_time (time_Add (ge_now env (2 * n + 1)) (hours (365 * 24))),
      KeyUsage = [DigitalSignature, KeyEncipherment], ExtKeyUsage = uses,
      DNSNames = sans, IPAddresses = [], IsCA = False, PublicKey = ge_key env n, SignedBy = caKey\<rparr>"

definition writeCertPEM :: "string \<Rightarrow> 'k certificate \<Rightarrow> 'k gen_call" where
  "writeCertPEM name c =
     WriteFile \<lparr>af_dir = ''certs'', af_name = name, af_content = CertPEM c, af_mode = 420\<rparr>"

definition writeECKeyPEM :: "string \<Rightarrow> 'k \<Rightarrow> 'k gen_call list" where
  "writeECKeyPEM name k =
     [MarshalECPrivateKey k, WriteFile \<lparr>af_dir = ''certs'', af_name = name, af_content = KeyPEM k, af_mode = 384\<rparr>]"

fun service_sans :: "string list \<Rightarrow> string list \<Rightarrow> string list" where
  "service_sans sans [] = sans"
| "service_sans sans (h # hs) = (if h = ''llm-4'' then service_sans sans hs else service_sans (sans @ [h]) hs)"

fun service_certs :: "'k gen_env \<Rightarrow> 'k certificate \<Rightarrow> 'k \<Rightarrow> nat \<Rightarrow> serviceSpec list \<Rightarrow> 'k gen_call list" where
  "service_certs env caCert caKey n [] = []"
| "service_certs env caCert caKey n (s # ss) =
     (let sans = service_sans [ga_Name s, ''localhost''] (ga_Backends s);
          crt = mustLeaf env n caCert caKey (ga_Name s) sans [ServerAuth, ClientAuth]
      in cert_calls n @ [writeCertPEM (ga_Name s @ ''.crt'') crt] @ writeECKeyPEM (ga_Name s @ ''.key'') (PublicKey crt)
         @ service_certs env caCert caKey (n + 1) ss)"

section \<open>Client keys and the configuration text\<close>

record clientPub =
  cp_kid :: string
  cp_sub :: string
  cp_pub :: string
  cp_scopes :: "string list"

fun client_keys :: "'k gen_env \<Rightarrow> nat \<Rightarrow> clientSpec list \<Rightarrow> 'k gen_call list \<times> clientPub list" where
  "client_keys env n [] = ([], [])"
| "client_keys env n (c # cs) =
     (let (pk, sk) = ge_ed25519 env n;
          kf = ClientJSON (cl_Kid c) (cl_Sub c) (cl_Scopes c) (StdEncoding_EncodeToString sk) (StdEncoding_EncodeToString pk);
          (writes, pubs) = client_keys env (n + 1) cs
      in (GenerateEd25519 n # WriteFile \<lparr>af_dir = ''clients'', af_name = cl_Sub c @ ''.json'', af_content = kf, af_mode = 384\<rparr> # writes,
          \<lparr>cp_kid = cl_Kid c, cp_sub = cl_Sub c, cp_pub = StdEncoding_EncodeToString pk, cp_scopes = cl_Scopes c\<rparr> # pubs))"

definition nl :: string where
  "nl = [CHR 0x0A]"

text \<open>The verb \<^verbatim>\<open>%q\<close> on printable ASCII.\<close>

definition go_quote :: "string \<Rightarrow> string" where
  "go_quote s =
     [CHR 0x22] @ concat (map (\<lambda>c. if c = CHR 0x22 \<or> c = CHR 0x5C then [CHR 0x5C, c] else [c]) s) @ [CHR 0x22]"

fun joinQuoted_from :: "nat \<Rightarrow> string list \<Rightarrow> string" where
  "joinQuoted_from i [] = ''''"
| "joinQuoted_from i (s # ss) = (if i > 0 then '', '' else '''') @ go_quote s @ joinQuoted_from (i + 1) ss"

definition joinQuoted :: "string list \<Rightarrow> string" where
  "joinQuoted qs = joinQuoted_from 0 qs"

definition key_yaml :: "clientPub \<Rightarrow> string" where
  "key_yaml p = ''  - kid: '' @ go_quote (cp_kid p) @ nl @ ''    pub: '' @ go_quote (cp_pub p) @ nl
     @ ''    sub: '' @ go_quote (cp_sub p) @ nl @ ''    scopes: ['' @ joinQuoted (cp_scopes p) @ '']'' @ nl"

definition service_yaml :: "serviceSpec \<Rightarrow> string" where
  "service_yaml s = ''  - name: '' @ go_quote (ga_Name s) @ nl @ ''    health_path: /healthz'' @ nl @ ''    backends:'' @ nl
     @ concat (map (\<lambda>h. ''      - id: '' @ go_quote h @ nl @ ''        addr: '' @ [CHR 0x22] @ ''https://'' @ h @ '':8443''
         @ [CHR 0x22] @ nl) (ga_Backends s))"

definition config_yaml :: "clientPub list \<Rightarrow> string" where
  "config_yaml pubs =
     ''listen_addr: '' @ go_quote '':8080'' @ nl
     @ ''metrics_addr: '' @ go_quote '':9090'' @ nl
     @ ''issuer: '' @ go_quote ''secure-svc-gw'' @ nl
     @ ''audience: '' @ go_quote ''secure-svc-gw'' @ nl
     @ ''nonce_ttl: 5m'' @ nl
     @ ''redis_url: '' @ go_quote ''redis://redis:6379'' @ nl
     @ ''listen_cert: /etc/gateway/listener-tls/tls.crt'' @ nl
     @ ''listen_key: /etc/gateway/listener-tls/tls.key'' @ nl
     @ ''ca_cert: /etc/gateway/certs/ca.crt'' @ nl
     @ ''gateway_cert: /etc/gateway/certs/gateway.crt'' @ nl
     @ ''gateway_key: /etc/gateway/certs/gateway.key'' @ nl
     @ ''client_keys:'' @ nl @ concat (map key_yaml pubs)
     @ ''services:'' @ nl @ concat (map service_yaml services)
     @ ''routes:'' @ nl
     @ ''  - prefix: /v1/llm'' @ nl @ ''    service: llm'' @ nl @ ''    required_scope: llm:invoke'' @ nl
     @ ''  - prefix: /v1/embed'' @ nl @ ''    service: embed'' @ nl @ ''    required_scope: embed:query'' @ nl"

section \<open>The configuration as a document\<close>

text \<open>
  YAML in block style, as the text above is written: a field is plain or quoted, a flow
  sequence of quoted strings, or a block sequence of mappings, indented by two more.
\<close>

datatype ydoc =
    Plain string
  | Quoted string
  | Flow "string list"
  | Items "yfield list list"
and yfield = Field string ydoc

fun join_lines :: "string \<Rightarrow> string list \<Rightarrow> string" where
  "join_lines ind [] = ''''"
| "join_lines ind [x] = x"
| "join_lines ind (x # xs) = x @ ind @ join_lines ind xs"

primrec render_value :: "ydoc \<Rightarrow> string \<Rightarrow> string" and render_field :: "yfield \<Rightarrow> string \<Rightarrow> string" where
  "render_value (Plain s) = (\<lambda>ind. '' '' @ s @ nl)"
| "render_value (Quoted s) = (\<lambda>ind. '' '' @ go_quote s @ nl)"
| "render_value (Flow ss) = (\<lambda>ind. '' ['' @ joinQuoted ss @ '']'' @ nl)"
| "render_value (Items its) = (\<lambda>ind. nl @ concat (map (\<lambda>it. ind @ ''  - ''
     @ join_lines (ind @ ''    '') (map (\<lambda>f. f (ind @ ''    '')) it)) (map (map render_field) its)))"
| "render_field (Field k v) = (\<lambda>ind. k @ '':'' @ render_value v ind)"

text \<open>What the document means.\<close>

primrec doc_value :: "ydoc \<Rightarrow> yaml" and field_value :: "yfield \<Rightarrow> string \<times> yaml" where
  "doc_value (Plain s) = YScalar s"
| "doc_value (Quoted s) = YScalar s"
| "doc_value (Flow ss) = YSeq (map YScalar ss)"
| "doc_value (Items its) = (let ms = map YMap (map (map field_value) its) in if ms = [] then YNull else YSeq ms)"
| "field_value (Field k v) = (k, doc_value v)"

definition render_doc :: "yfield list \<Rightarrow> string" where
  "render_doc fs = concat (map (\<lambda>f. render_field f '''') fs)"

text \<open>What is asked of the YAML parser: it reads the block-style text of a document as that document.\<close>

definition yaml_reads :: "(bytes \<Rightarrow> string + yaml) \<Rightarrow> yfield list \<Rightarrow> bool" where
  "yaml_reads parse fs \<longleftrightarrow> parse (render_doc fs) = Inr (YMap (map field_value fs))"

definition key_doc :: "clientPub \<Rightarrow> yfield list" where
  "key_doc p = [Field ''kid'' (Quoted (cp_kid p)), Field ''pub'' (Quoted (cp_pub p)), Field ''sub'' (Quoted (cp_sub p)),
     Field ''scopes'' (Flow (cp_scopes p))]"

definition service_doc :: "serviceSpec \<Rightarrow> yfield list" where
  "service_doc s = [Field ''name'' (Quoted (ga_Name s)), Field ''health_path'' (Plain ''/healthz''),
     Field ''backends'' (Items (map (\<lambda>h. [Field ''id'' (Quoted h), Field ''addr'' (Quoted (''https://'' @ h @ '':8443''))])
       (ga_Backends s)))]"

definition route_doc :: "string \<Rightarrow> string \<Rightarrow> string \<Rightarrow> yfield list" where
  "route_doc pre svc scope = [Field ''prefix'' (Plain pre), Field ''service'' (Plain svc), Field ''required_scope'' (Plain scope)]"

definition config_doc :: "clientPub list \<Rightarrow> yfield list" where
  "config_doc pubs =
     [Field ''listen_addr'' (Quoted '':8080''), Field ''metrics_addr'' (Quoted '':9090''),
      Field ''issuer'' (Quoted ''secure-svc-gw''), Field ''audience'' (Quoted ''secure-svc-gw''),
      Field ''nonce_ttl'' (Plain ''5m''), Field ''redis_url'' (Quoted ''redis://redis:6379''),
      Field ''listen_cert'' (Plain ''/etc/gateway/listener-tls/tls.crt''),
      Field ''listen_key'' (Plain ''/etc/gateway/listener-tls/tls.key''),
      Field ''ca_cert'' (Plain ''/etc/gateway/certs/ca.crt''), Field ''gateway_cert'' (Plain ''/etc/gateway/certs/gateway.crt''),
      Field ''gateway_key'' (Plain ''/etc/gateway/certs/gateway.key''),
      Field ''client_keys'' (Items (map key_doc pubs)), Field ''services'' (Items (map service_doc services)),
      Field ''routes'' (Items [route_doc ''/v1/llm'' ''llm'' ''llm:invoke'', route_doc ''/v1/embed'' ''embed'' ''embed:query''])]"

lemma go_quote_plain:
  "CHR 0x22 \<notin> set x \<Longrightarrow> CHR 0x5C \<notin> set x \<Longrightarrow> go_quote x = [CHR 0x22] @ x @ [CHR 0x22]"
proof -
  assume a: "CHR 0x22 \<notin> set x" "CHR 0x5C \<notin> set x"
  have "concat (map (\<lambda>c. if c = CHR 0x22 \<or> c = CHR 0x5C then [CHR 0x5C, c] else [c]) x) = x"
    using a by (induction x) auto
  then show ?thesis by (simp add: go_quote_def)
qed

lemma key_yaml_rendered: "key_yaml p = ''  - '' @ join_lines ''    '' (map (\<lambda>f. render_field f ''    '') (key_doc p))"
  by (simp add: key_yaml_def key_doc_def)

lemma service_yaml_rendered:
  "s \<in> set services \<Longrightarrow> service_yaml s = ''  - '' @ join_lines ''    '' (map (\<lambda>f. render_field f ''    '') (service_doc s))"
proof -
  assume "s \<in> set services"
  then have "\<forall>h \<in> set (ga_Backends s). CHR 0x22 \<notin> set h \<and> CHR 0x5C \<notin> set h" by (auto simp: services_def)
  then have "''      - id: '' @ go_quote h @ nl @ ''        addr: '' @ [CHR 0x22] @ ''https://'' @ h @ '':8443'' @ [CHR 0x22] @ nl
      = ''      - id: '' @ go_quote h @ nl @ ''        addr: '' @ go_quote (''https://'' @ h @ '':8443'') @ nl"
    if "h \<in> set (ga_Backends s)" for h using that by (subst go_quote_plain [of "''https://'' @ h @ '':8443''"]) auto
  then have "concat (map (\<lambda>h. ''      - id: '' @ go_quote h @ nl @ ''        addr: '' @ [CHR 0x22] @ ''https://'' @ h @ '':8443'' @ [CHR 0x22] @ nl)
        (ga_Backends s))
      = concat (map (\<lambda>h. ''      - id: '' @ go_quote h @ nl @ ''        addr: '' @ go_quote (''https://'' @ h @ '':8443'') @ nl) (ga_Backends s))"
    by (intro arg_cong [of _ _ concat] map_cong refl) blast
  then show ?thesis by (simp add: service_yaml_def service_doc_def comp_def)
qed

text \<open>The text the program writes is the block-style text of this document.\<close>

lemma config_yaml_rendered: "config_yaml pubs = render_doc (config_doc pubs)"
proof -
  have "concat (map service_yaml services) =
      concat (map (\<lambda>s. ''  - '' @ join_lines ''    '' (map (\<lambda>f. render_field f ''    '') (service_doc s))) services)"
    by (intro arg_cong [of _ _ concat] map_cong refl service_yaml_rendered)
  moreover have "concat (map key_yaml pubs) =
      concat (map (\<lambda>p. ''  - '' @ join_lines ''    '' (map (\<lambda>f. render_field f ''    '') (key_doc p))) pubs)"
    by (intro arg_cong [of _ _ concat] map_cong refl key_yaml_rendered)
  ultimately show ?thesis
    by (simp add: config_yaml_def render_doc_def config_doc_def route_doc_def comp_def)
qed

section \<open>The program\<close>

definition gen_calls :: "'k gen_env \<Rightarrow> 'k gen_call list" where
  "gen_calls env =
     (let caCert = mustCA env 0 ''secure-svc-gw Root CA''; caKey = PublicKey caCert;
          gwCert = mustLeaf env 1 caCert caKey ''gateway'' [] [ClientAuth];
          listenerCert = mustLeaf env 2 caCert caKey ''gateway'' [''gateway'', ''localhost'', ''127.0.0.1''] [ServerAuth];
          rogueCA = mustCA env 5 ''rogue-attacker CA'';
          rogueCert = mustLeaf env 6 rogueCA (PublicKey rogueCA) ''llm'' [''llm'', ''llm-4'', ''rogue-llm'', ''localhost'']
            [ServerAuth, ClientAuth];
          (key_writes, pubs) = client_keys env 0 demo_clients
      in [MkdirAll ''certs'', MkdirAll ''clients'', MkdirAll ''config'']
         @ cert_calls 0 @ [writeCertPEM ''ca.crt'' caCert] @ writeECKeyPEM ''ca.key'' caKey
         @ cert_calls 1 @ [writeCertPEM ''gateway.crt'' gwCert] @ writeECKeyPEM ''gateway.key'' (PublicKey gwCert)
         @ cert_calls 2 @ [writeCertPEM ''gateway-listener.crt'' listenerCert]
         @ writeECKeyPEM ''gateway-listener.key'' (PublicKey listenerCert)
         @ service_certs env caCert caKey 3 services
         @ cert_calls 5 @ [writeCertPEM ''rogue-ca.crt'' rogueCA]
         @ cert_calls 6 @ [writeCertPEM ''rogue-llm.crt'' rogueCert] @ writeECKeyPEM ''rogue-llm.key'' (PublicKey rogueCert)
         @ key_writes
         @ [WriteFile \<lparr>af_dir = ''config'', af_name = ''gateway.yaml'', af_content = Yaml (config_yaml pubs), af_mode = 420\<rparr>])"

definition files_of :: "'k gen_call list \<Rightarrow> 'k artifact list" where
  "files_of cs = concat (map (\<lambda>c. case c of WriteFile f \<Rightarrow> [f] | _ \<Rightarrow> []) cs)"

text \<open>
  The calls are made in order; the first that fails panics, with an error and, for a file,
  whether a first part of it was written.  The result is the files written, the lines printed,
  and the panic.
\<close>

definition left_by :: "bool \<Rightarrow> 'k gen_call \<Rightarrow> 'k artifact list" where
  "left_by part c =
     (case c of
        WriteFile f \<Rightarrow> if part then [f\<lparr>af_content := FirstPart (af_content f)\<rparr>] else []
      | _ \<Rightarrow> [])"

fun must_all :: "('k gen_call \<Rightarrow> (string \<times> bool) option) \<Rightarrow> 'k gen_call list \<Rightarrow> 'k artifact list \<times> string option" where
  "must_all os [] = ([], None)"
| "must_all os (c # cs) =
     (case os c of
        Some (err, part) \<Rightarrow> (left_by part c, Some err)
      | None \<Rightarrow> map_prod (\<lambda>files. files_of [c] @ files) (\<lambda>p. p) (must_all os cs))"

definition summary :: "string list" where
  "summary =
     [''generated:'',
      ''  certs/     -> CA + gateway + gateway-listener + llm + embed + rogue-ca + rogue-llm'',
      ''  clients/   -> chatbot, search-svc, analyst, intern'',
      ''  config/    -> gateway.yaml (HTTPS listener + mTLS backends)'']"

definition gen_main ::
  "('k gen_call \<Rightarrow> (string \<times> bool) option) \<Rightarrow> 'k gen_env \<Rightarrow> 'k artifact list \<times> string list \<times> string option" where
  "gen_main os env =
     (case must_all os (gen_calls env) of
        (files, Some err) \<Rightarrow> (files, [], Some err)
      | (files, None) \<Rightarrow> (files, summary, None))"

section \<open>Reading the output\<close>

definition cert_files :: "'k artifact list \<Rightarrow> (string \<times> 'k certificate) list" where
  "cert_files files = concat (map (\<lambda>f. case af_content f of CertPEM c \<Rightarrow> [(af_name f, c)] | _ \<Rightarrow> []) files)"

definition yaml_files :: "'k artifact list \<Rightarrow> (string \<times> string \<times> string) list" where
  "yaml_files files = concat (map (\<lambda>f. case af_content f of Yaml raw \<Rightarrow> [(af_dir f, af_name f, raw)] | _ \<Rightarrow> []) files)"

definition is_secret :: "'k artifact \<Rightarrow> bool" where
  "is_secret f = (case af_content f of KeyPEM k \<Rightarrow> True | ClientJSON kid subj ss sk pk \<Rightarrow> True | _ \<Rightarrow> False)"

text \<open>
  Certificate verification as \<^verbatim>\<open>crypto/x509\<close> does it for a leaf signed directly by a root: the
  chain, the dates, the extended key usage and, for a server, the host name.  A host that is
  an IPv4 address is compared with the address entries only, any other with the DNS names
  (no name here has a wildcard).
\<close>

definition is_octet :: "string \<Rightarrow> bool" where
  "is_octet p \<longleftrightarrow> p \<noteq> [] \<and> length p \<le> 3 \<and> list_all is_digit_ascii p \<and> (length p = 1 \<or> hd p \<noteq> CHR ''0'')
     \<and> fold (\<lambda>c n. 10 * n + (byte_val c - 48)) p 0 \<le> 255"

definition is_ipv4 :: "string \<Rightarrow> bool" where
  "is_ipv4 h \<longleftrightarrow> (let ps = strings_Split h (CHR ''.'') in length ps = 4 \<and> list_all is_octet ps)"

definition VerifyHostname :: "'k certificate \<Rightarrow> string \<Rightarrow> bool" where
  "VerifyHostname c h =
     (if is_ipv4 h then h \<in> set (IPAddresses c) else list_ex (strings_EqualFold h) (DNSNames c))"

definition in_date :: "gotime \<Rightarrow> 'k certificate \<Rightarrow> bool" where
  "in_date t c \<longleftrightarrow> \<not> time_Before t (NotBefore c) \<and> \<not> time_After t (NotAfter c)"

definition issued_by :: "'k certificate \<Rightarrow> 'k certificate \<Rightarrow> bool" where
  "issued_by ca c \<longleftrightarrow> IsCA ca \<and> CertSign \<in> set (KeyUsage ca) \<and> Issuer c = CommonName ca \<and> SignedBy c = PublicKey ca"

definition x509_Verify :: "'k certificate list \<Rightarrow> gotime \<Rightarrow> string option \<Rightarrow> ext_key_usage \<Rightarrow> 'k certificate \<Rightarrow> bool" where
  "x509_Verify roots t name usage c \<longleftrightarrow>
     list_ex (\<lambda>ca. issued_by ca c \<and> in_date t ca) roots \<and> in_date t c \<and> usage \<in> set (ExtKeyUsage c)
     \<and> (case name of None \<Rightarrow> True | Some h \<Rightarrow> VerifyHostname c h)"

lemma must_all_None:
  "must_all os cs = (files, None) \<Longrightarrow> files = files_of cs"
proof (induction cs arbitrary: files)
  case (Cons c cs)
  then show ?case by (cases "must_all os cs") (auto simp: files_of_def split: option.splits)
qed (simp add: files_of_def)

lemma gen_main_None: "gen_main os env = (files, out, None) \<Longrightarrow> files = files_of (gen_calls env)"
  by (auto simp: gen_main_def dest: must_all_None split: go_split)

text \<open>What a complete run leaves, file by file.\<close>

abbreviation root_ca :: "'k gen_env \<Rightarrow> 'k certificate" where
  "root_ca env \<equiv> mustCA env 0 ''secure-svc-gw Root CA''"

abbreviation rogue_ca :: "'k gen_env \<Rightarrow> 'k certificate" where
  "rogue_ca env \<equiv> mustCA env 5 ''rogue-attacker CA''"

lemma PublicKey_mustCA: "PublicKey (mustCA env n cn) = ge_key env n"
  by (simp add: mustCA_def)

lemma service_sans_eq: "service_sans sans hs = sans @ filter (\<lambda>h. h \<noteq> ''llm-4'') hs"
  by (induction hs arbitrary: sans) auto

lemmas gen_simps = gen_calls_def services_def demo_clients_def Let_def case_prod_beta writeCertPEM_def writeECKeyPEM_def
  cert_calls_def files_of_def

lemma gen_cert_files:
  assumes "gen_main os env = (files, out, None)"
  shows "cert_files files =
    [(''ca.crt'', root_ca env),
     (''gateway.crt'', mustLeaf env 1 (root_ca env) (ge_key env 0) ''gateway'' [] [ClientAuth]),
     (''gateway-listener.crt'', mustLeaf env 2 (root_ca env) (ge_key env 0) ''gateway''
        [''gateway'', ''localhost'', ''127.0.0.1''] [ServerAuth]),
     (''llm.crt'', mustLeaf env 3 (root_ca env) (ge_key env 0) ''llm''
        [''llm'', ''localhost'', ''llm-1'', ''llm-2'', ''llm-3''] [ServerAuth, ClientAuth]),
     (''embed.crt'', mustLeaf env 4 (root_ca env) (ge_key env 0) ''embed''
        [''embed'', ''localhost'', ''embed-1'', ''embed-2''] [ServerAuth, ClientAuth]),
     (''rogue-ca.crt'', rogue_ca env),
     (''rogue-llm.crt'', mustLeaf env 6 (rogue_ca env) (ge_key env 5) ''llm''
        [''llm'', ''llm-4'', ''rogue-llm'', ''localhost''] [ServerAuth, ClientAuth])]"
  using gen_main_None [OF assms]
  by (simp add: gen_simps cert_files_def PublicKey_mustCA)

lemma gen_files_modes:
  assumes "gen_main os env = (files, out, None)"
  shows "list_all (\<lambda>f. is_secret f \<longrightarrow> af_mode f = 384) files"
  using gen_main_None [OF assms] by (simp add: gen_simps is_secret_def)

text \<open>The configuration is the last file, and the only one of its kind.\<close>

lemma files_of_append [simp]: "files_of (cs @ ds) = files_of cs @ files_of ds"
  by (simp add: files_of_def)

lemma files_of_Cons: "files_of (c # cs) = files_of [c] @ files_of cs"
  using files_of_append [of "[c]" cs] by simp

lemma yaml_files_append [simp]: "yaml_files (fs @ gs) = yaml_files fs @ yaml_files gs"
  by (simp add: yaml_files_def)

lemma yaml_client_keys: "yaml_files (files_of (fst (client_keys env n cs))) = []"
  by (induction cs arbitrary: n) (simp_all add: Let_def case_prod_beta yaml_files_def files_of_def)

definition config_call :: "'k gen_env \<Rightarrow> 'k gen_call" where
  "config_call env = WriteFile \<lparr>af_dir = ''config'', af_name = ''gateway.yaml'',
     af_content = Yaml (config_yaml (snd (client_keys env 0 demo_clients))), af_mode = 420\<rparr>"

lemma gen_calls_last:
  obtains cs where "gen_calls env = cs @ [config_call env]" "yaml_files (files_of cs) = []"
proof -
  define cs where "cs = butlast (gen_calls env)"
  have "gen_calls env = cs @ [config_call env]"
    by (simp add: cs_def gen_calls_def config_call_def Let_def case_prod_beta butlast_append)
  moreover have "yaml_files (files_of cs) = []"
    using yaml_client_keys [of env 0 demo_clients]
    by (simp add: cs_def gen_calls_def Let_def case_prod_beta butlast_append services_def files_of_def yaml_files_def
        cert_calls_def writeCertPEM_def writeECKeyPEM_def)
  ultimately show thesis by (rule that)
qed

lemma yaml_config_call:
  "yaml_files (files_of [config_call env]) = [(''config'', ''gateway.yaml'', config_yaml (snd (client_keys env 0 demo_clients)))]"
  by (simp add: files_of_def yaml_files_def config_call_def)

lemma gen_yaml_files:
  assumes "gen_main os env = (files, out, None)"
  shows "yaml_files files = [(''config'', ''gateway.yaml'', config_yaml (snd (client_keys env 0 demo_clients)))]"
  by (rule gen_calls_last [of env]) (simp add: gen_main_None [OF assms] yaml_config_call)

text \<open>What a run leaves when a call fails: the files before it, and what is left of its own.\<close>

lemma must_all_Some:
  "must_all os cs = (files, Some err) \<Longrightarrow>
   \<exists>pre c post part. cs = pre @ c # post \<and> list_all (\<lambda>c. os c = None) pre \<and> os c = Some (err, part)
     \<and> files = files_of pre @ left_by part c"
proof (induction cs arbitrary: files)
  case (Cons c cs)
  show ?case
  proof (cases "os c")
    case None
    then obtain fs where "must_all os cs = (fs, Some err)" "files = files_of [c] @ fs"
      using Cons.prems by (cases "must_all os cs") auto
    moreover from this Cons.IH obtain pre d post part where "cs = pre @ d # post" "list_all (\<lambda>c. os c = None) pre"
      "os d = Some (err, part)" "fs = files_of pre @ left_by part d" by blast
    ultimately show ?thesis
      using None by (intro exI [of _ "c # pre"] exI [of _ d] exI [of _ post] exI [of _ part]) (simp add: files_of_Cons [of c pre])
  next
    case (Some ep)
    with Cons.prems show ?thesis
      by (intro exI [of _ "[]"] exI [of _ c] exI [of _ cs] exI [of _ "snd ep"]) (auto simp: files_of_def split: prod.splits)
  qed
qed simp

lemma must_all_None_iff: "snd (must_all os cs) = None \<longleftrightarrow> list_all (\<lambda>c. os c = None) cs"
  by (induction cs) (auto split: option.splits)

lemma yaml_left_by [simp]: "yaml_files (left_by part c) = []"
  by (cases c) (auto simp: left_by_def yaml_files_def)

section \<open>Validity of the generated certificates\<close>

text \<open>The window in which every certificate of a run is in date, up to the rounding to seconds.\<close>

definition run_window :: "'k gen_env \<Rightarrow> gotime \<Rightarrow> bool" where
  "run_window env t \<longleftrightarrow> valid_time t \<and> (\<forall>n. sane_time (ge_now env n)
     \<and> time_ns (ge_now env n) \<le> time_ns t + 60 * 1000000000
     \<and> time_ns t + 1000000000 \<le> time_ns (ge_now env n) + 365 * 24 * 3600 * 1000000000)"

lemma sint_lifetimes:
  "sint (hours (365 * 24)) = 365 * 24 * 3600 * 1000000000"
  "sint (hours (10 * 365 * 24)) = 10 * 365 * 24 * 3600 * 1000000000"
  "sint (- 1 * minute) = - 60 * 1000000000"
  by (simp_all add: hours_def minute_def)

lemma asn1_time_ns:
  "valid_time t \<Longrightarrow> valid_time (asn1_time t) \<and> time_ns (asn1_time t) \<le> time_ns t \<and> time_ns t - 1000000000 < time_ns (asn1_time t)"
  by (simp add: asn1_time_def valid_time_def time_ns_def)

lemma run_window_Add:
  assumes "run_window env t"
  shows "valid_time (time_Add (ge_now env k) x)" and "time_ns (time_Add (ge_now env k) x) = time_ns (ge_now env k) + sint x"
proof -
  have s: "valid_time (ge_now env k)" "- (2 ^ 62) \<le> sint (t_sec (ge_now env k))" "sint (t_sec (ge_now env k)) < 2 ^ 62"
    using assms unfolding run_window_def sane_time_def by (auto intro: order_trans [of _ 62135596800])
  show "valid_time (time_Add (ge_now env k) x)" "time_ns (time_Add (ge_now env k) x) = time_ns (ge_now env k) + sint x"
    by (rule time_Add_correct [OF s])+
qed

lemma issued_not_early:
  assumes w: "run_window env t"
  shows "\<not> time_Before t (asn1_time (time_Add (ge_now env i) (- 1 * minute)))"
  using asn1_time_ns [OF run_window_Add(1) [OF w], of i "- 1 * minute"] w
  unfolding run_window_Add(2) [OF w] sint_lifetimes by (auto simp: time_Before_iff_ns run_window_def dest: spec [of _ i])

lemma issued_not_late:
  assumes w: "run_window env t" and d: "365 * 24 * 3600 * 1000000000 \<le> sint life"
  shows "\<not> time_After t (asn1_time (time_Add (ge_now env i) life))"
  using asn1_time_ns [OF run_window_Add(1) [OF w], of i life] w d
  unfolding run_window_Add(2) [OF w] by (auto simp: time_After_iff_ns run_window_def dest: spec [of _ i])

lemma in_date_mustCA: "run_window env t \<Longrightarrow> in_date t (mustCA env n cn)"
  unfolding in_date_def mustCA_def certificate.simps
  by (intro conjI issued_not_early issued_not_late; simp only: sint_lifetimes; simp)

lemma in_date_mustLeaf: "run_window env t \<Longrightarrow> in_date t (mustLeaf env n ca k cn sans uses)"
  unfolding in_date_def mustLeaf_def certificate.simps
  by (intro conjI issued_not_early issued_not_late; simp only: sint_lifetimes)

text \<open>A leaf is accepted exactly for the usages and the names it was issued with, under its own CA.\<close>

lemma mustLeaf_verifies:
  assumes "run_window env t"
  shows "x509_Verify [mustCA env m ca] t name usage (mustLeaf env n (mustCA env m ca) (ge_key env m) cn sans uses) \<longleftrightarrow>
     usage \<in> set uses \<and> (case name of None \<Rightarrow> True | Some h \<Rightarrow> \<not> is_ipv4 h \<and> list_ex (strings_EqualFold h) sans)"
proof -
  define c where "c = mustLeaf env n (mustCA env m ca) (ge_key env m) cn sans uses"
  have "issued_by (mustCA env m ca) c" "in_date t (mustCA env m ca)" "in_date t c"
    "ExtKeyUsage c = uses" "DNSNames c = sans" "IPAddresses c = []"
    using assms by (simp_all add: c_def in_date_mustCA in_date_mustLeaf) (simp_all add: issued_by_def mustCA_def mustLeaf_def)
  then show ?thesis
    unfolding c_def [symmetric] by (auto simp: x509_Verify_def VerifyHostname_def split: option.split)
qed

lemma foreign_leaf_rejected:
  "ge_key env m \<noteq> ge_key env k \<Longrightarrow>
   \<not> x509_Verify [mustCA env m ca] t name usage (mustLeaf env n ca' (ge_key env k) cn sans uses)"
  by (auto simp: x509_Verify_def issued_by_def mustCA_def mustLeaf_def)

lemma demo_hosts:
  "\<not> is_ipv4 ''llm''" "\<not> is_ipv4 ''embed''" "\<not> is_ipv4 ''gateway''" "\<not> is_ipv4 ''localhost''" "is_ipv4 ''127.0.0.1''"
  by code_simp+

lemma EqualFold_refl: "strings_EqualFold s s"
  by (simp add: go_lib)

section \<open>Properties\<close>

text \<open>
  C39: the generated certificates, within a year of the run and with distinct CA keys.  Under
  the root CA the certificate of each service is accepted as a server under the service's
  name, the name the gateway expects of every replica; the gateway's certificate is accepted
  as a client and as no server.  The rogue certificate, which claims the same name, is
  accepted never and for nothing.  The listener's certificate is accepted for \<^verbatim>\<open>gateway\<close> and
  \<^verbatim>\<open>localhost\<close> but not for \<^verbatim>\<open>127.0.0.1\<close>, which is entered as a DNS name.  The files with
  private keys are created readable by their owner only.
\<close>

theorem generated_certificates:
  assumes "gen_main os env = (files, out, None)" and "run_window env t" and "ge_key env 0 \<noteq> ge_key env 5"
  shows "\<exists>ca gw listener rogue.
     map_of (cert_files files) ''ca.crt'' = Some ca
     \<and> (\<forall>s \<in> set services. \<exists>c. map_of (cert_files files) (ga_Name s @ ''.crt'') = Some c
          \<and> x509_Verify [ca] t (Some (ga_Name s)) ServerAuth c)
     \<and> map_of (cert_files files) ''gateway.crt'' = Some gw
     \<and> x509_Verify [ca] t None ClientAuth gw \<and> (\<forall>t' name. \<not> x509_Verify [ca] t' name ServerAuth gw)
     \<and> map_of (cert_files files) ''rogue-llm.crt'' = Some rogue
     \<and> ''llm'' \<in> set (DNSNames rogue) \<and> (\<forall>t' name usage. \<not> x509_Verify [ca] t' name usage rogue)
     \<and> map_of (cert_files files) ''gateway-listener.crt'' = Some listener
     \<and> x509_Verify [ca] t (Some ''gateway'') ServerAuth listener
     \<and> x509_Verify [ca] t (Some ''localhost'') ServerAuth listener
     \<and> (\<forall>t'. \<not> x509_Verify [ca] t' (Some ''127.0.0.1'') ServerAuth listener)
     \<and> list_all (\<lambda>f. is_secret f \<longrightarrow> af_mode f = 384) files"
proof -
  let ?ca = "root_ca env" and ?k = "ge_key env 0"
  let ?gw = "mustLeaf env 1 ?ca ?k ''gateway'' [] [ClientAuth]"
  let ?li = "mustLeaf env 2 ?ca ?k ''gateway'' [''gateway'', ''localhost'', ''127.0.0.1''] [ServerAuth]"
  let ?llm = "mustLeaf env 3 ?ca ?k ''llm'' [''llm'', ''localhost'', ''llm-1'', ''llm-2'', ''llm-3''] [ServerAuth, ClientAuth]"
  let ?embed = "mustLeaf env 4 ?ca ?k ''embed'' [''embed'', ''localhost'', ''embed-1'', ''embed-2''] [ServerAuth, ClientAuth]"
  let ?rogue = "mustLeaf env 6 (rogue_ca env) (ge_key env 5) ''llm'' [''llm'', ''llm-4'', ''rogue-llm'', ''localhost'']
     [ServerAuth, ClientAuth]"
  note v = mustLeaf_verifies [OF assms(2), of 0 "''secure-svc-gw Root CA''"]
  have files: "map_of (cert_files files) ''ca.crt'' = Some ?ca" "map_of (cert_files files) ''gateway.crt'' = Some ?gw"
    "map_of (cert_files files) ''gateway-listener.crt'' = Some ?li" "map_of (cert_files files) ''llm.crt'' = Some ?llm"
    "map_of (cert_files files) ''embed.crt'' = Some ?embed" "map_of (cert_files files) ''rogue-llm.crt'' = Some ?rogue"
    unfolding gen_cert_files [OF assms(1)] by simp_all
  have llm: "x509_Verify [?ca] t (Some ''llm'') ServerAuth ?llm" and embed: "x509_Verify [?ca] t (Some ''embed'') ServerAuth ?embed"
    and gw: "x509_Verify [?ca] t None ClientAuth ?gw"
    and li: "x509_Verify [?ca] t (Some ''gateway'') ServerAuth ?li" "x509_Verify [?ca] t (Some ''localhost'') ServerAuth ?li"
    unfolding v by (simp_all add: demo_hosts EqualFold_refl)
  have "\<forall>s \<in> set services. \<exists>c. map_of (cert_files files) (ga_Name s @ ''.crt'') = Some c
      \<and> x509_Verify [?ca] t (Some (ga_Name s)) ServerAuth c"
    using files(4,5) llm embed by (simp add: services_def)
  moreover have "\<not> x509_Verify [?ca] t' name ServerAuth ?gw" "\<not> x509_Verify [?ca] t' (Some ''127.0.0.1'') ServerAuth ?li" for t' name
    by (simp_all add: x509_Verify_def VerifyHostname_def demo_hosts mustLeaf_def)
  moreover have "\<not> x509_Verify [?ca] t' name usage ?rogue" for t' name usage
    by (rule foreign_leaf_rejected [OF assms(3)])
  moreover have "''llm'' \<in> set (DNSNames ?rogue)" by (simp add: mustLeaf_def)
  ultimately show ?thesis using files gw li gen_files_modes [OF assms(1)] by blast
qed

definition demo_gen_env :: "nat gen_env" where
  "demo_gen_env = \<lparr>ge_key = (\<lambda>n. n), ge_serial = (\<lambda>n. n), ge_now = (\<lambda>_. time_Unix 1700000000),
     ge_ed25519 = (\<lambda>n. (replicate 32 (char_of (65 + n)), replicate 64 (char_of (97 + n))))\<rparr>"

lemma must_all_total: "(\<And>c. os c = None) \<Longrightarrow> \<exists>files. must_all os cs = (files, None)"
  by (induction cs) (auto split: gen_call.split)

lemma demo_run: obtains files where "gen_main (\<lambda>_. None) demo_gen_env = (files, summary, None)"
  using must_all_total [of "\<lambda>_. None" "gen_calls demo_gen_env"] by (auto simp: gen_main_def)

lemma demo_window: "run_window demo_gen_env (time_Unix 1700000000)"
  by (simp add: run_window_def demo_gen_env_def sane_time_def time_ns_Unix sint_word_of_int64)
     (simp add: time_Unix_def unixToInternal_def)

theorem generated_certificates_witness:
  "\<exists>files ca c rogue. gen_main (\<lambda>_. None) demo_gen_env = (files, summary, None) \<and> map_of (cert_files files) ''ca.crt'' = Some ca
     \<and> map_of (cert_files files) ''embed.crt'' = Some c \<and> x509_Verify [ca] (time_Unix 1700000000) (Some ''embed'') ServerAuth c
     \<and> map_of (cert_files files) ''rogue-llm.crt'' = Some rogue
     \<and> \<not> x509_Verify [ca] (time_Unix 1700000000) (Some ''llm'') ServerAuth rogue"
proof -
  obtain files where f: "gen_main (\<lambda>_. None) demo_gen_env = (files, summary, None)" by (rule demo_run)
  have "ge_key demo_gen_env 0 \<noteq> ge_key demo_gen_env 5" by (simp add: demo_gen_env_def)
  from generated_certificates [OF f demo_window this] f show ?thesis by (auto simp: services_def)
qed

section \<open>The generated configuration\<close>

text \<open>The configuration the text stands for.\<close>

definition generated_config :: "clientPub list \<Rightarrow> Config" where
  "generated_config pubs = \<lparr>ListenAddr = '':8080'', MetricsAddr = '':9090'', cfg_Issuer = ''secure-svc-gw'',
     cfg_Audience = ''secure-svc-gw'', NonceTTL = 5 * minute, RedisURL = ''redis://redis:6379'',
     ListenCertPath = ''/etc/gateway/listener-tls/tls.crt'', ListenKeyPath = ''/etc/gateway/listener-tls/tls.key'',
     CACertPath = ''/etc/gateway/certs/ca.crt'', GatewayCertPath = ''/etc/gateway/certs/gateway.crt'',
     GatewayKeyPath = ''/etc/gateway/certs/gateway.key'',
     ClientKeys = map (\<lambda>p. \<lparr>ck_Kid = cp_kid p, ck_PubBase64 = cp_pub p, ck_Subject = cp_sub p, ck_Scopes = cp_scopes p\<rparr>) pubs,
     Services = map (\<lambda>s. \<lparr>svc_Name = ga_Name s, svc_HealthPath = ''/healthz'',
       svc_Backends = map (\<lambda>h. \<lparr>cb_ID = h, cb_Addr = ''https://'' @ h @ '':8443''\<rparr>) (ga_Backends s)\<rparr>) services,
     Routes = [\<lparr>rt_Prefix = ''/v1/llm'', rt_Service = ''llm'', rt_RequiredScope = ''llm:invoke''\<rparr>,
               \<lparr>rt_Prefix = ''/v1/embed'', rt_Service = ''embed'', rt_RequiredScope = ''embed:query''\<rparr>]\<rparr>"

lemma with_defaults_generated: "with_defaults (generated_config pubs) = generated_config pubs"
  by (simp add: with_defaults_def generated_config_def minute_def)

text \<open>What the tags of \<^verbatim>\<open>internal/config\<close> select from the document.\<close>

lemma decode_key_doc:
  "decode_ClientKey (YMap (map field_value (key_doc p))) =
     Some \<lparr>ck_Kid = cp_kid p, ck_PubBase64 = cp_pub p, ck_Subject = cp_sub p, ck_Scopes = cp_scopes p\<rparr>"
  by (simp add: key_doc_def decode_ClientKey_def comp_def)

lemma decode_items:
  assumes "\<And>x. dec (YMap (map field_value (mk x))) = Some (g x)"
  shows "decode_list dec (doc_value (Items (map mk xs))) = Some (map g xs)"
  using assms by (simp add: Let_def comp_def)

lemma decode_backend_doc:
  "decode_CfgBackend (YMap (map field_value [Field ''id'' (Quoted h), Field ''addr'' (Quoted a)])) = Some \<lparr>cb_ID = h, cb_Addr = a\<rparr>"
  by (simp add: decode_CfgBackend_def)

lemma decode_service_doc:
  "decode_CfgService (YMap (map field_value (service_doc s))) =
     Some \<lparr>svc_Name = ga_Name s, svc_HealthPath = ''/healthz'',
       svc_Backends = map (\<lambda>h. \<lparr>cb_ID = h, cb_Addr = ''https://'' @ h @ '':8443''\<rparr>) (ga_Backends s)\<rparr>"
  using decode_items [of decode_CfgBackend "\<lambda>h. [Field ''id'' (Quoted h), Field ''addr'' (Quoted (''https://'' @ h @ '':8443''))]"
      "\<lambda>h. \<lparr>cb_ID = h, cb_Addr = ''https://'' @ h @ '':8443''\<rparr>" "ga_Backends s", OF decode_backend_doc]
  by (simp add: service_doc_def decode_CfgService_def del: doc_value.simps(4))

lemma decode_config_doc:
  assumes "dur ''5m'' = Some (5 * minute)"
  shows "decode_Config dur (YMap (map field_value (config_doc pubs))) = Some (generated_config pubs)"
proof -
  have k: "decode_list decode_ClientKey (doc_value (Items (map key_doc pubs))) =
      Some (map (\<lambda>p. \<lparr>ck_Kid = cp_kid p, ck_PubBase64 = cp_pub p, ck_Subject = cp_sub p, ck_Scopes = cp_scopes p\<rparr>) pubs)"
    by (rule decode_items) (rule decode_key_doc)
  have s: "decode_list decode_CfgService (doc_value (Items (map service_doc services))) = Some (Services (generated_config pubs))"
    using decode_items [of decode_CfgService service_doc, OF decode_service_doc] by (simp add: generated_config_def)
  have r: "decode_list decode_CfgRoute (doc_value (Items [route_doc ''/v1/llm'' ''llm'' ''llm:invoke'', route_doc ''/v1/embed'' ''embed'' ''embed:query'']))
      = Some (Routes (generated_config pubs))"
    by (simp add: route_doc_def decode_CfgRoute_def generated_config_def)
  show ?thesis
    using k s r assms
    by (simp add: decode_Config_def config_doc_def del: doc_value.simps(4)) (simp add: generated_config_def)
qed

lemma Load_generated:
  assumes "readFile path = Inr (config_yaml pubs)" and "yaml_reads parse (config_doc pubs)" and "dur ''5m'' = Some (5 * minute)"
  shows "Load readFile (Config_Unmarshal parse dur) path = Inr (generated_config pubs)"
proof -
  have "Config_Unmarshal parse dur (config_yaml pubs) = Inr (generated_config pubs)"
    using assms(2) decode_config_doc [of dur pubs, OF assms(3)]
    by (simp add: config_yaml_rendered yaml_reads_def Config_Unmarshal_def yaml_Unmarshal_with_def)
  then show ?thesis
    using assms(1) by (simp add: Load_cases with_defaults_generated) (simp add: generated_config_def services_def)
qed

lemma snd_client_keys:
  "snd (client_keys env n cs) =
   map (\<lambda>(i, c). \<lparr>cp_kid = cl_Kid c, cp_sub = cl_Sub c, cp_pub = StdEncoding_EncodeToString (fst (ge_ed25519 env i)),
          cp_scopes = cl_Scopes c\<rparr>) (enumerate n cs)"
  by (induction cs arbitrary: n) (simp_all add: Let_def case_prod_beta)

lemma files_client_keys:
  "files_of (fst (client_keys env n cs)) =
   map (\<lambda>(i, c). \<lparr>af_dir = ''clients'', af_name = cl_Sub c @ ''.json'',
          af_content = ClientJSON (cl_Kid c) (cl_Sub c) (cl_Scopes c) (StdEncoding_EncodeToString (snd (ge_ed25519 env i)))
            (StdEncoding_EncodeToString (fst (ge_ed25519 env i))), af_mode = 384\<rparr>) (enumerate n cs)"
  by (induction cs arbitrary: n) (simp_all add: Let_def case_prod_beta files_of_def)

text \<open>The verifier that registers the generated clients: each public key under the client's kid.\<close>

definition client_entry :: "'k gen_env \<Rightarrow> nat \<Rightarrow> registeredKey" where
  "client_entry env i =
     \<lparr>pub = fst (ge_ed25519 env i), sub = cl_Sub (demo_clients ! i), scopes = set (cl_Scopes (demo_clients ! i))\<rparr>"

lemma generated_registrations:
  "key_registrations (generated_config (snd (client_keys env 0 demo_clients))) =
   map (\<lambda>i. \<lparr>reg_Kid = cl_Kid (demo_clients ! i), PubBase64 = StdEncoding_EncodeToString (fst (ge_ed25519 env i)),
          Subject = cl_Sub (demo_clients ! i), Scopes = cl_Scopes (demo_clients ! i)\<rparr>) [0..<4]"
  unfolding snd_client_keys by (simp add: key_registrations_def generated_config_def demo_clients_def upt_rec eval_nat_numeral)

lemma generated_verifier:
  assumes "\<forall>i < 4. length (fst (ge_ed25519 env i)) = 32"
  obtains v where
    "NewVerifierWithStore (key_registrations (generated_config (snd (client_keys env 0 demo_clients)))) iss aud = Inr v"
    "keys v = map_of (map (\<lambda>i. (cl_Kid (demo_clients ! i), client_entry env i)) [0..<4])"
proof -
  let ?regs = "key_registrations (generated_config (snd (client_keys env 0 demo_clients)))"
  let ?m = "\<lambda>kid. map_option registered_as (find (\<lambda>r. reg_Kid r = kid) (rev ?regs))"
  have "list_all valid_registration ?regs" "?regs \<noteq> []"
    using assms unfolding generated_registrations by (auto simp: list_all_iff valid_registration_def Std_roundtrip)
  then have "NewVerifierWithStore ?regs iss aud = Inr \<lparr>keys = ?m, issuer = iss, audience = aud\<rparr>"
    unfolding NewVerifierWithStore_Inr by blast
  moreover have "?m = map_of (map (\<lambda>i. (cl_Kid (demo_clients ! i), client_entry env i)) [0..<4])"
    unfolding generated_registrations
    by (rule ext) (simp add: upt_rec demo_clients_def registered_as_def client_entry_def Std_roundtrip)
  ultimately show ?thesis using that by simp
qed

lemma length_demo_clients: "length demo_clients = 4"
  by (simp add: demo_clients_def)

lemma gen_client_file:
  assumes g: "gen_main os env = (files, out, None)" and i: "i < 4"
  shows "\<lparr>af_dir = ''clients'', af_name = cl_Sub (demo_clients ! i) @ ''.json'',
      af_content = ClientJSON (cl_Kid (demo_clients ! i)) (cl_Sub (demo_clients ! i)) (cl_Scopes (demo_clients ! i))
        (StdEncoding_EncodeToString (snd (ge_ed25519 env i))) (StdEncoding_EncodeToString (fst (ge_ed25519 env i))),
      af_mode = 384\<rparr> \<in> set files"
proof -
  have "(i, demo_clients ! i) \<in> set (enumerate 0 demo_clients)"
    using i by (simp add: in_set_enumerate_eq length_demo_clients)
  then have "\<lparr>af_dir = ''clients'', af_name = cl_Sub (demo_clients ! i) @ ''.json'',
      af_content = ClientJSON (cl_Kid (demo_clients ! i)) (cl_Sub (demo_clients ! i)) (cl_Scopes (demo_clients ! i))
        (StdEncoding_EncodeToString (snd (ge_ed25519 env i))) (StdEncoding_EncodeToString (fst (ge_ed25519 env i))),
      af_mode = 384\<rparr> \<in> set (files_of (fst (client_keys env 0 demo_clients)))" (is "?f \<in> _")
    unfolding files_client_keys by force
  moreover have "set (files_of (fst (client_keys env 0 demo_clients))) \<subseteq> set (files_of (gen_calls env))"
    unfolding files_of_def by (simp add: gen_calls_def Let_def case_prod_beta) blast
  ultimately show ?thesis unfolding gen_main_None [OF g] by blast
qed

lemma generated_routes_served:
  assumes "gateway_main os = Inr g"
    and "Load (read_config os) (yaml_Unmarshal os) (envOr (os_Getenv os) ''GATEWAY_CONFIG'' ''/etc/gateway/config.yaml'')
       = Inr (generated_config pubs)"
    and "rt \<in> set (routes (g_handler g))"
  shows "pools (g_state g) (re_service rt) \<noteq> None \<and> clients (g_handler g) (re_service rt) \<noteq> None"
proof (rule gateway_wired [OF assms(1)])
  fix cfg raw ca kp
  assume "Load (read_config os) (yaml_Unmarshal os) (envOr (os_Getenv os) ''GATEWAY_CONFIG'' ''/etc/gateway/config.yaml'') = Inr cfg"
    and r: "map re_service (routes (g_handler g)) = map rt_Service (Routes cfg)"
    and w: "wired (\<lambda>n. \<lparr>MinVersion = VersionTLS12, RootCAs = ca, Certificates = [kp], ServerName = n\<rparr>)
       (set (Services cfg)) (pools (g_state g)) (clients (g_handler g)) (g_checkers g)"
  with assms(2) have cfg: "cfg = generated_config pubs" by simp
  have "re_service rt \<in> set (map re_service (routes (g_handler g)))" using assms(3) by simp
  then have "re_service rt \<in> svc_Name ` set (Services cfg)"
    unfolding r cfg by (auto simp: generated_config_def services_def)
  then show ?thesis using w by (auto simp: wired_def dom_def set_eq_iff)
qed

text \<open>
  C40: the generated files fit together and with the gateway.  The text a complete run writes
  for \<^verbatim>\<open>gateway.yaml\<close> is a YAML document in block style; where the parser reads that document, and
  \<^verbatim>\<open>5m\<close> as five minutes, the gateway loads the configuration it stands for: the struct tags select every
  value.  Its verifier then knows exactly the four clients, each kid with the very key pair
  whose private half is in the client's own file, decoded from base64 byte for byte, and a
  started gateway serves every configured route.
\<close>

theorem generated_config_usable:
  assumes "gen_main fs env = (files, out, None)"
    and "\<forall>i < 4. length (fst (ge_ed25519 env i)) = 32"
    and "read_config os (envOr (os_Getenv os) ''GATEWAY_CONFIG'' ''/etc/gateway/config.yaml'') = Inr raw"
    and "(''config'', ''gateway.yaml'', raw) \<in> set (yaml_files files)"
    and "yaml_reads (yaml_parse os) (config_doc (snd (client_keys env 0 demo_clients)))"
    and "time_ParseDuration os ''5m'' = Some (5 * minute)"
  shows "\<exists>cfg v. Load (read_config os) (yaml_Unmarshal os) (envOr (os_Getenv os) ''GATEWAY_CONFIG'' ''/etc/gateway/config.yaml'')
        = Inr cfg
     \<and> cfg = generated_config (snd (client_keys env 0 demo_clients))
     \<and> NewVerifierWithStore (key_registrations cfg) (cfg_Issuer cfg) (cfg_Audience cfg) = Inr v
     \<and> dom (keys v) = cl_Kid ` set demo_clients
     \<and> (\<forall>i < 4. \<exists>f sk pk.
          f \<in> set files \<and> af_dir f = ''clients'' \<and> af_name f = cl_Sub (demo_clients ! i) @ ''.json''
          \<and> af_content f = ClientJSON (cl_Kid (demo_clients ! i)) (cl_Sub (demo_clients ! i)) (cl_Scopes (demo_clients ! i)) sk pk
          \<and> keys v (cl_Kid (demo_clients ! i)) = Some (client_entry env i)
          \<and> StdEncoding_DecodeString pk = Some (pub (client_entry env i))
          \<and> StdEncoding_DecodeString sk = Some (snd (ge_ed25519 env i)))
     \<and> (\<forall>g rt. gateway_main os = Inr g \<and> rt \<in> set (routes (g_handler g)) \<longrightarrow>
          pools (g_state g) (re_service rt) \<noteq> None \<and> clients (g_handler g) (re_service rt) \<noteq> None)"
proof -
  define pubs where "pubs = snd (client_keys env 0 demo_clients)"
  have raw: "raw = config_yaml pubs" using assms(4) unfolding gen_yaml_files [OF assms(1)] pubs_def by simp
  have l: "Load (read_config os) (yaml_Unmarshal os) (envOr (os_Getenv os) ''GATEWAY_CONFIG'' ''/etc/gateway/config.yaml'')
      = Inr (generated_config pubs)"
    unfolding yaml_Unmarshal_def
    by (rule Load_generated) (use assms(3,5,6) in \<open>simp_all only: raw pubs_def\<close>)
  obtain v where v: "NewVerifierWithStore (key_registrations (generated_config pubs)) (cfg_Issuer (generated_config pubs))
      (cfg_Audience (generated_config pubs)) = Inr v"
    and ks: "keys v = map_of (map (\<lambda>i. (cl_Kid (demo_clients ! i), client_entry env i)) [0..<4])"
    using generated_verifier [OF assms(2)] unfolding pubs_def by blast
  have dom: "dom (keys v) = cl_Kid ` set demo_clients" by (simp add: ks upt_rec demo_clients_def)
  have kid: "keys v (cl_Kid (demo_clients ! i)) = Some (client_entry env i)" if "i < 4" for i
  proof -
    have "distinct (map fst (map (\<lambda>i. (cl_Kid (demo_clients ! i), client_entry env i)) [0..<4]))"
      by (simp add: upt_rec demo_clients_def)
    with that show ?thesis unfolding ks by (auto intro: map_of_is_SomeI)
  qed
  have pk: "pub (client_entry env i) = fst (ge_ed25519 env i)" for i
    by (simp add: client_entry_def)
  have clients: "\<exists>f sk pk. f \<in> set files \<and> af_dir f = ''clients'' \<and> af_name f = cl_Sub (demo_clients ! i) @ ''.json''
      \<and> af_content f = ClientJSON (cl_Kid (demo_clients ! i)) (cl_Sub (demo_clients ! i)) (cl_Scopes (demo_clients ! i)) sk pk
      \<and> keys v (cl_Kid (demo_clients ! i)) = Some (client_entry env i)
      \<and> StdEncoding_DecodeString pk = Some (pub (client_entry env i))
      \<and> StdEncoding_DecodeString sk = Some (snd (ge_ed25519 env i))" if "i < 4" for i
    by (intro exI [of _ "StdEncoding_EncodeToString (snd (ge_ed25519 env i))"] exI [of _ "StdEncoding_EncodeToString (fst (ge_ed25519 env i))"]
          exI conjI, rule gen_client_file [OF assms(1) that])
       (simp, simp, simp, simp_all only: kid [OF that] pk Std_roundtrip)
  show ?thesis
    using l v dom clients generated_routes_served [OF _ l] unfolding pubs_def [symmetric] by blast
qed

theorem generated_config_usable_witness:
  "\<exists>cfg v. cfg = generated_config (snd (client_keys demo_gen_env 0 demo_clients))
     \<and> NewVerifierWithStore (key_registrations cfg) (cfg_Issuer cfg) (cfg_Audience cfg) = Inr v
     \<and> keys v ''k-intern'' = Some (client_entry demo_gen_env 3)"
proof -
  let ?pubs = "snd (client_keys demo_gen_env 0 demo_clients)"
  define os where "os = demo_outside\<lparr>read_config := \<lambda>_. Inr (config_yaml ?pubs),
    yaml_parse := \<lambda>_. Inr (YMap (map field_value (config_doc ?pubs))), time_ParseDuration := \<lambda>_. Some (5 * minute)\<rparr>"
  obtain files where f: "gen_main (\<lambda>_. None) demo_gen_env = (files, summary, None)" by (rule demo_run)
  have k: "\<forall>i < 4. length (fst (ge_ed25519 demo_gen_env i)) = 32" by (simp add: demo_gen_env_def)
  have r: "read_config os p = Inr (config_yaml ?pubs)" for p by (simp add: os_def)
  have y: "(''config'', ''gateway.yaml'', config_yaml ?pubs) \<in> set (yaml_files files)" unfolding gen_yaml_files [OF f] by simp
  have p: "yaml_reads (yaml_parse os) (config_doc ?pubs)" "time_ParseDuration os ''5m'' = Some (5 * minute)"
    by (simp_all add: os_def yaml_reads_def)
  obtain cfg v where a: "cfg = generated_config ?pubs" "NewVerifierWithStore (key_registrations cfg) (cfg_Issuer cfg) (cfg_Audience cfg) = Inr v"
    and b: "\<forall>i < 4. keys v (cl_Kid (demo_clients ! i)) = Some (client_entry demo_gen_env i)"
    using generated_config_usable [OF f k r y p] by (elim exE conjE) blast
  have "cl_Kid (demo_clients ! 3) = ''k-intern''" by (simp add: demo_clients_def)
  with b [rule_format, of 3] have "keys v ''k-intern'' = Some (client_entry demo_gen_env 3)" by simp
  with a show ?thesis by blast
qed



end
