(* ===== verification/Rogue_Backend.thy ===== *)
theory Rogue_Backend
  imports Gateway_System Gen_Artifacts
begin

text \<open>
  The rogue replica of the demo, end to end: the certificate the generator writes for it, the
  TLS configuration the gateway builds from the files, the health checker's probes and the
  request path.  What a backend presents in the handshake is a parameter; that \<^verbatim>\<open>crypto/tls\<close>
  lets no answer through from a server whose certificate does not verify is a hypothesis.
\<close>

section \<open>Networks that check certificates\<close>

definition handshake_ok :: "('k certificate list, 'c) tls_Config \<Rightarrow> 'k certificate \<Rightarrow> bool" where
  "handshake_ok cfg cert \<longleftrightarrow> (\<exists>t. x509_Verify (RootCAs cfg) t (Some (ServerName cfg)) ServerAuth cert)"

text \<open>\<^verbatim>\<open>cert_at\<close> is the certificate presented at a URL, \<^verbatim>\<open>net\<close> what a probe of it may return.\<close>

definition tls_network ::
  "(string \<Rightarrow> 'k certificate) \<Rightarrow> (('k certificate list, 'c) http_Client \<Rightarrow> string \<Rightarrow> do_result set) \<Rightarrow> bool" where
  "tls_network cert_at net \<longleftrightarrow>
     (\<forall>cl url code. DoStatus code \<in> net cl url \<longrightarrow> handshake_ok (TLSClientConfig cl) (cert_at url))"

definition tls_attempt :: "(string \<Rightarrow> 'k certificate) \<Rightarrow> ('k certificate list, 'c) attempt_env \<Rightarrow> bool" where
  "tls_attempt cert_at env \<longleftrightarrow>
     (\<forall>cl req code hdr bs. ae_Do env cl req = Answer code hdr bs \<longrightarrow>
        handshake_ok (TLSClientConfig cl) (cert_at (o_URL req)))"

section \<open>The system on such a network\<close>

definition probe_url :: "('pool, 'cert) checker_state \<Rightarrow> nat \<Rightarrow> string" where
  "probe_url s i = Addr (backends (cpool s) ! i) @ healthPath (checker s)"

text \<open>A step of the system in which a probe returns only what the network may return.\<close>

inductive net_step ::
  "(('pool, 'cert) http_Client \<Rightarrow> string \<Rightarrow> do_result set) \<Rightarrow> ('pool, 'cert) system \<Rightarrow> ('pool, 'cert) system \<Rightarrow> bool"
  for net where
  Other: "system_step s s' \<Longrightarrow> results (chk s') = results (chk s) \<Longrightarrow> net_step net s s'"
| Probe: "i \<in># pending (chk s) \<Longrightarrow> r \<in> net (ck_client (checker (chk s))) (probe_url (chk s) i) \<Longrightarrow>
    net_step net s (s\<lparr>chk := finish_probe i r (chk s)\<rparr>)"

lemma net_step_system: "net_step net s s' \<Longrightarrow> system_step s s'"
  by (auto elim!: net_step.cases intro: Probed)

lemma net_steps_system: "(net_step net)\<^sup>*\<^sup>* s s' \<Longrightarrow> system_step\<^sup>*\<^sup>* s s'"
  by (rule mono_rtranclp [rule_format, OF net_step_system])

text \<open>What no step changes: the checker's client and path, and the addresses.\<close>

definition fixed_parts :: "('pool, 'cert) system \<Rightarrow> ('pool, 'cert) http_Client \<times> string \<times> string list" where
  "fixed_parts s = (ck_client (checker (chk s)), healthPath (checker (chk s)), map Addr (backends (cpool (chk s))))"

lemma Addr_on_backend: "(\<And>b. Addr (f b) = Addr b) \<Longrightarrow> map Addr (backends (on_backend f i p)) = map Addr (backends p)"
  by (cases "i < length (backends p)") (auto simp: on_backend_def list_update_beyond map_update intro!: nth_equalityI simp: nth_list_update)

lemma finish_probe_fixed:
  "ck_client (checker (finish_probe i r c)) = ck_client (checker c)"
  "healthPath (checker (finish_probe i r c)) = healthPath (checker c)"
  "map Addr (backends (cpool (finish_probe i r c))) = map Addr (backends (cpool c))"
  by (auto simp: finish_probe_def record_probe_def Let_def Addr_on_backend SetHealthy_def)

lemma fixed_parts_step: "system_step s s' \<Longrightarrow> fixed_parts s' = fixed_parts s"
  by (erule system_stepE)
     (simp_all add: fixed_parts_def touch_def advance_def tick_def finish_probe_fixed Addr_on_backend Acquire_def
        Release_def)

lemma fixed_parts_reachable: "system_step\<^sup>*\<^sup>* s s' \<Longrightarrow> fixed_parts s' = fixed_parts s"
  by (induction rule: rtranclp_induct) (simp_all add: fixed_parts_step)

lemma fixed_parts_init:
  "fixed_parts (system_init (NewChecker tlsCfg path iv) (NewPool svc cfg)) =
     (ck_client (NewChecker tlsCfg path iv), path, map cb_Addr cfg)"
  by (simp add: fixed_parts_def system_init_def Run_init_def tick_def NewChecker_def NewPool_def new_backend_def)

section \<open>A backend whose certificate does not verify\<close>

lemma rejected_results:
  assumes run: "(net_step net)\<^sup>*\<^sup>* (system_init (NewChecker tlsCfg path iv) (NewPool svc cfg)) s"
    and net: "tls_network cert_at net" and i: "i < length cfg"
    and bad: "\<not> handshake_ok tlsCfg (cert_at (cb_Addr (cfg ! i) @ path))"
  shows "results (chk s) i = replicate (length (results (chk s) i)) False"
  using run
proof (induction rule: rtranclp_induct)
  case base
  show ?case by (simp add: system_init_def Run_init_def tick_def)
next
  case (step s s')
  have "fixed_parts s = (ck_client (NewChecker tlsCfg path iv), path, map cb_Addr cfg)"
    using fixed_parts_reachable [OF net_steps_system [OF step(1)]] by (simp add: fixed_parts_init)
  then have fixed: "TLSClientConfig (ck_client (checker (chk s))) = tlsCfg" "healthPath (checker (chk s)) = path"
    "map Addr (backends (cpool (chk s))) = map cb_Addr cfg" by (simp_all add: fixed_parts_def NewChecker_def)
  then have "probe_url (chk s) i = cb_Addr (cfg ! i) @ path"
    using i by (metis length_map nth_map probe_url_def)
  then have "\<not> probe_ok r" if "r \<in> net (ck_client (checker (chk s))) (probe_url (chk s) i)" for r
    using that net bad fixed(1) by (cases r) (auto simp: probe_ok_def tls_network_def)
  with step(2) step.IH show ?case
    by (cases rule: net_step.cases) (auto simp: finish_probe_def Let_def split_beta)
qed

lemma decided_up_failures: "decided_up (replicate n False) \<longleftrightarrow> n < 3"
proof (induction n)
  case (Suc n)
  then show ?case by (cases n; cases "n - 1") (auto simp: numeral_3_eq_3)
qed simp

lemma rejected_attempt:
  assumes f: "f = forward env h r w route pool i rid subject" and "tls_attempt cert_at env"
    and "clients h (re_service route) = Some client"
    and "\<not> handshake_ok (TLSClientConfig client) (cert_at (forward_target (backends pool ! i) route r))"
  shows "f_err f \<noteq> None \<and> f_w f = w"
proof (cases rule: forward_cases [OF f refl, case_names unsendable no_client transport answer])
  case (answer cl code hdr bs)
  then have "handshake_ok (TLSClientConfig client) (cert_at (o_URL (out_request r route (backends pool ! i) rid subject)))"
    using assms(2,3) unfolding tls_attempt_def by (metis option.inject)
  with assms(4) show ?thesis by (simp add: out_request_def)
qed (use assms(3) in simp_all)

section \<open>Property\<close>

text \<open>
  C31: the rogue replica is contained.  Let the gateway pin the root CA the generator wrote,
  under any service name, and let some backend of the service present the rogue certificate.
  Then no probe of it ever succeeds: under every interleaving it is in the pool exactly until
  its third probe has completed, and not one request is routed to it afterwards; and at any
  time an attempt to forward to it fails without a byte of its answer reaching the client.
\<close>

theorem rogue_backend_contained:
  assumes "gen_main os genv = (files, out, None)" and "ge_key genv 0 \<noteq> ge_key genv 5"
    and "map_of (cert_files files) ''ca.crt'' = Some ca" and "map_of (cert_files files) ''rogue-llm.crt'' = Some rogue"
    and "BackendTLS fs caPath certPath keyPath svc = Inr tlsCfg"
    and "os_ReadFile fs caPath = Inr raw" and "AppendCertsFromPEM fs raw = Some [ca]"
    and "tls_network cert_at net" and "tls_attempt cert_at env"
    and "distinct (map cb_ID cfg)" and "i < length cfg" and "cert_at (cb_Addr (cfg ! i) @ path) = rogue"
    and "(net_step net)\<^sup>*\<^sup>* (system_init (NewChecker tlsCfg path iv) (NewPool svc cfg)) s"
    and "clients h (re_service route) = Some (NewBackendClient tlsCfg)"
    and "cert_at (forward_target (backends (cpool (chk s)) ! i) route r) = rogue"
    and "f = forward env h r w route (cpool (chk s)) i rid subject"
  shows "(healthy (backends (cpool (chk s)) ! i) \<longleftrightarrow> length (results (chk s) i) < 3)
     \<and> (3 \<le> length (results (chk s) i) \<longrightarrow> Pick (cpool (chk s)) r1 r2 \<noteq> Some i)
     \<and> f_err f \<noteq> None \<and> f_w f = w"
proof -
  have "ca = root_ca genv" "rogue = mustLeaf genv 6 (rogue_ca genv) (ge_key genv 5) ''llm''
      [''llm'', ''llm-4'', ''rogue-llm'', ''localhost''] [ServerAuth, ClientAuth]"
    using assms(3,4) unfolding gen_cert_files [OF assms(1)] by simp_all
  moreover have "RootCAs tlsCfg = [ca]" using assms(5-7) by (auto simp: BackendTLS_Inr_iff)
  ultimately have bad: "\<not> handshake_ok tlsCfg rogue"
    using foreign_leaf_rejected [OF assms(2)] by (simp add: handshake_ok_def)
  have run: "system_step\<^sup>*\<^sup>* (system_init (NewChecker tlsCfg path iv) (NewPool svc cfg)) s"
    by (rule net_steps_system [OF assms(13)])
  have "map Addr (backends (cpool (chk s))) = map cb_Addr cfg"
    using fixed_parts_reachable [OF run] by (simp add: fixed_parts_init) (simp add: fixed_parts_def)
  then have len: "i < length (backends (cpool (chk s)))" using assms(11) by (metis length_map)
  have "results (chk s) i = replicate (length (results (chk s) i)) False"
    by (rule rejected_results [OF assms(13,8,11)]) (use bad assms(12) in simp)
  then have "decided_up (results (chk s) i) \<longleftrightarrow> length (results (chk s) i) < 3"
    using decided_up_failures by metis
  then have up: "healthy (backends (cpool (chk s)) ! i) \<longleftrightarrow> length (results (chk s) i) < 3"
    using checker_inv_healthy [OF checker_inv_reachable [OF system_checker_reachable [OF run] assms(10)] len] by simp
  then have "3 \<le> length (results (chk s) i) \<longrightarrow> Pick (cpool (chk s)) r1 r2 \<noteq> Some i"
    using Pick_in_Healthy [of "cpool (chk s)" r1 r2 i] by (auto simp: Healthy_set)
  moreover have "f_err f \<noteq> None \<and> f_w f = w"
    by (rule rejected_attempt [OF assms(16,9,14)]) (use bad assms(15) in \<open>simp add: NewBackendClient_def\<close>)
  ultimately show ?thesis using up by blast
qed

text \<open>The demo's service with the rogue replica as its only backend, after three probes.\<close>

definition rogue_cert :: "nat certificate" where
  "rogue_cert = mustLeaf demo_gen_env 6 (rogue_ca demo_gen_env) (ge_key demo_gen_env 5) ''llm''
     [''llm'', ''llm-4'', ''rogue-llm'', ''localhost''] [ServerAuth, ClientAuth]"

definition pinned_tls :: "(nat certificate list, nat) tls_Config" where
  "pinned_tls = \<lparr>MinVersion = VersionTLS12, RootCAs = [root_ca demo_gen_env], Certificates = [0], ServerName = ''s''\<rparr>"

definition pinned_files :: "(nat certificate list, nat) tls_files" where
  "pinned_files = \<lparr>os_ReadFile = (\<lambda>_. Inr ''pem''), AppendCertsFromPEM = (\<lambda>_. Some [root_ca demo_gen_env]),
     LoadX509KeyPair = (\<lambda>_ _. Inr 0)\<rparr>"

definition untrusted :: do_result where
  "untrusted = DoErr ''x509: certificate signed by unknown authority''"

definition untrusted_attempt :: "(nat certificate list, nat) attempt_env" where
  "untrusted_attempt = \<lparr>ae_newreq = (\<lambda>_ _. None), ae_start = demo_now, ae_done = demo_now, ae_observed = demo_now,
     ae_Do = (\<lambda>_ _. Transport refused), ae_world = (\<lambda>p. p), ae_world' = (\<lambda>p. p)\<rparr>"

definition pinned_handler :: "(nat certificate list, nat) Handler" where
  "pinned_handler = \<lparr>routes = [demo_route], h_verifier = demo_verifier, clients = [''llm'' \<mapsto> NewBackendClient pinned_tls]\<rparr>"

definition rogue_start :: "(nat certificate list, nat) system" where
  "rogue_start = system_init (NewChecker pinned_tls ''/healthz'' (2 * second)) (NewPool ''s'' lone_cfg)"

definition probe_fails :: "(nat certificate list, nat) system \<Rightarrow> (nat certificate list, nat) system" where
  "probe_fails s = s\<lparr>chk := tick (finish_probe 0 untrusted (chk s))\<rparr>"

lemma probe_fails_run:
  assumes "0 \<in># pending (chk s)"
  shows "(net_step (\<lambda>_ _. {untrusted}))\<^sup>*\<^sup>* s (probe_fails s)"
proof -
  let ?s = "s\<lparr>chk := finish_probe 0 untrusted (chk s)\<rparr>"
  have "net_step (\<lambda>_ _. {untrusted}) s ?s" by (rule Probe [OF assms]) simp
  moreover have "net_step (\<lambda>_ _. {untrusted}) ?s (?s\<lparr>chk := tick (chk ?s)\<rparr>)"
    by (rule Other [OF Ticks]) (simp add: tick_def)
  ultimately show ?thesis by (simp add: probe_fails_def)
qed

lemma probe_fails_pending: "backends (cpool (chk s)) \<noteq> [] \<Longrightarrow> 0 \<in># pending (chk (probe_fails s))"
  by (simp add: probe_fails_def tick_def All_def finish_probe_inflight)

lemma probe_fails_facts:
  "results (chk (probe_fails s)) 0 = False # results (chk s) 0"
  "backends (cpool (chk s)) \<noteq> [] \<Longrightarrow> backends (cpool (chk (probe_fails s))) \<noteq> []"
  by (simp_all add: probe_fails_def tick_def finish_probe_def Let_def split_beta untrusted_def probe_ok_def)
     (auto simp: record_probe_def Let_def on_backend_def)

theorem rogue_backend_contained_witness:
  "let s = probe_fails (probe_fails (probe_fails rogue_start)) in
   \<not> healthy (backends (cpool (chk s)) ! 0) \<and> Pick (cpool (chk s)) 0 0 \<noteq> Some 0
   \<and> f_w (forward untrusted_attempt pinned_handler demo_request new_writer demo_route (cpool (chk s)) 0 '''' '''') = new_writer"
proof -
  obtain files where gen: "gen_main (\<lambda>_. None) demo_gen_env = (files, summary, None)" by (rule demo_run)
  define s where "s = probe_fails (probe_fails (probe_fails rogue_start))"
  have start: "0 \<in># pending (chk rogue_start)" "backends (cpool (chk rogue_start)) \<noteq> []" "results (chk rogue_start) 0 = []"
    by (simp_all add: rogue_start_def system_init_def Run_init_def tick_def All_def NewPool_def lone_cfg_def)
  have run: "(net_step (\<lambda>_ _. {untrusted}))\<^sup>*\<^sup>* rogue_start s"
    unfolding s_def by (intro rtranclp_trans [OF probe_fails_run rtranclp_trans [OF probe_fails_run probe_fails_run]]
        probe_fails_pending probe_fails_facts(2) start)
  have n: "length (results (chk s) 0) = 3" by (simp add: s_def probe_fails_facts(1) start(3))
  have certs: "map_of (cert_files files) ''ca.crt'' = Some (root_ca demo_gen_env)"
    "map_of (cert_files files) ''rogue-llm.crt'' = Some rogue_cert"
    unfolding gen_cert_files [OF gen] by (simp_all add: rogue_cert_def)
  have tls: "BackendTLS pinned_files '''' '''' '''' ''s'' = Inr pinned_tls" "os_ReadFile pinned_files '''' = Inr ''pem''"
    "AppendCertsFromPEM pinned_files ''pem'' = Some [root_ca demo_gen_env]"
    by (simp_all add: BackendTLS_def pinned_files_def pinned_tls_def)
  have net: "tls_network (\<lambda>_. rogue_cert) (\<lambda>_ _. {untrusted})" "tls_attempt (\<lambda>_. rogue_cert) untrusted_attempt"
    by (simp_all add: tls_network_def tls_attempt_def untrusted_def untrusted_attempt_def)
  have "ge_key demo_gen_env 0 \<noteq> ge_key demo_gen_env 5" "clients pinned_handler (re_service demo_route) = Some (NewBackendClient pinned_tls)"
    "distinct (map cb_ID lone_cfg)" "0 < length lone_cfg"
    by (simp_all add: demo_gen_env_def pinned_handler_def demo_route_def lone_cfg_def)
  from rogue_backend_contained [OF gen this(1) certs tls net this(3,4) refl run [unfolded rogue_start_def] this(2) refl refl] n
  show ?thesis unfolding s_def [symmetric] Let_def by auto
qed

end
