(* ===== verification/Gateway_Fleet.thy ===== *)
theory Gateway_Fleet
  imports Request_Path
begin

text \<open>
  Gateways over time: any number of replicas that share one nonce store, each with its own
  handler and pools, and the requests, store upkeep and health changes that come to them in
  some order.  A replica that is restarted with a new configuration is another replica.  A single
  gateway with its in-memory store is a fleet too.  Requests stand in the order of their store
  operations, which the store's lock, or the Redis server, makes one after the other; their clock
  readings are free: nothing orders them among each other, within a request, or with the upkeep.
\<close>

section \<open>Runs\<close>

text \<open>\<^verbatim>\<open>Upkeep\<close> is a tick of the sweeper for the in-memory store, and a move of the server's clock for Redis.\<close>

datatype ('pool, 'cert) fleet_event =
    Request nat "('pool, 'cert) serve_env" response_writer http_Request  \<comment> \<open>replica, what the request meets\<close>
  | Upkeep gotime
  | Pools_change nat "(string \<rightharpoonup> Pool) \<Rightarrow> (string \<rightharpoonup> Pool)"  \<comment> \<open>made by checkers and other requests\<close>

record 's fleet =
  fl_pools :: "nat \<Rightarrow> string \<rightharpoonup> Pool"
  fl_nonces :: 's

definition serve_at ::
  "auth_lib \<Rightarrow> 's nonce_op \<Rightarrow> (nat \<Rightarrow> ('pool, 'cert) Handler) \<Rightarrow> 's fleet \<Rightarrow> nat
   \<Rightarrow> ('pool, 'cert) serve_env \<Rightarrow> response_writer \<Rightarrow> http_Request \<Rightarrow> 's served" where
  "serve_at lib cas hs fl k env w r =
     ServeHTTP lib cas env (hs k) \<lparr>pools = fl_pools fl k, nonces = fl_nonces fl\<rparr> w r"

fun after_event ::
  "auth_lib \<Rightarrow> 's nonce_op \<Rightarrow> (gotime \<Rightarrow> 's \<Rightarrow> 's) \<Rightarrow> (nat \<Rightarrow> ('pool, 'cert) Handler) \<Rightarrow> 's fleet
   \<Rightarrow> ('pool, 'cert) fleet_event \<Rightarrow> 's fleet" where
  "after_event lib cas mt hs fl (Request k env w r) =
     (let st = sv_state (serve_at lib cas hs fl k env w r)
      in \<lparr>fl_pools = (fl_pools fl)(k := pools st), fl_nonces = nonces st\<rparr>)"
| "after_event lib cas mt hs fl (Upkeep now) = fl\<lparr>fl_nonces := mt now (fl_nonces fl)\<rparr>"
| "after_event lib cas mt hs fl (Pools_change k f) = fl\<lparr>fl_pools := (fl_pools fl)(k := f (fl_pools fl k))\<rparr>"

fun after_events ::
  "auth_lib \<Rightarrow> 's nonce_op \<Rightarrow> (gotime \<Rightarrow> 's \<Rightarrow> 's) \<Rightarrow> (nat \<Rightarrow> ('pool, 'cert) Handler) \<Rightarrow> 's fleet
   \<Rightarrow> ('pool, 'cert) fleet_event list \<Rightarrow> 's fleet" where
  "after_events lib cas mt hs fl [] = fl"
| "after_events lib cas mt hs fl (e # evs) = after_events lib cas mt hs (after_event lib cas mt hs fl e) evs"

text \<open>The claims a request presents to a replica.\<close>

definition presents :: "auth_lib \<Rightarrow> ('pool, 'cert) Handler \<Rightarrow> http_Request \<Rightarrow> Claims \<Rightarrow> bool" where
  "presents lib h r c \<longleftrightarrow> (\<exists>key. authentic lib (h_verifier h) (extractBearer (rq_Header r)) key c)"

lemma presents_unique: "presents lib h r c \<Longrightarrow> presents lib h r c' \<Longrightarrow> c' = c"
  by (auto simp: presents_def dest: authentic_unique)

section \<open>What a request asks of the store\<close>

lemma nonces_route_admitted:
  "nonces (sv_state (route_admitted env h st w r route rid subject c)) = nonces st"
  by (cases rule: route_admitted_cases [of st route env h w r rid subject c]) (simp_all add: denied_def)

lemma nonces_ServeHTTP:
  "nonces (sv_state (ServeHTTP lib cas env h st w r)) =
     (if match_route (routes h) (rq_Path r) \<noteq> None \<and> extractBearer (rq_Header r) \<noteq> ''''
      then snd (Verify lib cas (e_now env) (e_now' env) (h_verifier h) (nonces st) (extractBearer (rq_Header r)))
      else nonces st)"
proof -
  obtain co s e nst where v: "Verify lib cas (e_now env) (e_now' env) (h_verifier h) (nonces st) (extractBearer (rq_Header r))
      = ((co, s, e), nst)" by (metis prod.exhaust)
  show ?thesis
    by (simp add: ServeHTTP_def Let_def v split_beta nonces_route_admitted split: option.split)
qed

lemma sent_admitted:
  assumes "sv_sent (ServeHTTP lib cas env h st w r) \<noteq> []"
  obtains route key c nst' where "admitted lib cas env h (nonces st) r route key c nst'"
  using assms by (cases rule: ServeHTTP_cases [of h r lib cas env st w]) (auto simp: denied_def)

text \<open>A request leaves the store alone and is not sent, or makes one attempt, and is sent only if that is accepted.\<close>

lemma serve_attempt:
  fixes env :: "('pool, 'cert) serve_env"
  assumes "sv = ServeHTTP lib cas env h st w r"
  obtains (none) "nonces (sv_state sv) = nonces st" "sv_sent sv = []"
    | (attempt) c ok where "presents lib h r c" "acceptable (e_now env) (h_verifier h) c"
        "cas (e_now' env) (nonces st) (Jti c) (time_Unix (Exp c)) = (ok, nonces (sv_state sv))" "sv_sent sv = [] \<or> ok"
proof -
  let ?tok = "extractBearer (rq_Header r)"
  let ?called = "match_route (routes h) (rq_Path r) \<noteq> None \<and> ?tok \<noteq> ''''"
  have sent: "\<exists>key c nst'. ?called \<and> authentic lib (h_verifier h) ?tok key c \<and> acceptable (e_now env) (h_verifier h) c
      \<and> cas (e_now' env) (nonces st) (Jti c) (time_Unix (Exp c)) = (True, nst')" if sv: "sv_sent sv \<noteq> []"
    by (rule sent_admitted [OF sv [unfolded assms]]) (auto simp: admitted_def authenticated_def)
  show thesis
  proof (cases ?called)
    case False
    then have "sv_sent sv = []" using sent by blast
    with False show thesis by (intro none) (auto simp: assms nonces_ServeHTTP)
  next
    case True
    then have n: "nonces (sv_state sv) = snd (Verify lib cas (e_now env) (e_now' env) (h_verifier h) (nonces st) ?tok)"
      by (simp add: assms nonces_ServeHTTP)
    show thesis
    proof (cases rule: Verify_cases [of lib cas "e_now env" "e_now' env" "h_verifier h" "nonces st" ?tok])
      case (rejected reason e)
      then have "sv_sent sv = []" using sent by blast
      with rejected n show thesis by (intro none) (simp_all add: reject_def)
    next
      case (replayed key c st')
      have "sv_sent sv = []"
        using sent authentic_unique [OF replayed(1)] replayed(3) by fastforce
      with replayed n show thesis
        by (intro attempt [of c False]) (auto simp: presents_def reject_def)
    next
      case (accepted key c st')
      with n show thesis by (intro attempt [of c True]) (auto simp: presents_def)
    qed
  qed
qed
section \<open>Replay on any store\<close>

text \<open>What a request that is sent found in the store, and the store after it.\<close>

lemma sent_attempt:
  assumes "sv_sent (serve_at lib cas hs fl k env w r) \<noteq> []" and "presents lib (hs k) r c"
  shows "acceptable (e_now env) (h_verifier (hs k)) c"
    and "cas (e_now' env) (fl_nonces fl) (Jti c) (time_Unix (Exp c))
      = (True, fl_nonces (after_event lib cas mt hs fl (Request k env w r)))"
proof -
  define sv where "sv = serve_at lib cas hs fl k env w r"
  have "acceptable (e_now env) (h_verifier (hs k)) c
      \<and> cas (e_now' env) (fl_nonces fl) (Jti c) (time_Unix (Exp c)) = (True, nonces (sv_state sv))"
  proof (cases rule: serve_attempt [OF sv_def [unfolded serve_at_def], case_names none attempt])
    case none
    then show ?thesis using assms(1) by (simp add: sv_def)
  next
    case (attempt c' ok)
    have "c' = c" by (rule presents_unique [OF assms(2) attempt(1)])
    with attempt assms(1) show ?thesis by (simp add: sv_def)
  qed
  then show "acceptable (e_now env) (h_verifier (hs k)) c"
    and "cas (e_now' env) (fl_nonces fl) (Jti c) (time_Unix (Exp c))
      = (True, fl_nonces (after_event lib cas mt hs fl (Request k env w r)))"
    by (simp_all add: sv_def Let_def)
qed

text \<open>Replay safety of a fleet on any store that keeps the interface.\<close>

context nonce_store
begin

lemma held_after_event:
  assumes "holds (fl_nonces fl) jti d" and "\<And>t. e = Upkeep t \<Longrightarrow> in_time t d"
  shows "holds (fl_nonces (after_event lib cas maintain hs fl e)) jti d"
proof (cases e)
  case (Request k env w r)
  define sv where "sv = serve_at lib cas hs fl k env w r"
  have "holds (nonces (sv_state sv)) jti d"
  proof (cases rule: serve_attempt [OF sv_def [unfolded serve_at_def], case_names none attempt])
    case none
    with assms(1) show ?thesis by simp
  next
    case (attempt c ok)
    with cas_keeps [OF assms(1), of "e_now' env" "Jti c" "time_Unix (Exp c)"] show ?thesis by simp
  qed
  then show ?thesis by (simp add: Request sv_def Let_def)
qed (use assms maintain_keeps in simp_all)

lemma held_after_events:
  assumes "holds (fl_nonces fl) jti d" and "\<And>t. Upkeep t \<in> set evs \<Longrightarrow> in_time t d"
  shows "holds (fl_nonces (after_events lib cas maintain hs fl evs)) jti d"
  using assms
proof (induction evs arbitrary: fl)
  case (Cons e evs)
  have "holds (fl_nonces (after_event lib cas maintain hs fl e)) jti d"
    by (rule held_after_event [OF Cons.prems(1)]) (use Cons.prems(2) in simp)
  with Cons.IH Cons.prems(2) show ?case by simp
qed simp

text \<open>While the upkeep between them is in time for the deadline of the first, one of two requests is not sent.\<close>

lemma sends_once:
  assumes "presents lib (hs k) r c" and "presents lib (hs k') r' c'" and "Jti c = Jti c'"
    and "storable (e_now' env) (time_Unix (Exp c))"
    and "\<And>t. Upkeep t \<in> set mid \<Longrightarrow> in_time t (deadline (e_now' env) (fl_nonces fl) (time_Unix (Exp c)))"
    and "fl' = after_events lib cas maintain hs (after_event lib cas maintain hs fl (Request k env w r)) mid"
  shows "sv_sent (serve_at lib cas hs fl k env w r) = [] \<or> sv_sent (serve_at lib cas hs fl' k' env' w' r') = []"
proof (rule ccontr)
  assume "\<not> ?thesis"
  then have sent: "sv_sent (serve_at lib cas hs fl k env w r) \<noteq> []" "sv_sent (serve_at lib cas hs fl' k' env' w' r') \<noteq> []"
    by simp_all
  let ?d = "deadline (e_now' env) (fl_nonces fl) (time_Unix (Exp c))"
  have "holds (fl_nonces (after_event lib cas maintain hs fl (Request k env w r))) (Jti c) ?d"
    by (rule accepted_held [OF sent_attempt(2) [OF sent(1) assms(1)] assms(4)])
  from held_after_events [OF this assms(5)] have "holds (fl_nonces fl') (Jti c') ?d"
    by (simp only: assms(3,6))
  from held_refused [OF this, of "e_now' env'" "time_Unix (Exp c')"] sent_attempt(2) [OF sent(2) assms(2)]
  show False by simp
qed

end

section \<open>Properties\<close>

text \<open>
  C1: replay protection end to end, with the in-memory store.  Take a gateway in any state and
  with any configuration, a request to it, whatever requests, sweeps and health changes
  come after it in whatever order, and then a second request whose token carries the same jti and
  expiry, the same token in particular.  Both are sent to a backend only if, between their store
  operations, a sweep ran on a clock past the expiry, although the clock reading against which
  the second token's expiry was checked was not past it: the race that \<^verbatim>\<open>late_store_replay\<close>
  exhibits.  Clock readings are otherwise free; only the first one must be in Go's documented range.
\<close>

theorem replay_only_by_race:
  assumes "sv = serve_at lib CheckAndStore hs fl k env w r"
    and "fl' = after_events lib CheckAndStore sweep hs (after_event lib CheckAndStore sweep hs fl (Request k env w r)) mid"
    and "sv' = serve_at lib CheckAndStore hs fl' k' env' w' r'"
    and "presents lib (hs k) r c" and "presents lib (hs k') r' c'" and "(Jti c, Exp c) = (Jti c', Exp c')"
    and "sane_time (e_now env)"
  shows "sv_sent sv = [] \<or> sv_sent sv' = []
    \<or> (\<exists>t. Upkeep t \<in> set mid \<and> time_After t (time_Unix (Exp c)) \<and> \<not> time_After (e_now env') (time_Unix (Exp c)))"
proof (rule ccontr)
  assume "\<not> ?thesis"
  then have sent: "sv_sent sv \<noteq> []" "sv_sent sv' \<noteq> []"
    and race: "\<And>t. Upkeep t \<in> set mid \<Longrightarrow> time_After t (time_Unix (Exp c)) \<Longrightarrow> time_After (e_now env') (time_Unix (Exp c))"
    by auto
  have "acceptable (e_now env) (h_verifier (hs k)) c" "acceptable (e_now env') (h_verifier (hs k')) c'"
    using sent_attempt(1) [OF sent(1) [unfolded assms(1)] assms(4)] sent_attempt(1) [OF sent(2) [unfolded assms(3)] assms(5)] .
  then have "\<not> time_IsZero (time_Unix (Exp c))" "\<not> time_After (e_now env') (time_Unix (Exp c))"
    using assms(6,7) sane_le_not_zero by (auto simp: acceptable_def)
  with race cache.sends_once [OF assms(4,5) _ _ _ assms(2)] assms(6) sent show False
    unfolding assms(1,3) by blast
qed

text \<open>
  C2: replay protection across replicas.  Any number of gateways, with any configurations,
  old and new ones side by side during a roll-out, share one Redis server with the documented
  behaviour of \<^verbatim>\<open>SET NX\<close> and with a clock of its own; calls to it may fail at any time.  Let the
  server's clock be at most \<^verbatim>\<open>skew\<close> behind the first gateway's reading when the first token is
  stored, at most \<^verbatim>\<open>skew\<close> ahead of the second gateway's reading when the second is, and not set
  back in between, and let the first token expire within 292 years.  Then of two requests whose
  tokens carry the same jti and expiry both are sent only if the second comes less than twice
  the skew and a millisecond before the expiry.
\<close>

theorem fleet_replay_only_at_expiry:
  assumes "redis_documented setNX tick clock expires"
    and "sv = serve_at lib (Redis_CheckAndStore setNX) hs fl k env w r"
    and "fl' = after_events lib (Redis_CheckAndStore setNX) tick hs
           (after_event lib (Redis_CheckAndStore setNX) tick hs fl (Request k env w r)) mid"
    and "sv' = serve_at lib (Redis_CheckAndStore setNX) hs fl' k' env' w' r'"
    and "presents lib (hs k) r c" and "presents lib (hs k') r' c'" and "(Jti c, Exp c) = (Jti c', Exp c')"
    and "sane_time (e_now' env)" and "time_ns (time_Unix (Exp c)) - time_ns (e_now' env) < 2 ^ 63"
    and "time_ns (e_now' env) \<le> clock (fl_nonces fl) + skew" and "clock (fl_nonces fl') \<le> time_ns (e_now env') + skew"
    and "\<forall>t. Upkeep t \<in> set mid \<longrightarrow> time_ns t \<le> clock (fl_nonces fl')"
  shows "sv_sent sv = [] \<or> sv_sent sv' = []
    \<or> time_ns (time_Unix (Exp c)) - 2 * skew - 1000000 < time_ns (e_now env')"
proof (rule ccontr)
  assume late: "\<not> ?thesis"
  have st: "redis_storable (e_now' env) (time_Unix (Exp c))" using assms(8,9) by (simp add: redis_storable_def)
  have "time_ns t \<le> redis_deadline clock (e_now' env) (fl_nonces fl) (time_Unix (Exp c))" if "Upkeep t \<in> set mid" for t
    using redis_deadline_late [OF st, of clock "fl_nonces fl"] assms(10,11) assms(12) [rule_format, OF that] late by linarith
  from nonce_store.sends_once [OF redis_nonce_store [OF assms(1)] assms(5,6) _ st this assms(3)] assms(7) late
  show False unfolding assms(2,4) by auto
qed

text \<open>The demo request, replayed at the same gateway and at a second replica.\<close>

definition demo_fleet :: "'s \<Rightarrow> 's fleet" where
  "demo_fleet nst = \<lparr>fl_pools = (\<lambda>_. pools demo_gw), fl_nonces = nst\<rparr>"

definition demo_then :: "'s nonce_op \<Rightarrow> (gotime \<Rightarrow> 's \<Rightarrow> 's) \<Rightarrow> 's \<Rightarrow> 's fleet" where
  "demo_then cas mt nst = after_events demo_lib cas mt (\<lambda>_. demo_handler)
     (after_event demo_lib cas mt (\<lambda>_. demo_handler) (demo_fleet nst) (Request 0 demo_env new_writer demo_request)) [Upkeep demo_now]"

lemma demo_presents: "presents demo_lib demo_handler demo_request c \<longleftrightarrow> c = demo_claims"
  using demo_authentic authentic_unique [OF demo_authentic]
  by (auto simp: presents_def demo_bearer demo_handler_def)

lemma demo_times: "e_now demo_env = demo_now" "e_now' demo_env = demo_now"
  by (simp_all add: demo_env_def)

lemma demo_sent:
  assumes "cas demo_now nst (Jti demo_claims) (time_Unix (Exp demo_claims)) = (True, nst')"
  shows "sv_sent (serve_at demo_lib cas (\<lambda>_. demo_handler) (demo_fleet nst) 0 demo_env new_writer demo_request) \<noteq> []"
proof -
  have a: "admitted demo_lib cas demo_env demo_handler nst demo_request demo_route demo_key demo_claims nst'"
    using demo_admitted assms by (simp add: admitted_def authenticated_def) (simp add: demo_env_def)
  have "f_sent demo_f1 \<noteq> []"
    by (simp add: forward_sends [OF demo_f1_def] demo_lib_facts)
  then show ?thesis
    unfolding serve_at_def demo_fleet_def using demo_pool demo_forwarded a
    by (simp add: ServeHTTP_admitted sv_sent_admitted demo_env_simps demo_picks demo_w_def demo_rid_def demo_key_def)
qed

theorem replay_only_by_race_witness:
  "sv_sent (serve_at demo_lib CheckAndStore (\<lambda>_. demo_handler) (demo_fleet demo_store) 0 demo_env new_writer demo_request) \<noteq> []
   \<and> sv_sent (serve_at demo_lib CheckAndStore (\<lambda>_. demo_handler) (demo_then CheckAndStore sweep demo_store) 0 demo_env
       new_writer demo_request) = []"
proof -
  define fl' where "fl' = demo_then CheckAndStore sweep demo_store"
  have "\<not> time_After demo_now (time_Unix (Exp demo_claims))" by code_simp
  moreover have "sv_sent (serve_at demo_lib CheckAndStore (\<lambda>_. demo_handler) (demo_fleet demo_store) 0 demo_env new_writer demo_request) = []
      \<or> sv_sent (serve_at demo_lib CheckAndStore (\<lambda>_. demo_handler) fl' 0 demo_env new_writer demo_request) = []
      \<or> (\<exists>t. Upkeep t \<in> set [Upkeep demo_now :: (nat, nat) fleet_event]
           \<and> time_After t (time_Unix (Exp demo_claims)) \<and> \<not> time_After (e_now demo_env) (time_Unix (Exp demo_claims)))"
    by (rule replay_only_by_race [OF refl fl'_def [unfolded demo_then_def] refl, where c' = demo_claims])
       (simp_all add: demo_presents demo_times demo_sane)
  ultimately show ?thesis
    using demo_sent [of CheckAndStore demo_store, OF demo_stored] by (auto simp: fl'_def)
qed

theorem fleet_replay_only_at_expiry_witness:
  "let cas = Redis_CheckAndStore model_setnx
   in sv_sent (serve_at demo_lib cas (\<lambda>_. demo_handler) (demo_fleet demo_redis) 0 demo_env new_writer demo_request) \<noteq> []
      \<and> sv_sent (serve_at demo_lib cas (\<lambda>_. demo_handler) (demo_then cas model_tick demo_redis) 1 demo_env new_writer demo_request) = []"
proof -
  define cas where "cas = Redis_CheckAndStore model_setnx"
  have "fst (cas demo_now demo_redis (Jti demo_claims) (time_Unix (Exp demo_claims)))" unfolding cas_def by code_simp
  then obtain nst' where "cas demo_now demo_redis (Jti demo_claims) (time_Unix (Exp demo_claims)) = (True, nst')"
    by (metis prod.collapse)
  note sent = demo_sent [of cas demo_redis, OF this]
  have "server_clock (fl_nonces (demo_fleet demo_redis)) = time_ns demo_now"
    by (simp add: demo_fleet_def demo_redis_def)
  moreover have "server_clock (fl_nonces (demo_then cas model_tick demo_redis)) = time_ns demo_now"
    by (simp add: demo_then_def model_tick_def)
  ultimately have "sv_sent (serve_at demo_lib cas (\<lambda>_. demo_handler) (demo_fleet demo_redis) 0 demo_env new_writer demo_request) = []
      \<or> sv_sent (serve_at demo_lib cas (\<lambda>_. demo_handler) (demo_then cas model_tick demo_redis) 1 demo_env new_writer demo_request) = []
      \<or> time_ns (time_Unix (Exp demo_claims)) - 2 * 0 - 1000000 < time_ns (e_now demo_env)"
    unfolding cas_def
    by (intro fleet_replay_only_at_expiry [OF model_documented refl demo_then_def refl])
       (use demo_ns demo_sane in \<open>simp_all add: demo_presents demo_times\<close>)
  with sent demo_ns show ?thesis by (simp add: cas_def [symmetric] demo_times)
qed

end
