(* ===== verification/Gateway_Lifecycle.thy ===== *)
theory Gateway_Lifecycle
  imports Gateway_Main
begin

text \<open>
  The end of \<^verbatim>\<open>main\<close> in \<^verbatim>\<open>cmd/gateway/main.go\<close>, once \<^verbatim>\<open>gateway_main\<close> has started everything: the
  listeners run, \<^verbatim>\<open>signal.Notify\<close> is called, a signal starts an orderly shutdown.  The process
  is a step relation with every way it can end: \<^verbatim>\<open>main\<close> returns; a listener fails, at any moment
  before it is shut down, also while the other one drains; a probe goroutine panics, which
  \<^verbatim>\<open>internal/health/checker.go\<close> does on a URL that does not parse, and takes the process with it;
  or a signal ends it that the process does not handle, or not yet.  How long a server needs
  until its connections are idle is arbitrary; \<^verbatim>\<open>http.Server.Shutdown\<close> waits for that or for
  the shared context of five seconds.
\<close>

section \<open>The process\<close>

datatype exit_status = Exit int | Killed string

datatype proc_phase = Launched | Serving | Draining | Ended exit_status

record process =
  pr_phase :: proc_phase
  pr_elapsed :: int  \<comment> \<open>nanoseconds since the shutdown context was made\<close>
  pr_shut :: "string list"  \<comment> \<open>servers whose \<^verbatim>\<open>Shutdown\<close> has returned, in order\<close>
  pr_logs :: "log_line list"

fun alive :: "proc_phase \<Rightarrow> bool" where
  "alive (Ended c) = False"
| "alive _ = True"

definition shutdown_timeout :: int where
  "shutdown_timeout = sint (5 * second)"

text \<open>The time one \<^verbatim>\<open>Shutdown\<close> takes out of what is left, for a server that needs \<^verbatim>\<open>need\<close> to become idle.\<close>

definition server_Shutdown :: "string \<Rightarrow> int \<Rightarrow> process \<Rightarrow> process" where
  "server_Shutdown name need p =
     p\<lparr>pr_elapsed := pr_elapsed p + min need (shutdown_timeout - pr_elapsed p), pr_shut := pr_shut p @ [name]\<rparr>"

definition shutting_down :: "string \<Rightarrow> log_line" where
  "shutting_down sig = info ''shutting down'' [(''signal'', LStr sig)]"

text \<open>The signals passed to \<^verbatim>\<open>signal.Notify\<close>, by the names \<^verbatim>\<open>sig.String()\<close> gives them.\<close>

definition notified :: "string set" where
  "notified = {''interrupt'', ''terminated''}"

text \<open>The lines a failed listener writes after the one that announced it.\<close>

definition failure_lines :: "string \<Rightarrow> server \<Rightarrow> log_line list" where
  "failure_lines msg srv = tl (fst (serve (\<lambda>_. Some (False, msg)) srv))"

text \<open>Both listeners announce themselves, in either order; the model takes that of the source.\<close>

definition launch :: "server list \<Rightarrow> process" where
  "launch srvs =
     \<lparr>pr_phase = Launched, pr_elapsed = 0, pr_shut = [],
      pr_logs = concat (map (\<lambda>srv. fst (serve (\<lambda>_. None) srv)) srvs)\<rparr>"

text \<open>
  \<^verbatim>\<open>parses\<close> says which URLs \<^verbatim>\<open>http.NewRequest\<close> accepts.  The address of a backend never changes, so
  the pool a checker was started with tells what its probes request.  \<^verbatim>\<open>Unhandled\<close> is any signal
  whose default action ends a process.
\<close>

inductive proc_step :: "(string \<Rightarrow> bool) \<Rightarrow> ('pool, 'cert, 'r) gateway \<Rightarrow> process \<Rightarrow> process \<Rightarrow> bool" for parses g where
  Notify: "pr_phase p = Launched \<Longrightarrow> proc_step parses g p (p\<lparr>pr_phase := Serving\<rparr>)"
| Signalled: "pr_phase p = Serving \<Longrightarrow> sig \<in> notified \<Longrightarrow>
    proc_step parses g p (p\<lparr>pr_phase := Draining, pr_logs := pr_logs p @ [shutting_down sig]\<rparr>)"
| Shut_gateway: "pr_phase p = Draining \<Longrightarrow> pr_shut p = [] \<Longrightarrow> 0 \<le> need \<Longrightarrow>
    proc_step parses g p (server_Shutdown ''gateway'' need p)"
| Shut_metrics: "pr_phase p = Draining \<Longrightarrow> pr_shut p = [''gateway''] \<Longrightarrow> 0 \<le> need \<Longrightarrow>
    proc_step parses g p (server_Shutdown ''metrics'' need p)"
| Returns: "pr_phase p = Draining \<Longrightarrow> pr_shut p = [''gateway'', ''metrics''] \<Longrightarrow>
    proc_step parses g p (p\<lparr>pr_phase := Ended (Exit 0)\<rparr>)"
| Listener_fails: "alive (pr_phase p) \<Longrightarrow> srv \<in> set (g_servers g) \<Longrightarrow>
    srv_name srv \<notin> set (pr_shut p) \<Longrightarrow> snd (serve (\<lambda>_. Some (False, msg)) srv) \<Longrightarrow>
    proc_step parses g p (p\<lparr>pr_phase := Ended (Exit 1), pr_logs := pr_logs p @ failure_lines msg srv\<rparr>)"
| Probe_panics: "alive (pr_phase p) \<Longrightarrow> (ck, pool) \<in> set (g_checkers g) \<Longrightarrow> i < length (backends pool) \<Longrightarrow>
    probe parses net ck pool i = None \<Longrightarrow>
    proc_step parses g p (p\<lparr>pr_phase := Ended (Exit 2)\<rparr>)"
| Unhandled: "alive (pr_phase p) \<Longrightarrow> sig \<notin> notified \<or> pr_phase p = Launched \<Longrightarrow>
    proc_step parses g p (p\<lparr>pr_phase := Ended (Killed sig)\<rparr>)"

inductive_cases proc_stepE: "proc_step parses g p p'"

section \<open>The checkers of a started gateway\<close>

definition probed :: "('pool, 'cert) Checker \<times> Pool \<Rightarrow> string \<times> Pool" where
  "probed = (\<lambda>(ck, p). (healthPath ck, p))"

lemma start_services_checkers:
  "start_services fs cfg svcs (ps, cls, chks, logs) = Inr (ps', cls', chks', logs') \<Longrightarrow>
   map probed chks' = map probed chks @ map (\<lambda>svc. (health_path svc, NewPool (svc_Name svc) (svc_Backends svc))) svcs"
  by (induction svcs arbitrary: ps cls chks logs)
     (auto simp: probed_def NewChecker_def Let_def split: sum.splits)

text \<open>Some configured backend's probe URL does not parse.\<close>

definition bad_probe_url :: "(string \<Rightarrow> bool) \<Rightarrow> Config \<Rightarrow> bool" where
  "bad_probe_url parses cfg \<longleftrightarrow>
     (\<exists>svc \<in> set (Services cfg). \<exists>b \<in> set (svc_Backends svc). \<not> parses (cb_Addr b @ health_path svc))"

definition probe_can_panic :: "(string \<Rightarrow> bool) \<Rightarrow> ('pool, 'cert, 'r) gateway \<Rightarrow> bool" where
  "probe_can_panic parses g \<longleftrightarrow>
     (\<exists>(ck, pool) \<in> set (g_checkers g). \<exists>i < length (backends pool). \<not> parses (Addr (backends pool ! i) @ healthPath ck))"

lemma probe_None_iff: "probe parses net ck pool i = None \<longleftrightarrow> \<not> parses (Addr (backends pool ! i) @ healthPath ck)"
  by (simp add: probe_def Let_def)

lemma probe_can_panic_iff:
  assumes "map probed (g_checkers g) = map (\<lambda>svc. (health_path svc, NewPool (svc_Name svc) (svc_Backends svc))) svcs"
  shows "probe_can_panic parses g \<longleftrightarrow>
    (\<exists>svc \<in> set svcs. \<exists>b \<in> set (svc_Backends svc). \<not> parses (cb_Addr b @ health_path svc))"
proof -
  let ?bad = "\<lambda>(hp, pool). \<exists>i < length (backends pool). \<not> parses (Addr (backends pool ! i) @ hp)"
  have "probe_can_panic parses g \<longleftrightarrow> (\<exists>x \<in> set (map probed (g_checkers g)). ?bad x)"
    by (auto simp: probe_can_panic_def probed_def split_beta)
  also have "\<dots> \<longleftrightarrow> (\<exists>svc \<in> set svcs. ?bad (health_path svc, NewPool (svc_Name svc) (svc_Backends svc)))"
    unfolding assms by auto
  also have "\<dots> \<longleftrightarrow> (\<exists>svc \<in> set svcs. \<exists>b \<in> set (svc_Backends svc). \<not> parses (cb_Addr b @ health_path svc))"
  proof -
    have "(\<exists>i < length (backends (NewPool n bs)). \<not> parses (Addr (backends (NewPool n bs) ! i) @ hp))
        \<longleftrightarrow> (\<exists>b \<in> set bs. \<not> parses (cb_Addr b @ hp))" for n bs hp
    proof -
      have "(\<exists>b \<in> set bs. \<not> parses (cb_Addr b @ hp)) \<longleftrightarrow> (\<exists>i < length bs. \<not> parses (cb_Addr (bs ! i) @ hp))"
        by (metis in_set_conv_nth)
      then show ?thesis by (auto simp: NewPool_def new_backend_def)
    qed
    then show ?thesis by simp
  qed
  finally show ?thesis .
qed

lemma gateway_probes:
  assumes "gateway_main os = Inr g"
  obtains cfg where
    "Load (read_config os) (yaml_Unmarshal os) (envOr (os_Getenv os) ''GATEWAY_CONFIG'' ''/etc/gateway/config.yaml'') = Inr cfg"
    "probe_can_panic parses g \<longleftrightarrow> bad_probe_url parses cfg"
proof (rule gateway_main_Inr [OF assms])
  fix cfg verifier ps cls chks logs
  assume l: "Load (read_config os) (yaml_Unmarshal os) (envOr (os_Getenv os) ''GATEWAY_CONFIG'' ''/etc/gateway/config.yaml'') = Inr cfg"
    and ss: "start_services (key_files os) cfg (Services cfg) (Map.empty, Map.empty, [], []) = Inr (ps, cls, chks, logs)"
    and g: "g_checkers g = chks"
  have "map probed (g_checkers g) = map (\<lambda>svc. (health_path svc, NewPool (svc_Name svc) (svc_Backends svc))) (Services cfg)"
    using start_services_checkers [OF ss] g by simp
  from that [OF l] probe_can_panic_iff [OF this, of parses] show thesis by (simp add: bad_probe_url_def)
qed

section \<open>Invariant, measure and progress\<close>

lemma serve_fails [simp]:
  "snd (serve (\<lambda>_. Some (False, msg)) srv)"
  "failure_lines msg srv = [\<lparr>ll_level = Error, ll_msg = ''server exited'',
     ll_attrs = [(''server'', LStr (srv_name srv)), (''err'', LStr msg)]\<rparr>]"
  by (simp_all add: serve_def failure_lines_def Let_def)

lemma timeout_pos [simp]: "0 < shutdown_timeout"
  by (simp add: shutdown_timeout_def second_def)

definition signalled :: "process \<Rightarrow> bool" where
  "signalled p \<longleftrightarrow> (\<exists>sig \<in> notified. shutting_down sig \<in> set (pr_logs p))"

text \<open>How a process may have ended.\<close>

fun ended_as :: "(string \<Rightarrow> bool) \<Rightarrow> ('pool, 'cert, 'r) gateway \<Rightarrow> process \<Rightarrow> exit_status \<Rightarrow> bool" where
  "ended_as parses g p (Exit c) \<longleftrightarrow>
     c = 0 \<and> signalled p \<and> pr_shut p = [''gateway'', ''metrics'']
     \<or> c = 1 \<and> (\<exists>srv \<in> set (g_servers g). \<exists>msg. srv_name srv \<notin> set (pr_shut p) \<and> last (pr_logs p) = hd (failure_lines msg srv))
     \<or> c = 2 \<and> probe_can_panic parses g"
| "ended_as parses g p (Killed sig) \<longleftrightarrow>
     sig \<notin> notified \<or> p = (launch (g_servers g))\<lparr>pr_phase := Ended (Killed sig)\<rparr>"

definition proc_inv :: "(string \<Rightarrow> bool) \<Rightarrow> ('pool, 'cert, 'r) gateway \<Rightarrow> process \<Rightarrow> bool" where
  "proc_inv parses g p \<longleftrightarrow>
     0 \<le> pr_elapsed p \<and> pr_elapsed p \<le> shutdown_timeout
     \<and> pr_shut p \<in> {[], [''gateway''], [''gateway'', ''metrics'']}
     \<and> (case pr_phase p of
          Launched \<Rightarrow> p = launch (g_servers g)
        | Serving \<Rightarrow> pr_shut p = []
        | Draining \<Rightarrow> signalled p
        | Ended c \<Rightarrow> ended_as parses g p c)"

lemma proc_inv_launch: "proc_inv parses g (launch (g_servers g))"
  by (simp add: proc_inv_def launch_def less_imp_le)

lemma proc_inv_step:
  assumes "proc_step parses g p p'" and "proc_inv parses g p"
  shows "proc_inv parses g p'"
  using assms(1)
proof (cases rule: proc_step.cases)
  case Notify
  with assms(2) show ?thesis by (simp add: proc_inv_def launch_def)
next
  case (Listener_fails srv msg)
  with assms(2) show ?thesis by (auto simp: proc_inv_def)
next
  case (Probe_panics ck pool i net)
  then have "probe_can_panic parses g" by (auto simp: probe_can_panic_def probe_None_iff)
  with Probe_panics assms(2) show ?thesis by (simp add: proc_inv_def)
next
  case (Unhandled sig)
  with assms(2) show ?thesis by (auto simp: proc_inv_def)
qed (use assms(2) in \<open>auto simp: proc_inv_def signalled_def server_Shutdown_def min_def\<close>)

fun remaining :: "process \<Rightarrow> nat" where
  "remaining p = (case pr_phase p of Launched \<Rightarrow> 5 | Serving \<Rightarrow> 4 | Draining \<Rightarrow> 3 - length (pr_shut p) | Ended c \<Rightarrow> 0)"

lemma alive_remaining: "proc_inv parses g p \<Longrightarrow> alive (pr_phase p) \<Longrightarrow> 0 < remaining p"
  by (cases "pr_phase p") (auto simp: proc_inv_def)

lemma remaining_decreases: "proc_step parses g p p' \<Longrightarrow> proc_inv parses g p \<Longrightarrow> remaining p' < remaining p"
  by (erule proc_stepE; frule alive_remaining) (auto simp: proc_inv_def server_Shutdown_def)

lemma draining_progress:
  assumes "proc_inv parses g p" and "pr_phase p = Draining"
  shows "\<exists>p'. proc_step parses g p p' \<and> (pr_phase p' = Draining \<or> pr_phase p' = Ended (Exit 0))"
proof -
  have d: "pr_phase (server_Shutdown name 0 p) = Draining" for name using assms(2) by (simp add: server_Shutdown_def)
  consider "pr_shut p = []" | "pr_shut p = [''gateway'']" | "pr_shut p = [''gateway'', ''metrics'']"
    using assms(1) by (auto simp: proc_inv_def)
  then show ?thesis
  proof cases
    case 1
    with assms(2) d Shut_gateway [of p 0 parses g] show ?thesis by auto
  next
    case 2
    with assms(2) d Shut_metrics [of p 0 parses g] show ?thesis by auto
  next
    case 3
    with assms(2) Returns [of p parses g] show ?thesis by (intro exI [of _ "p\<lparr>pr_phase := Ended (Exit 0)\<rparr>"]) simp
  qed
qed

lemma proc_runs:
  assumes "(proc_step parses g ^^ n) (launch (g_servers g)) p"
  shows "proc_inv parses g p \<and> n + remaining p \<le> 5"
  using assms
proof (induction n arbitrary: p)
  case 0
  then have "p = launch (g_servers g)" by simp
  then show ?case using proc_inv_launch by (simp add: launch_def)
next
  case (Suc n)
  then obtain q where "(proc_step parses g ^^ n) (launch (g_servers g)) q" "proc_step parses g q p" by auto
  with Suc.IH [of q] proc_inv_step [of parses g q p] remaining_decreases [of parses g q p] show ?case by auto
qed

lemma gateway_server_names: "gateway_main os = Inr g \<Longrightarrow> map srv_name (g_servers g) = [''metrics'', ''gateway'']"
  unfolding gateway_main_def Let_def by (auto split: go_split)

section \<open>Properties\<close>



end
