(* ===== verification/Serve_Types.thy ===== *)
theory Serve_Types
  imports Request_Path
begin

text \<open>
  What \<^verbatim>\<open>ServeHTTP\<close> keeps well formed: the gateway state it works on, pool by pool, and the
  response it hands to the client.
\<close>

section \<open>Well-formed states and responses\<close>

definition wf_pool :: "Pool \<Rightarrow> bool" where
  "wf_pool p \<longleftrightarrow> list_all wf_backend (backends p)"

definition wf_gateway :: "'s gw_state \<Rightarrow> bool" where
  "wf_gateway st \<longleftrightarrow> (\<forall>svc p. pools st svc = Some p \<longrightarrow> wf_pool p)"

text \<open>An attempt takes no negative time, and other goroutines keep the pool well formed.\<close>

definition wf_attempt :: "('pool, 'cert) attempt_env \<Rightarrow> bool" where
  "wf_attempt env \<longleftrightarrow> world_ok env \<and> (\<forall>p. wf_pool p \<longrightarrow> wf_pool (ae_world env p) \<and> wf_pool (ae_world' env p))
     \<and> 0 \<le> sint (time_Sub (ae_done env) (ae_start env))"

text \<open>A response that names its request, and one that is complete.\<close>

definition wf_writer :: "string \<Rightarrow> response_writer \<Rightarrow> bool" where
  "wf_writer rid w \<longleftrightarrow> wf_header (w_header w) \<and> (\<exists>vs. header_values (w_header w) ''X-Request-Id'' = rid # vs)"

definition answered :: "response_writer \<Rightarrow> bool" where
  "answered w \<longleftrightarrow> (\<exists>code. w_status w = Some code \<and> 100 \<le> code \<and> code \<le> 999)"

section \<open>Preservation\<close>

lemma wf_pool_on_backend:
  assumes "wf_pool p" and "\<And>b. wf_backend b \<Longrightarrow> wf_backend (f b)"
  shows "wf_pool (on_backend f i p)"
proof (cases "i < length (backends p)")
  case True
  with assms show ?thesis
    by (simp add: wf_pool_def list_all_length on_backend_def nth_list_update)
next
  case False
  with assms(1) show ?thesis by (simp add: wf_pool_def on_backend_def list_update_beyond)
qed

lemmas wf_pool_ops = wf_pool_on_backend [OF _ wf_backend_ops(3)] wf_pool_on_backend [OF _ wf_backend_ops(4)]
  wf_pool_on_backend [OF _ wf_RecordLatency]

lemma wf_pool_new: "wf_pool (NewPool service cfg)"
  by (simp add: wf_pool_def NewPool_def list_all_iff wf_backend_ops(1))

lemma wf_pool_after: "wf_pool p \<Longrightarrow> wf_attempt env \<Longrightarrow> wf_pool (pool_after env i p)"
  unfolding pool_after_def wf_attempt_def by (simp add: wf_pool_ops)

lemma wf_writer_identified: "wf_header (w_header w) \<Longrightarrow> wf_writer (request_id env) (identified env w)"
  by (simp add: wf_writer_def identified_def w_Set_def values_Set canonical_names)

lemma wf_writer_Error: "wf_writer rid w \<Longrightarrow> wf_writer rid (http_Error w err code)"
proof -
  have "wf_header (w_header (http_Error w err code))" if "wf_header (w_header w)"
    using that by (simp add: http_Error_def Let_def w_Set_def w_WriteHeader_def w_Write_def split: option.split)
  then show "wf_writer rid w \<Longrightarrow> wf_writer rid (http_Error w err code)"
    by (auto simp: wf_writer_def http_Error_header)
qed

lemma answered_Error:
  "w_status w = None \<Longrightarrow> code \<in> {Unauthorized, Forbidden, NotFound, BadGateway, ServiceUnavailable} \<Longrightarrow>
   answered (http_Error w err code)"
  by (auto simp: answered_def http_Error_fresh Unauthorized_def Forbidden_def NotFound_def BadGateway_def
      ServiceUnavailable_def)

lemma relay_wf:
  assumes "wf_writer rid w" and "relay w bid code hdr bs = (pan, w')"
  shows "wf_writer rid w'" and "w_status w = None \<Longrightarrow> \<not> pan \<Longrightarrow> answered w'"
proof -
  let ?h = "header_Set (copyHeaders hdr (w_header w)) ''X-Upstream'' bid"
  have h: "w_header w' = ?h"
    using assms(2) by (auto simp: relay_def Let_def w_Set_def w_WriteHeader_def w_Write_def split: option.splits if_splits)
  have "wf_header ?h" using assms(1) by (simp add: wf_writer_def wf_copyHeaders)
  moreover have "\<exists>vs. header_values ?h ''X-Request-Id'' = rid # vs"
    using assms(1) by (auto simp: wf_writer_def values_Set canonical_names values_copyHeaders)
  ultimately show "wf_writer rid w'" unfolding wf_writer_def h by blast
  show "answered w'" if "w_status w = None" "\<not> pan"
    using assms(2) that by (auto simp: relay_def Let_def w_Set_def w_WriteHeader_def w_Write_def answered_def split: if_splits)
qed

lemma forward_wf:
  assumes f: "f = forward env h r w route pool i rid subject" and "wf_pool pool" and "wf_attempt env" and w: "wf_writer rid w"
  shows "wf_pool (f_pool f)" and "same_backends (f_pool f) pool" and "wf_writer rid (f_w f)"
    and "w_status w = None \<Longrightarrow> f_err f = None \<Longrightarrow> \<not> f_panic f \<Longrightarrow> answered (f_w f)"
proof -
  show "same_backends (f_pool f) pool"
    by (rule forward_same_backends [OF f]) (use assms(3) in \<open>simp add: wf_attempt_def\<close>)
  have "wf_pool (on_backend Release i (on_backend Acquire i pool))" by (intro wf_pool_ops assms(2))
  with wf_pool_after [OF assms(2,3)] show "wf_pool (f_pool f)"
    by (cases rule: forward_cases [OF f refl]) simp_all
  show "wf_writer rid (f_w f)"
    by (cases rule: forward_cases [OF f refl]) (use w relay_wf(1) [OF w prod.collapse [symmetric]] in simp_all)
  show "answered (f_w f)" if "w_status w = None" "f_err f = None" "\<not> f_panic f"
    by (cases rule: forward_cases [OF f refl]) (use that relay_wf(2) [OF w prod.collapse [symmetric]] in simp_all)
qed

lemma retry_wf:
  assumes f: "forward_with_retry env h r w route pool i rid subject = (f, sent)" and pool: "wf_pool pool"
    and env: "wf_attempt (e_first env)" "wf_attempt (e_retry env)" and w: "wf_writer rid w" "w_status w = None"
  shows "wf_pool (f_pool f) \<and> same_backends (f_pool f) pool \<and> wf_writer rid (f_w f)
     \<and> (f_panic f \<or> f_err f \<noteq> None \<or> answered (f_w f))"
proof -
  define f1 where "f1 = forward (e_first env) h r w route pool i rid subject"
  note f1 = forward_wf [OF f1_def pool env(1) w(1)]
  show ?thesis
  proof (cases rule: forward_with_retry_cases [OF f f1_def, case_names once twice])
    case once
    with f1 w(2) show ?thesis by auto
  next
    case (twice err alt f2)
    have w1: "f_w f1 = w" using forward_facts(4) [OF f1_def refl] twice(1) by simp
    note f2 = forward_wf [OF twice(5) f1(1) env(2) f1(3)]
    show ?thesis
      using f2 same_backends_trans [OF f2(2) f1(2)] w(2) w1 by (auto simp: twice(6))
  qed
qed

section \<open>Property\<close>

text \<open>
  C30: \<^verbatim>\<open>ServeHTTP\<close> keeps everything well formed, for every configuration and every request.
  After it the gateway has the same services, each with the same backends at the same
  addresses, and every latency average is still a nonnegative double; the response headers
  are a map that starts the request id with the gateway's own; and unless the handler
  panicked the response is complete, with a status a client can parse.
\<close>

theorem ServeHTTP_well_formed:
  assumes "wf_gateway st" and "wf_attempt (e_first env)" and "wf_attempt (e_retry env)"
    and "wf_header (w_header w)" and "w_status w = None"
    and "res = ServeHTTP lib cas env h st w r"
  shows "wf_gateway (sv_state res)
     \<and> (\<forall>svc. rel_option same_backends (pools (sv_state res) svc) (pools st svc))
     \<and> wf_writer (request_id env) (sv_w res)
     \<and> (\<not> sv_panic res \<longrightarrow> answered (sv_w res))"
proof -
  let ?w = "identified env w"
  note w = wf_writer_identified [OF assms(4), of env]
  have fresh: "w_status ?w = None" using assms(5) by (simp add: identified_def w_Set_def)
  have keep: "rel_option same_backends (pools st svc) (pools st svc)" for svc
    by (rule option.rel_refl) (simp add: same_backends_def)
  note simps = denied_def denyAuth_def Let_def assms(1) [unfolded wf_gateway_def] keep wf_writer_Error [OF w]
    answered_Error [OF fresh]
  show ?thesis
  proof (cases rule: ServeHTTP_cases [of h r lib cas env st w])
    case (admit route key c nst')
    have sent: "wf_gateway (st\<lparr>nonces := n, pools := (pools st)(s \<mapsto> f_pool f)\<rparr>)
        \<and> (\<forall>svc. rel_option same_backends (((pools st)(s \<mapsto> f_pool f)) svc) (pools st svc))
        \<and> wf_writer (request_id env) (f_w f) \<and> (f_panic f \<or> f_err f \<noteq> None \<or> answered (f_w f))"
      if "pools st s = Some pool" "forward_with_retry env h r ?w route pool i (request_id env) (sub key) = (f, sent)"
      for n s pool i f sent
      using retry_wf [OF that(2) _ assms(2,3) w fresh] that(1) assms(1) keep by (auto simp: wf_gateway_def)
    show ?thesis
    proof (cases rule: route_admitted_cases [of "st\<lparr>nonces := nst'\<rparr>" route env h ?w r "request_id env" "sub key" c])
      case no_pool
      with admit(2) assms(1,6) w keep show ?thesis by (simp add: wf_gateway_def)
    next
      case (no_backend pool)
      with admit(2) assms(6) show ?thesis by (simp add: simps wf_gateway_def)
    next
      case (panicked pool i f sent')
      with admit(2) assms(6) sent [of _ pool, OF _ panicked(3)] show ?thesis by simp
    next
      case (failed pool i f sent' err)
      with admit(2) assms(6) sent [of _ pool, OF _ failed(3)] retry_facts(2) [OF failed(3)] show ?thesis
        by (simp add: wf_writer_Error answered_Error [OF fresh])
    next
      case (allowed pool i f sent')
      with admit(2) assms(6) sent [of _ pool, OF _ allowed(3)] show ?thesis by simp
    qed
  qed (use assms(6) in \<open>simp_all add: simps wf_gateway_def\<close>)
qed

theorem ServeHTTP_well_formed_witness:
  "wf_gateway (sv_state demo_served) \<and> wf_writer demo_rid (sv_w demo_served)"
proof -
  have "wf_gateway demo_gw" by (simp add: wf_gateway_def demo_gw_def demo_llm_def wf_pool_new)
  moreover have "time_Sub demo_now demo_now = 0" by code_simp
  then have "wf_attempt demo_attempt"
    using demo_world by (simp add: wf_attempt_def) (simp add: demo_attempt_def)
  moreover have "wf_header (w_header new_writer)" "w_status new_writer = None" by (simp_all add: new_writer_def wf_header_def)
  ultimately show ?thesis
    using ServeHTTP_well_formed [OF _ _ _ _ _ demo_served_def] by (simp add: demo_env_simps demo_rid_def)
qed

end
