(* ===== verification/Metric_Series.thy ===== *)
theory Metric_Series
  imports Request_Path Health_Checker
begin

text \<open>
  How many time series the gateway can create.  The comment of \<^verbatim>\<open>internal/metrics\<close> promises
  that the label values come from closed sets; here they are, as a function of the routes and
  the configured backends.
\<close>

section \<open>The series a gateway may create\<close>

definition reasons :: "string set" where
  "reasons = token_reasons \<union> {ReasonReplay, ReasonNoToken, ReasonMissingScope,
     ''no_route'', ''no_healthy_backend'', ''upstream_error'', ''ok''}"

text \<open>The backends a route can lead to.\<close>

definition route_backends :: "('pool, 'cert) Handler \<Rightarrow> (string \<rightharpoonup> Pool) \<Rightarrow> (string \<times> string) set" where
  "route_backends h ps =
     (\<Union>rt \<in> set (routes h). case ps (re_service rt) of None \<Rightarrow> {}
        | Some p \<Rightarrow> Pair (re_service rt) ` ID ` set (backends p))"

definition request_series :: "('pool, 'cert) Handler \<Rightarrow> (string \<rightharpoonup> Pool) \<Rightarrow> (collector \<times> string list) set" where
  "request_series h ps =
     (\<lambda>(p, d, x). (RequestsTotal, [p, d, x])) `
       (insert ''none'' (re_prefix ` set (routes h)) \<times> {''allow'', ''deny''} \<times> reasons)
     \<union> (\<lambda>x. (AuthFailures, [x])) ` reasons
     \<union> (\<lambda>((s, b), code). (UpstreamRequestsTotal, [s, b, strconv_Itoa code])) ` (route_backends h ps \<times> {0..999})
     \<union> (\<lambda>(s, b). (UpstreamLatency, [s, b])) ` route_backends h ps"

lemma finite_request_series: "finite (request_series h ps)"
  by (auto simp: request_series_def route_backends_def reasons_def token_reasons_def split: option.split)

text \<open>Status codes as \<^verbatim>\<open>net/http\<close> parses them, of at most three digits.\<close>

definition http_codes :: "('pool, 'cert) attempt_env \<Rightarrow> bool" where
  "http_codes env \<longleftrightarrow> (\<forall>cl q code hdr bs. ae_Do env cl q = Answer code hdr bs \<longrightarrow> 0 \<le> code \<and> code \<le> 999)"

section \<open>Lemmas\<close>

lemma series_arity: "length (snd (series m)) = length (col_labels (fst (series m)))"
  by (cases m) (simp_all add: RequestsTotal_def UpstreamRequestsTotal_def UpstreamLatency_def BackendHealthy_def AuthFailures_def)

lemma same_backends_IDs: "same_backends p q \<Longrightarrow> ID ` set (backends p) = ID ` set (backends q)"
  unfolding same_backends_def by (metis set_map)

lemma route_backends_same:
  assumes "\<forall>svc. rel_option same_backends (ps svc) (qs svc)"
  shows "request_series h ps = request_series h qs"
proof -
  have "(case ps s of None \<Rightarrow> {} | Some p \<Rightarrow> Pair s ` ID ` set (backends p)) =
      (case qs s of None \<Rightarrow> {} | Some p \<Rightarrow> Pair s ` ID ` set (backends p))" for s
    using assms [rule_format, of s] same_backends_IDs by (cases "ps s"; cases "qs s") auto
  then show ?thesis unfolding request_series_def route_backends_def by simp
qed

lemma request_series_intros:
  "\<lbrakk>p \<in> insert ''none'' (re_prefix ` set (routes h)); d \<in> {''allow'', ''deny''}; x \<in> reasons\<rbrakk> \<Longrightarrow>
     (RequestsTotal, [p, d, x]) \<in> request_series h ps"
  "x \<in> reasons \<Longrightarrow> (AuthFailures, [x]) \<in> request_series h ps"
  "\<lbrakk>(s, b) \<in> route_backends h ps; 0 \<le> code; code \<le> 999\<rbrakk> \<Longrightarrow>
     (UpstreamRequestsTotal, [s, b, strconv_Itoa code]) \<in> request_series h ps"
  "(s, b) \<in> route_backends h ps \<Longrightarrow> (UpstreamLatency, [s, b]) \<in> request_series h ps"
proof -
  show "(RequestsTotal, [p, d, x]) \<in> request_series h ps"
    if "p \<in> insert ''none'' (re_prefix ` set (routes h))" "d \<in> {''allow'', ''deny''}" "x \<in> reasons"
    unfolding request_series_def by (intro UnI1 image_eqI [of _ _ "(p, d, x)"]) (use that in simp_all)
  show "(AuthFailures, [x]) \<in> request_series h ps" if "x \<in> reasons"
    unfolding request_series_def using that by blast
  show "(UpstreamRequestsTotal, [s, b, strconv_Itoa code]) \<in> request_series h ps"
    if "(s, b) \<in> route_backends h ps" "0 \<le> code" "code \<le> 999"
    unfolding request_series_def by (intro UnI1 UnI2 image_eqI [of _ _ "((s, b), code)"]) (use that in simp_all)
  show "(UpstreamLatency, [s, b]) \<in> request_series h ps" if "(s, b) \<in> route_backends h ps"
    unfolding request_series_def using that by (intro UnI2 image_eqI [of _ _ "(s, b)"]) simp_all
qed

lemma reasons_intros [simp]:
  "''no_route'' \<in> reasons" "''no_healthy_backend'' \<in> reasons" "''upstream_error'' \<in> reasons" "''ok'' \<in> reasons"
  "ReasonNoToken \<in> reasons" "ReasonMissingScope \<in> reasons"
  by (simp_all add: reasons_def)

lemma token_reasons_sub: "reason \<in> insert ReasonReplay token_reasons \<Longrightarrow> reason \<in> reasons"
  by (auto simp: reasons_def)

lemma forward_series:
  assumes f: "f = forward env h r w route p i rid subject" and "http_codes env"
    and rt: "(re_service route, ID (backends p ! i)) \<in> route_backends h ps" and m: "m \<in> set (event_metrics (f_events f))"
  shows "series m \<in> request_series h ps"
proof -
  have ok: "series m' \<in> request_series h ps"
    if "m' \<in> set (Observe (re_service route) (ID (backends p ! i)) code t t')" "0 \<le> code" "code \<le> 999" for m' code t t'
    using that request_series_intros(3,4) [OF rt] by (auto simp: Observe_def)
  show ?thesis
  proof (cases rule: forward_cases [OF f refl, case_names unsendable no_client transport answer])
    case (answer cl code hdr bs)
    then have "0 \<le> code" "code \<le> 999" using assms(2) unfolding http_codes_def by blast+
    with m answer(3) show ?thesis by (auto simp: observed_def intro: ok)
  qed (use m in \<open>auto simp: observed_def intro: ok [of _ 0]\<close>)
qed

lemma retry_series:
  assumes f: "forward_with_retry env h r w route p i rid subject = (f, sent)"
    and env: "http_codes (e_first env)" "http_codes (e_retry env)" "world_ok (e_first env)"
    and rt: "route \<in> set (routes h)" "ps (re_service route) = Some p" and i: "i < length (backends p)"
    and m: "m \<in> set (event_metrics (f_events f))"
  shows "series m \<in> request_series h ps"
proof -
  define f1 where "f1 = forward (e_first env) h r w route p i rid subject"
  have b: "(re_service route, ID (backends p ! j)) \<in> route_backends h ps" if "j < length (backends p)" for j
    using that rt by (force simp: route_backends_def)
  note one = forward_series [OF f1_def env(1) b [OF i]]
  show ?thesis
  proof (cases rule: forward_with_retry_cases [OF f f1_def, case_names once twice])
    case once
    with one m show ?thesis by simp
  next
    case (twice err alt f2)
    note same = same_backends_nth [OF forward_same_backends [OF f1_def env(3)] Pick_bound [OF twice(3)]]
    have "(re_service route, ID (backends (f_pool f1) ! alt)) \<in> route_backends h ps" using b [OF same(1)] same(2) by simp
    from forward_series [OF twice(5) env(2) this] one m show ?thesis by (auto simp: twice(6))
  qed
qed

section \<open>Property\<close>

text \<open>
  C37: the cardinality of the metrics is bounded.  Whatever a client sends and whatever the
  backends answer, every series a request touches, with as many label values as its
  collector declares, is one of a finite set fixed by the routes and the configured backends;
  and the request leaves that set as it was, so it bounds the whole life of the gateway.
\<close>

theorem request_series_bounded:
  assumes "world_ok (e_first env)" and "world_ok (e_retry env)" and "http_codes (e_first env)" and "http_codes (e_retry env)"
    and "res = ServeHTTP lib cas env h st w r"
  shows "finite (request_series h (pools st))
     \<and> (\<forall>m \<in> set (event_metrics (sv_events res)). series m \<in> request_series h (pools st)
          \<and> length (snd (series m)) = length (col_labels (fst (series m))))
     \<and> request_series h (pools (sv_state res)) = request_series h (pools st)"
proof -
  note total = request_series_intros(1)
  have denied: "series m \<in> request_series h (pools st)"
    if "m \<in> set (event_metrics (snd (denyAuth w' rid route subject kid reason)))" "route \<in> set (routes h)" "reason \<in> reasons"
    for m w' rid route subject kid reason
    using that request_series_intros(1,2) [of _ h] by (auto simp: denyAuth_def Let_def)
  have "series m \<in> request_series h (pools st)" if m: "m \<in> set (event_metrics (sv_events res))" for m
  proof (cases rule: ServeHTTP_cases [of h r lib cas env st w])
    case no_route
    with m assms(5) total [of "''none''" h "''deny''"] show ?thesis by (simp add: denied_def)
  next
    case (no_token route)
    with m assms(5) denied match_route_in show ?thesis by (auto simp: denied_def)
  next
    case (bad_token route reason nst')
    with m assms(5) denied match_route_in token_reasons_sub [OF bad_token(3)] show ?thesis by (auto simp: denied_def)
  next
    case (no_scope route key c nst')
    with m assms(5) denied match_route_in show ?thesis by (auto simp: denied_def)
  next
    case (admit route key c nst')
    have rt: "route \<in> set (routes h)" using admit(1) by (auto simp: admitted_def intro: match_route_in)
    note tot = total [of "re_prefix route" h, OF _ _ reasons_intros(2)] total [of "re_prefix route" h, OF _ _ reasons_intros(3)]
      total [of "re_prefix route" h, OF _ _ reasons_intros(4)]
    note sent = retry_series [OF _ assms(3,4,1) rt _ Pick_bound]
    show ?thesis
      by (cases rule: route_admitted_cases [of "st\<lparr>nonces := nst'\<rparr>" route env h "identified env w" r "request_id env" "sub key" c])
         (use m admit(2) assms(5) rt tot in \<open>auto simp: denied_def intro: sent\<close>)
  qed
  moreover have "rel_option same_backends (pools (sv_state res) svc) (pools st svc)" for svc
  proof (cases rule: ServeHTTP_cases [of h r lib cas env st w])
    case (admit route key c nst')
    have keep: "rel_option same_backends x x" for x by (rule option.rel_refl) (simp add: same_backends_def)
    show ?thesis
      by (cases rule: route_admitted_cases [of "st\<lparr>nonces := nst'\<rparr>" route env h "identified env w" r "request_id env" "sub key" c])
         (use admit(2) assms(5) keep retry_same_backends [OF _ assms(1,2)] in \<open>auto simp: denied_def\<close>)
  qed (use assms(5) in \<open>auto simp: denied_def same_backends_def intro: option.rel_refl\<close>)
  then have "request_series h (pools (sv_state res)) = request_series h (pools st)" by (intro route_backends_same) blast
  ultimately show ?thesis using finite_request_series series_arity by blast
qed

theorem request_series_bounded_witness:
  "series ` set (event_metrics (sv_events demo_served)) \<subseteq> request_series demo_handler [''llm'' \<mapsto> demo_llm]"
proof -
  have "http_codes demo_attempt" by (simp add: http_codes_def demo_attempt_def)
  then show ?thesis
    using request_series_bounded [OF _ _ _ _ demo_served_def] demo_world by (auto simp: demo_env_simps demo_gw_def)
qed

end
