(* ===== verification/V1alpha1.thy ===== *)
theory V1alpha1
  imports Prelude
begin

text \<open>
  \<^verbatim>\<open>api/v1alpha1/types.go\<close>: the custom resource that configures the gateway.  A pointer field is
  an option; a label map is an association list.
\<close>

record ObjectMeta =
  om_Name :: string
  om_Namespace :: string
  om_Labels :: "(string \<times> string) list"

record NetworkPolicySpec =
  np_Enabled :: bool
  BackendsPort :: int

record AuthSpec =
  as_Issuer :: string
  as_Audience :: string
  as_NonceTTL :: string
  ClientKeysSecretRef :: string

record IssuerRef =
  ir_Name :: string
  ir_Kind :: string

record TLSSpec =
  SecretRef :: string
  tls_IssuerRef :: "IssuerRef option"

record BackendsSpec =
  be_Namespace :: string
  CASecretRef :: string
  ClientCertSecretRef :: string
  be_FailThreshold :: int
  be_PassThreshold :: int
  HealthInterval :: string

record ServiceSpec =
  ss_Name :: string
  ss_HealthPath :: string
  ss_Port :: int
  ss_Backends :: "string list"

record RouteSpec =
  rs_Prefix :: string
  rs_Service :: string
  rs_RequiredScope :: string

record SecureServiceGatewaySpec =
  sp_Auth :: AuthSpec
  sp_TLS :: "TLSSpec option"
  sp_Backends :: BackendsSpec
  sp_Services :: "ServiceSpec list"
  sp_Routes :: "RouteSpec list"
  sp_NetworkPolicy :: "NetworkPolicySpec option"

record SecureServiceGateway =
  cr_APIVersion :: string
  cr_Kind :: string
  cr_Metadata :: ObjectMeta
  cr_Spec :: SecureServiceGatewaySpec

end
