(* ===== verification/Controller.thy ===== *)
theory Controller
  imports V1alpha1 Config Metrics
begin

text \<open>
  \<^verbatim>\<open>cmd/controller/main.go\<close>: the controller that renders the custom resource into the gateway's
  ConfigMap.  The API server is any function from its state and a request to an answer and a
  new state; every operation threads that state together with the exchanges made so far, so
  a property can speak of what was asked, in which order, and how it was answered.  The JSON
  and YAML encoders, SHA-256 and the order in which Go ranges over a Secret's data are
  parameters.
\<close>

section \<open>Data\<close>

datatype json = JStr string | JInt int | JArr "json list" | JObj "(string \<times> json) list"

record k8sClient =
  k_base :: string
  k_token :: string
  k_roots :: "bytes list"  \<comment> \<open>PEM data added to the system's certificate pool\<close>
  k_timeout :: duration

record api_request =
  ar_method :: string
  ar_url :: string
  ar_headers :: "(string \<times> string) list"
  ar_body :: "json option"

type_synonym api_answer = "string + bytes \<times> int"
type_synonym 'a api = "'a \<Rightarrow> api_request \<Rightarrow> api_answer \<times> 'a"

record 'a cluster =
  k_server :: 'a
  k_trace :: "(api_request \<times> api_answer) list"

record ClientKeyEntry =
  ke_Kid :: string
  ke_Pub :: string
  ke_Sub :: string
  ke_Scopes :: "string list"

text \<open>The local types of \<^verbatim>\<open>renderConfig\<close>.\<close>

record gw_backend =
  gb_ID :: string
  gb_Addr :: string

record gw_service =
  gs_Name :: string
  gs_HealthPath :: string
  gs_Backends :: "gw_backend list"

record gw_route =
  gr_Prefix :: string
  gr_Service :: string
  gr_RequiredScope :: string

record gatewayConfig =
  gc_ListenAddr :: string
  gc_MetricsAddr :: string
  gc_Issuer :: string
  gc_Audience :: string
  gc_NonceTTL :: string
  gc_RedisURL :: string
  gc_ListenCert :: string
  gc_ListenKey :: string
  gc_CACert :: string
  gc_GatewayCert :: string
  gc_GatewayKey :: string
  gc_ClientKeys :: "ClientKeyEntry list"
  gc_Services :: "gw_service list"
  gc_Routes :: "gw_route list"

datatype k8s_error =
    Request_failed string
  | GET_CR_returned int bytes
  | GET_Secret_returned string int
  | Bad_json string
  | Secret_has_no_key string string
  | Patch_create string int int
  | Create_NetworkPolicy int
  | Patch_Deployment int
  | Yaml_failed string

datatype reconcile_error =
    Fetch_CR k8s_error
  | Fetch_client_keys k8s_error
  | Reconcile_certificate k8s_error
  | Render_config k8s_error
  | Patch_configmap k8s_error
  | Reconcile_network_policy k8s_error
  | Patch_deployment k8s_error

text \<open>
  The code outside the repository the controller calls, and the order of each range over a
  Secret's data, which may differ from one to the next: it depends on the number of exchanges so far.
\<close>

record ctl_lib =
  json_CR :: "bytes \<Rightarrow> string + SecureServiceGateway"
  json_Secret :: "bytes \<Rightarrow> string + (string \<times> bytes) list"
  json_ClientKey :: "bytes \<Rightarrow> string + ClientKeyEntry"
  map_order :: "nat \<Rightarrow> (string \<times> bytes) list \<Rightarrow> (string \<times> bytes) list"
  yaml_Marshal :: "yaml \<Rightarrow> string + string"
  sha256 :: "bytes \<Rightarrow> bytes"

section \<open>The API client\<close>

definition saTokenPath :: string where
  "saTokenPath = ''/var/run/secrets/kubernetes.io/serviceaccount/token''"

definition saCACertPath :: string where
  "saCACertPath = ''/var/run/secrets/kubernetes.io/serviceaccount/ca.crt''"

definition defaultAPIServer :: string where
  "defaultAPIServer = ''https://kubernetes.default.svc''"

definition newK8sClient :: "(string \<Rightarrow> string + bytes) \<Rightarrow> string \<Rightarrow> k8sClient" where
  "newK8sClient readFile apiServer =
     (let token = (case readFile saTokenPath of Inl _ \<Rightarrow> '''' | Inr t \<Rightarrow> t);
          roots = (case readFile saCACertPath of Inl _ \<Rightarrow> [] | Inr caData \<Rightarrow> [caData])
      in \<lparr>k_base = strings_TrimRight apiServer (CHR ''/''), k_token = token, k_roots = roots,
          k_timeout = 30 * second\<rparr>)"

definition api_request_of :: "k8sClient \<Rightarrow> string \<Rightarrow> string \<Rightarrow> json option \<Rightarrow> api_request" where
  "api_request_of c method path body =
     \<lparr>ar_method = method, ar_url = k_base c @ path,
      ar_headers = (if k_token c \<noteq> '''' then [(''Authorization'', ''Bearer '' @ k_token c)] else [])
        @ (if body \<noteq> None then [(''Content-Type'', ''application/strategic-merge-patch+json'')] else []),
      ar_body = body\<rparr>"

definition k8s_do ::
  "'a api \<Rightarrow> k8sClient \<Rightarrow> string \<Rightarrow> string \<Rightarrow> json option \<Rightarrow> 'a cluster \<Rightarrow> api_answer \<times> 'a cluster" where
  "k8s_do api c method path body k =
     (let req = api_request_of c method path body;
          (ans, srv) = api (k_server k) req
      in (ans, \<lparr>k_server = srv, k_trace = k_trace k @ [(req, ans)]\<rparr>))"

definition secret_path :: "string \<Rightarrow> string \<Rightarrow> string" where
  "secret_path ns name = ''/api/v1/namespaces/'' @ ns @ ''/secrets/'' @ name"

definition cr_path :: "string \<Rightarrow> string \<Rightarrow> string" where
  "cr_path ns name =
     ''/apis/gateway.secure-svc.io/v1alpha1/namespaces/'' @ ns @ ''/secureservicegateways/'' @ name"

definition fetchCR ::
  "ctl_lib \<Rightarrow> 'a api \<Rightarrow> k8sClient \<Rightarrow> string \<Rightarrow> string \<Rightarrow> 'a cluster \<Rightarrow> (k8s_error + SecureServiceGateway) \<times> 'a cluster" where
  "fetchCR lib api c ns name k =
     (let (ans, k) = k8s_do api c ''GET'' (cr_path ns name) None k in
      (case ans of
         Inl err \<Rightarrow> Inl (Request_failed err)
       | Inr (data, code) \<Rightarrow>
           if code \<noteq> 200 then Inl (GET_CR_returned code data)
           else (case json_CR lib data of Inl err \<Rightarrow> Inl (Bad_json err) | Inr cr \<Rightarrow> Inr cr), k))"

fun decode_keys :: "ctl_lib \<Rightarrow> (string \<times> bytes) list \<Rightarrow> ClientKeyEntry list" where
  "decode_keys lib [] = []"
| "decode_keys lib ((_, v) # kvs) =
     (case json_ClientKey lib v of Inl _ \<Rightarrow> decode_keys lib kvs | Inr entry \<Rightarrow> entry # decode_keys lib kvs)"

definition fetchClientKeys ::
  "ctl_lib \<Rightarrow> 'a api \<Rightarrow> k8sClient \<Rightarrow> string \<Rightarrow> string \<Rightarrow> 'a cluster \<Rightarrow> (k8s_error + ClientKeyEntry list) \<times> 'a cluster" where
  "fetchClientKeys lib api c ns secretName k =
     (let (ans, k) = k8s_do api c ''GET'' (secret_path ns secretName) None k in
      (case ans of
         Inl err \<Rightarrow> Inl (Request_failed err)
       | Inr (data, code) \<Rightarrow>
           if code \<noteq> 200 then Inl (GET_Secret_returned secretName code)
           else (case json_Secret lib data of
                   Inl err \<Rightarrow> Inl (Bad_json err)
                 | Inr entries \<Rightarrow> Inr (decode_keys lib (map_order lib (length (k_trace k)) entries))), k))"

definition fetchSecretKey ::
  "ctl_lib \<Rightarrow> 'a api \<Rightarrow> k8sClient \<Rightarrow> string \<Rightarrow> string \<Rightarrow> string \<Rightarrow> 'a cluster \<Rightarrow> (k8s_error + string) \<times> 'a cluster" where
  "fetchSecretKey lib api c ns secretName key k =
     (let (ans, k) = k8s_do api c ''GET'' (secret_path ns secretName) None k in
      (case ans of
         Inl err \<Rightarrow> Inl (Request_failed err)
       | Inr (data, code) \<Rightarrow>
           if code \<noteq> 200 then Inl (GET_Secret_returned secretName code)
           else (case json_Secret lib data of
                   Inl err \<Rightarrow> Inl (Bad_json err)
                 | Inr entries \<Rightarrow>
                     (case map_of entries key of
                        None \<Rightarrow> Inl (Secret_has_no_key secretName key)
                      | Some v \<Rightarrow> Inr v)), k))"

section \<open>The configuration renderer\<close>

definition default_port :: int where
  "default_port = 8443"

definition backend_addr :: "string \<Rightarrow> string \<Rightarrow> int \<Rightarrow> string" where
  "backend_addr bid beNS port = ''https://'' @ bid @ ''.'' @ beNS @ ''.svc.cluster.local:'' @ strconv_Itoa port"

text \<open>The service loop, with the variable \<^verbatim>\<open>port\<close> declared before it.\<close>

fun render_services :: "string \<Rightarrow> int \<Rightarrow> ServiceSpec list \<Rightarrow> gw_service list" where
  "render_services beNS port [] = []"
| "render_services beNS port (svc # svcs) =
     (let port = (if ss_Port svc > 0 then ss_Port svc else port);
          hp = ss_HealthPath svc;
          hp = (if hp = '''' then ''/healthz'' else hp);
          bs = map (\<lambda>bid. \<lparr>gb_ID = bid, gb_Addr = backend_addr bid beNS port\<rparr>) (ss_Backends svc)
      in \<lparr>gs_Name = ss_Name svc, gs_HealthPath = hp, gs_Backends = bs\<rparr> # render_services beNS port svcs)"

definition gateway_config ::
  "SecureServiceGateway \<Rightarrow> ClientKeyEntry list \<Rightarrow> string \<Rightarrow> string \<Rightarrow> gatewayConfig" where
  "gateway_config cr clientKeys redisURL tlsSecretName =
     (let s = cr_Spec cr;
          cfg = \<lparr>gc_ListenAddr = '':8080'', gc_MetricsAddr = '':9090'',
                 gc_Issuer = as_Issuer (sp_Auth s), gc_Audience = as_Audience (sp_Auth s),
                 gc_NonceTTL = as_NonceTTL (sp_Auth s), gc_RedisURL = '''', gc_ListenCert = '''', gc_ListenKey = '''',
                 gc_CACert = ''/etc/gateway/certs/ca.crt'', gc_GatewayCert = ''/etc/gateway/certs/gateway.crt'',
                 gc_GatewayKey = ''/etc/gateway/certs/gateway.key'', gc_ClientKeys = clientKeys,
                 gc_Services = [], gc_Routes = []\<rparr>;
          cfg = (if redisURL \<noteq> '''' then cfg\<lparr>gc_RedisURL := redisURL\<rparr> else cfg);
          cfg = (if tlsSecretName \<noteq> ''''
                 then cfg\<lparr>gc_ListenCert := ''/etc/gateway/listener-tls/tls.crt'',
                          gc_ListenKey := ''/etc/gateway/listener-tls/tls.key''\<rparr> else cfg)
      in cfg\<lparr>gc_Services := render_services (be_Namespace (sp_Backends s)) default_port (sp_Services s),
             gc_Routes := map (\<lambda>r. \<lparr>gr_Prefix = rs_Prefix r, gr_Service = rs_Service r,
                                    gr_RequiredScope = rs_RequiredScope r\<rparr>) (sp_Routes s)\<rparr>)"

text \<open>What \<^verbatim>\<open>yaml.Marshal\<close> is given: the structs by their tags, with \<^verbatim>\<open>omitempty\<close> where they have it.\<close>

definition encode_ClientKeyEntry :: "ClientKeyEntry \<Rightarrow> yaml" where
  "encode_ClientKeyEntry k = YMap (encode_field ''kid'' (ke_Kid k) @ encode_field ''pub'' (ke_Pub k)
     @ encode_field ''sub'' (ke_Sub k) @ encode_list ''scopes'' YScalar (ke_Scopes k))"

definition encode_backend :: "gw_backend \<Rightarrow> yaml" where
  "encode_backend b = YMap (encode_field ''id'' (gb_ID b) @ encode_field ''addr'' (gb_Addr b))"

definition encode_service :: "gw_service \<Rightarrow> yaml" where
  "encode_service s = YMap (encode_field ''name'' (gs_Name s) @ encode_field ''health_path'' (gs_HealthPath s)
     @ encode_list ''backends'' encode_backend (gs_Backends s))"

definition encode_route :: "gw_route \<Rightarrow> yaml" where
  "encode_route r = YMap (encode_field ''prefix'' (gr_Prefix r) @ encode_field ''service'' (gr_Service r)
     @ encode_omitempty ''required_scope'' (gr_RequiredScope r))"

definition encode_gatewayConfig :: "gatewayConfig \<Rightarrow> yaml" where
  "encode_gatewayConfig g = YMap (encode_field ''listen_addr'' (gc_ListenAddr g)
     @ encode_field ''metrics_addr'' (gc_MetricsAddr g) @ encode_field ''issuer'' (gc_Issuer g)
     @ encode_field ''audience'' (gc_Audience g) @ encode_field ''nonce_ttl'' (gc_NonceTTL g)
     @ encode_omitempty ''redis_url'' (gc_RedisURL g) @ encode_omitempty ''listen_cert'' (gc_ListenCert g)
     @ encode_omitempty ''listen_key'' (gc_ListenKey g) @ encode_field ''ca_cert'' (gc_CACert g)
     @ encode_field ''gateway_cert'' (gc_GatewayCert g) @ encode_field ''gateway_key'' (gc_GatewayKey g)
     @ encode_list ''client_keys'' encode_ClientKeyEntry (gc_ClientKeys g)
     @ encode_list ''services'' encode_service (gc_Services g) @ encode_list ''routes'' encode_route (gc_Routes g))"

definition renderConfig ::
  "ctl_lib \<Rightarrow> SecureServiceGateway \<Rightarrow> ClientKeyEntry list \<Rightarrow> string \<Rightarrow> string \<Rightarrow> k8s_error + string" where
  "renderConfig lib cr clientKeys redisURL tlsSecretName =
     (case yaml_Marshal lib (encode_gatewayConfig (gateway_config cr clientKeys redisURL tlsSecretName)) of
        Inl err \<Rightarrow> Inl (Yaml_failed err)
      | Inr buf \<Rightarrow> Inr buf)"

section \<open>Operations on the cluster\<close>

definition managed_by :: json where
  "managed_by = JObj [(''gateway.secure-svc.io/managed-by'', JStr ''secure-svc-gw-controller'')]"

definition part_of :: "string \<Rightarrow> json" where
  "part_of component = JObj [(''matchLabels'', JObj [(''app.kubernetes.io/part-of'', JStr ''secure-svc-gw''),
     (''app.kubernetes.io/component'', JStr component)])]"

definition certificate_json :: "string \<Rightarrow> IssuerRef \<Rightarrow> json" where
  "certificate_json ns issuerRef = JObj
     [(''apiVersion'', JStr ''cert-manager.io/v1''), (''kind'', JStr ''Certificate''),
      (''metadata'', JObj [(''name'', JStr ''gateway-listener-tls''), (''namespace'', JStr ns),
         (''annotations'', managed_by)]),
      (''spec'', JObj [(''secretName'', JStr ''gateway-listener-tls''), (''duration'', JStr ''2160h''),
         (''renewBefore'', JStr ''360h''),
         (''dnsNames'', JArr [JStr (''gateway.'' @ ns @ ''.svc.cluster.local''), JStr (''gateway.'' @ ns @ ''.svc'')]),
         (''issuerRef'', JObj [(''name'', JStr (ir_Name issuerRef)), (''kind'', JStr (ir_Kind issuerRef))])])]"

definition policy_json :: "string \<Rightarrow> string \<Rightarrow> int \<Rightarrow> json" where
  "policy_json beNS gwNS port = JObj
     [(''apiVersion'', JStr ''networking.k8s.io/v1''), (''kind'', JStr ''NetworkPolicy''),
      (''metadata'', JObj [(''name'', JStr ''backends-only-from-gateway''), (''namespace'', JStr beNS),
         (''annotations'', managed_by)]),
      (''spec'', JObj [(''podSelector'', part_of ''backend''), (''policyTypes'', JArr [JStr ''Ingress'']),
         (''ingress'', JArr [JObj
            [(''from'', JArr [JObj
                [(''namespaceSelector'', JObj [(''matchLabels'', JObj [(''kubernetes.io/metadata.name'', JStr gwNS)])]),
                 (''podSelector'', part_of ''gateway'')]]),
             (''ports'', JArr [JObj [(''protocol'', JStr ''TCP''), (''port'', JInt port)]])]])])]"

definition hash_annotation :: "string \<Rightarrow> json" where
  "hash_annotation hash = JObj [(''gateway.secure-svc.io/config-hash'', JStr hash)]"

definition configmap_json :: "string \<Rightarrow> string \<Rightarrow> string \<Rightarrow> string \<Rightarrow> json" where
  "configmap_json ns name gatewayYAML hash = JObj
     [(''apiVersion'', JStr ''v1''), (''kind'', JStr ''ConfigMap''),
      (''metadata'', JObj [(''name'', JStr name), (''namespace'', JStr ns), (''annotations'', hash_annotation hash)]),
      (''data'', JObj [(''gateway.yaml'', JStr gatewayYAML)])]"

definition deployment_json :: "string \<Rightarrow> json" where
  "deployment_json hash = JObj [(''spec'', JObj [(''template'', JObj [(''metadata'',
     JObj [(''annotations'', hash_annotation hash)])])])]"

definition certificates_path :: "string \<Rightarrow> string" where
  "certificates_path ns = ''/apis/cert-manager.io/v1/namespaces/'' @ ns @ ''/certificates''"

definition policies_path :: "string \<Rightarrow> string" where
  "policies_path ns = ''/apis/networking.k8s.io/v1/namespaces/'' @ ns @ ''/networkpolicies''"

definition configmaps_path :: "string \<Rightarrow> string" where
  "configmaps_path ns = ''/api/v1/namespaces/'' @ ns @ ''/configmaps''"

definition deployment_path :: "string \<Rightarrow> string \<Rightarrow> string" where
  "deployment_path ns name = ''/apis/apps/v1/namespaces/'' @ ns @ ''/deployments/'' @ name"

text \<open>An answer to a creation that failed: an error, or a status other than 200 and 201 (0 on an error).\<close>

definition answer_code :: "api_answer \<Rightarrow> int" where
  "answer_code ans = (case ans of Inl _ \<Rightarrow> 0 | Inr (_, code) \<Rightarrow> code)"

definition created :: "api_answer \<Rightarrow> bool" where
  "created ans = (case ans of Inl _ \<Rightarrow> False | Inr (_, code) \<Rightarrow> code = 200 \<or> code = 201)"

text \<open>The pattern that the certificate and the ConfigMap share: patch, and create when that is not answered 200.\<close>

definition patch_or_create ::
  "'a api \<Rightarrow> k8sClient \<Rightarrow> string \<Rightarrow> string \<Rightarrow> string \<Rightarrow> json \<Rightarrow> 'a cluster \<Rightarrow> (k8s_error + unit) \<times> 'a cluster" where
  "patch_or_create api c kind path postPath body k =
     (let (ans, k) = k8s_do api c ''PATCH'' path (Some body) k in
      case ans of
        Inl err \<Rightarrow> (Inl (Request_failed err), k)
      | Inr (_, code) \<Rightarrow>
          if code \<noteq> 200
          then (let (ans2, k) = k8s_do api c ''POST'' postPath (Some body) k
                in (if \<not> created ans2 then Inl (Patch_create kind code (answer_code ans2)) else Inr (), k))
          else (Inr (), k))"

definition reconcileCertificate ::
  "'a api \<Rightarrow> k8sClient \<Rightarrow> string \<Rightarrow> IssuerRef \<Rightarrow> 'a cluster \<Rightarrow> (k8s_error + unit) \<times> 'a cluster" where
  "reconcileCertificate api c ns issuerRef k =
     patch_or_create api c ''Certificate'' (certificates_path ns @ ''/gateway-listener-tls'') (certificates_path ns)
       (certificate_json ns issuerRef) k"

definition patchConfigMap ::
  "'a api \<Rightarrow> k8sClient \<Rightarrow> string \<Rightarrow> string \<Rightarrow> string \<Rightarrow> string \<Rightarrow> 'a cluster \<Rightarrow> (k8s_error + unit) \<times> 'a cluster" where
  "patchConfigMap api c ns name gatewayYAML hash k =
     patch_or_create api c ''ConfigMap'' (configmaps_path ns @ ''/'' @ name) (configmaps_path ns)
       (configmap_json ns name gatewayYAML hash) k"

definition reconcileNetworkPolicy ::
  "'a api \<Rightarrow> k8sClient \<Rightarrow> string \<Rightarrow> string \<Rightarrow> int \<Rightarrow> 'a cluster \<Rightarrow> (k8s_error + unit) \<times> 'a cluster" where
  "reconcileNetworkPolicy api c beNS gwNS port k =
     (let body = policy_json beNS gwNS port;
          (ans, k) = k8s_do api c ''PATCH'' (policies_path beNS @ ''/backends-only-from-gateway'') (Some body) k in
      case ans of
        Inl err \<Rightarrow> (Inl (Request_failed err), k)
      | Inr (_, code) \<Rightarrow>
          if code = 404
          then (let (ans2, k) = k8s_do api c ''POST'' (policies_path beNS) (Some body) k
                in (if \<not> created ans2 then Inl (Create_NetworkPolicy (answer_code ans2)) else Inr (), k))
          else (Inr (), k))"

definition deleteNetworkPolicy ::
  "'a api \<Rightarrow> k8sClient \<Rightarrow> string \<Rightarrow> 'a cluster \<Rightarrow> (k8s_error + unit) \<times> 'a cluster" where
  "deleteNetworkPolicy api c beNS k =
     (let (ans, k) = k8s_do api c ''DELETE'' (policies_path beNS @ ''/backends-only-from-gateway'') None k
      in (case ans of Inl err \<Rightarrow> Inl (Request_failed err) | Inr _ \<Rightarrow> Inr (), k))"

definition patchDeploymentAnnotation ::
  "'a api \<Rightarrow> k8sClient \<Rightarrow> string \<Rightarrow> string \<Rightarrow> string \<Rightarrow> 'a cluster \<Rightarrow> (k8s_error + unit) \<times> 'a cluster" where
  "patchDeploymentAnnotation api c ns deployName hash k =
     (let (ans, k) = k8s_do api c ''PATCH'' (deployment_path ns deployName) (Some (deployment_json hash)) k in
      (case ans of
         Inl err \<Rightarrow> Inl (Request_failed err)
       | Inr (_, code) \<Rightarrow> if code \<noteq> 200 then Inl (Patch_Deployment code) else Inr (), k))"

section \<open>Reconciliation\<close>

text \<open>Step 4: the name of the listener's TLS Secret, and the certificate request behind it.\<close>

definition reconcile_tls ::
  "'a api \<Rightarrow> k8sClient \<Rightarrow> string \<Rightarrow> SecureServiceGateway \<Rightarrow> 'a cluster \<Rightarrow> (k8s_error + string) \<times> 'a cluster" where
  "reconcile_tls api c ns cr k =
     (case sp_TLS (cr_Spec cr) of
        None \<Rightarrow> (Inr '''', k)
      | Some tls \<Rightarrow>
          (case tls_IssuerRef tls of
             Some ir \<Rightarrow>
               (let (res, k) = reconcileCertificate api c ns ir k
                in (case res of Inl err \<Rightarrow> Inl err | Inr _ \<Rightarrow> Inr ''gateway-listener-tls'', k))
           | None \<Rightarrow> (Inr (if SecretRef tls \<noteq> '''' then SecretRef tls else ''''), k)))"

text \<open>Step 8: the network policy, if the resource speaks of one.\<close>

definition reconcile_policy ::
  "'a api \<Rightarrow> k8sClient \<Rightarrow> string \<Rightarrow> SecureServiceGateway \<Rightarrow> 'a cluster \<Rightarrow> (k8s_error + unit) \<times> 'a cluster" where
  "reconcile_policy api c ns cr k =
     (case sp_NetworkPolicy (cr_Spec cr) of
        None \<Rightarrow> (Inr (), k)
      | Some np \<Rightarrow>
          (let beNS = be_Namespace (sp_Backends (cr_Spec cr));
               port = BackendsPort np;
               port = (if port = 0 then default_port else port)
           in if np_Enabled np then reconcileNetworkPolicy api c beNS ns port k
              else (Inr (), snd (deleteNetworkPolicy api c beNS k))))"

definition config_hash :: "ctl_lib \<Rightarrow> string \<Rightarrow> string" where
  "config_hash lib rendered = hex_EncodeToString (sha256 lib rendered)"

text \<open>The result is the hash of the configuration that was rolled out.\<close>

definition reconcile ::
  "ctl_lib \<Rightarrow> 'a api \<Rightarrow> k8sClient \<Rightarrow> string \<Rightarrow> string \<Rightarrow> 'a cluster \<Rightarrow> (reconcile_error + string) \<times> 'a cluster" where
  "reconcile lib api c ns crName k =
     (case fetchCR lib api c ns crName k of
        (Inl err, k) \<Rightarrow> (Inl (Fetch_CR err), k)
      | (Inr cr, k) \<Rightarrow>
     (case fetchClientKeys lib api c ns (ClientKeysSecretRef (sp_Auth (cr_Spec cr))) k of
        (Inl err, k) \<Rightarrow> (Inl (Fetch_client_keys err), k)
      | (Inr clientKeys, k) \<Rightarrow>
     (let (url, k) = fetchSecretKey lib api c ns ''redis-credentials'' ''redis_url'' k;
          redisURL = (case url of Inl _ \<Rightarrow> '''' | Inr u \<Rightarrow> u)
      in case reconcile_tls api c ns cr k of
        (Inl err, k) \<Rightarrow> (Inl (Reconcile_certificate err), k)
      | (Inr tlsSecretName, k) \<Rightarrow>
     (case renderConfig lib cr clientKeys redisURL tlsSecretName of
        Inl err \<Rightarrow> (Inl (Render_config err), k)
      | Inr rendered \<Rightarrow>
     (let hash = config_hash lib rendered
      in case patchConfigMap api c ns ''gateway-config'' rendered hash k of
        (Inl err, k) \<Rightarrow> (Inl (Patch_configmap err), k)
      | (Inr _, k) \<Rightarrow>
     (case reconcile_policy api c ns cr k of
        (Inl err, k) \<Rightarrow> (Inl (Reconcile_network_policy err), k)
      | (Inr _, k) \<Rightarrow>
     (case patchDeploymentAnnotation api c ns ''gateway'' hash k of
        (Inl err, k) \<Rightarrow> (Inl (Patch_deployment err), k)
      | (Inr _, k) \<Rightarrow> (Inr hash, k))))))))"

text \<open>
  The watch loop on the events the stream delivers before it breaks off: one reconciliation
  per ADDED or MODIFIED event, whose failure is logged and does not end the loop.
\<close>

fun watch_events ::
  "ctl_lib \<Rightarrow> 'a api \<Rightarrow> k8sClient \<Rightarrow> string \<Rightarrow> string \<Rightarrow> string list \<Rightarrow> 'a cluster
   \<Rightarrow> (reconcile_error + string) list \<times> 'a cluster" where
  "watch_events lib api c ns crName [] k = ([], k)"
| "watch_events lib api c ns crName (ev # evs) k =
     (if ev = ''ADDED'' \<or> ev = ''MODIFIED''
      then (let (res, k) = reconcile lib api c ns crName k;
                (rest, k) = watch_events lib api c ns crName evs k
            in (res # rest, k))
      else watch_events lib api c ns crName evs k)"

definition watch_path :: "string \<Rightarrow> string \<Rightarrow> string" where
  "watch_path ns crName = ''/apis/gateway.secure-svc.io/v1alpha1/namespaces/'' @ ns
     @ ''/secureservicegateways?watch=true&fieldSelector=metadata.name='' @ crName"

text \<open>\<^verbatim>\<open>stream\<close> opens the watch and yields its events up to the error that ends it.\<close>

definition watchAndReconcile ::
  "ctl_lib \<Rightarrow> 'a api \<Rightarrow> (api_request \<Rightarrow> string + string list \<times> string) \<Rightarrow> k8sClient \<Rightarrow> string \<Rightarrow> string
   \<Rightarrow> 'a cluster \<Rightarrow> string \<times> (reconcile_error + string) list \<times> 'a cluster" where
  "watchAndReconcile lib api stream c ns crName k =
     (case stream (api_request_of c ''GET'' (watch_path ns crName) None) of
        Inl err \<Rightarrow> (err, [], k)
      | Inr (events, err) \<Rightarrow> (err, watch_events lib api c ns crName events k))"

definition controller_envOr :: "(string \<Rightarrow> string) \<Rightarrow> string \<Rightarrow> string \<Rightarrow> string" where
  "controller_envOr getenv k def = (let v = getenv k in if v \<noteq> '''' then v else def)"

definition api_server :: "(string \<Rightarrow> string) \<Rightarrow> string" where
  "api_server getenv =
     (let host = controller_envOr getenv ''KUBERNETES_SERVICE_HOST'' '''' in
      if host \<noteq> '''' then ''https://'' @ host @ '':'' @ controller_envOr getenv ''KUBERNETES_SERVICE_PORT'' ''443''
      else defaultAPIServer)"

text \<open>
  \<^verbatim>\<open>main\<close> for as long as it has watched: the initial reconciliation, whose failure is logged,
  and one round per watch stream, each of which ends in an error and a pause.
\<close>

fun watch_rounds ::
  "ctl_lib \<Rightarrow> 'a api \<Rightarrow> k8sClient \<Rightarrow> string \<Rightarrow> string \<Rightarrow> (api_request \<Rightarrow> string + string list \<times> string) list
   \<Rightarrow> 'a cluster \<Rightarrow> (reconcile_error + string) list \<times> duration list \<times> 'a cluster" where
  "watch_rounds lib api c ns crName [] k = ([], [], k)"
| "watch_rounds lib api c ns crName (stream # streams) k =
     (let (err, results, k) = watchAndReconcile lib api stream c ns crName k;
          (more_results, pauses, k) = watch_rounds lib api c ns crName streams k
      in (results @ more_results, 10 * second # pauses, k))"

definition controller_main ::
  "ctl_lib \<Rightarrow> 'a api \<Rightarrow> (string \<Rightarrow> string) \<Rightarrow> (string \<Rightarrow> string + bytes)
   \<Rightarrow> (api_request \<Rightarrow> string + string list \<times> string) list \<Rightarrow> 'a
   \<Rightarrow> (reconcile_error + string) list \<times> duration list \<times> 'a cluster" where
  "controller_main lib api getenv readFile streams srv =
     (let ns = controller_envOr getenv ''CONTROLLER_NAMESPACE'' ''secure-svc-gw'';
          crName = controller_envOr getenv ''CONTROLLER_CR_NAME'' ''main'';
          c = newK8sClient readFile (api_server getenv);
          (first, k) = reconcile lib api c ns crName \<lparr>k_server = srv, k_trace = []\<rparr>;
          (results, pauses, k) = watch_rounds lib api c ns crName streams k
      in (first # results, pauses, k))"

section \<open>Rendered services\<close>

text \<open>The port in force after a list of services: the last positive one, or the initial value.\<close>

definition port_after :: "int \<Rightarrow> ServiceSpec list \<Rightarrow> int" where
  "port_after p svcs = fold (\<lambda>s p. if ss_Port s > 0 then ss_Port s else p) svcs p"

lemma render_services_nth:
  "i < length svcs \<Longrightarrow> render_services beNS p svcs ! i =
     \<lparr>gs_Name = ss_Name (svcs ! i),
      gs_HealthPath = (if ss_HealthPath (svcs ! i) = '''' then ''/healthz'' else ss_HealthPath (svcs ! i)),
      gs_Backends = map (\<lambda>bid. \<lparr>gb_ID = bid, gb_Addr = backend_addr bid beNS (port_after p (take (Suc i) svcs))\<rparr>)
        (ss_Backends (svcs ! i))\<rparr>"
proof (induction beNS p svcs arbitrary: i rule: render_services.induct)
  case (2 beNS p svc svcs)
  then show ?case by (cases i) (auto simp: Let_def port_after_def)
qed simp

lemma length_render_services [simp]: "length (render_services beNS p svcs) = length svcs"
  by (induction beNS p svcs rule: render_services.induct) (simp_all add: Let_def)

section \<open>Exchanges\<close>

lemma k8s_do_trace:
  "k8s_do api c method path body k = (ans, k') \<Longrightarrow>
   k_trace k' = k_trace k @ [(api_request_of c method path body, ans)]"
  by (auto simp: k8s_do_def Let_def split: prod.splits)

lemma api_request_body [simp]: "ar_body (api_request_of c method path body) = body"
  by (simp add: api_request_of_def)

text \<open>A request that rolls out a configuration hash, and one that stores a configuration.\<close>

definition rolls_out :: "string \<Rightarrow> api_request \<times> api_answer \<Rightarrow> bool" where
  "rolls_out h x \<longleftrightarrow> ar_body (fst x) = Some (deployment_json h)"

definition stores :: "k8sClient \<Rightarrow> string \<Rightarrow> string \<Rightarrow> string \<Rightarrow> api_request \<times> api_answer \<Rightarrow> bool" where
  "stores c ns text h x \<longleftrightarrow>
     (let body = Some (configmap_json ns ''gateway-config'' text h)
      in fst x = api_request_of c ''PATCH'' (configmaps_path ns @ ''/gateway-config'') body
         \<or> fst x = api_request_of c ''POST'' (configmaps_path ns) body) \<and> created (snd x)"

definition quiet :: "(api_request \<times> api_answer) list \<Rightarrow> bool" where
  "quiet xs \<longleftrightarrow> (\<forall>x \<in> set xs. \<forall>h. \<not> rolls_out h x)"

lemma not_deployment_json [simp]:
  "configmap_json ns name y h \<noteq> deployment_json h'" "certificate_json ns ir \<noteq> deployment_json h'"
  "policy_json beNS gwNS port \<noteq> deployment_json h'"
  by (simp_all add: configmap_json_def certificate_json_def policy_json_def deployment_json_def)

lemma deployment_json_inj [simp]: "deployment_json h = deployment_json h' \<longleftrightarrow> h = h'"
  by (simp add: deployment_json_def hash_annotation_def)

text \<open>What each step adds to the exchanges.\<close>

lemma fetch_quiet:
  "fetchCR lib api c ns name k = (res, k') \<Longrightarrow> \<exists>new. k_trace k' = k_trace k @ new \<and> quiet new"
  "fetchClientKeys lib api c ns secret k = (res', k') \<Longrightarrow> \<exists>new. k_trace k' = k_trace k @ new \<and> quiet new"
  "fetchSecretKey lib api c ns secret key k = (res'', k') \<Longrightarrow> \<exists>new. k_trace k' = k_trace k @ new \<and> quiet new"
  by (auto simp: fetchCR_def fetchClientKeys_def fetchSecretKey_def Let_def quiet_def rolls_out_def
      dest!: k8s_do_trace split: prod.splits)

lemma patch_or_create_trace:
  assumes "patch_or_create api c kind path postPath body k = (res, k')"
  shows "\<exists>new. k_trace k' = k_trace k @ new \<and> (\<forall>x \<in> set new. ar_body (fst x) = Some body)
    \<and> (\<forall>x \<in> set new. fst x = api_request_of c ''PATCH'' path (Some body) \<or> fst x = api_request_of c ''POST'' postPath (Some body))
    \<and> (res = Inr () \<longrightarrow> (\<exists>x \<in> set new. created (snd x)))"
  using assms
  by (auto simp: patch_or_create_def Let_def created_def dest!: k8s_do_trace split: go_split)

lemma patchConfigMap_trace:
  assumes "patchConfigMap api c ns ''gateway-config'' text h k = (res, k')"
  shows "\<exists>new. k_trace k' = k_trace k @ new \<and> quiet new \<and> (res = Inr () \<longrightarrow> (\<exists>x \<in> set new. stores c ns text h x))"
proof -
  obtain new where "k_trace k' = k_trace k @ new"
    "\<forall>x \<in> set new. ar_body (fst x) = Some (configmap_json ns ''gateway-config'' text h)"
    "\<forall>x \<in> set new. fst x = api_request_of c ''PATCH'' (configmaps_path ns @ ''/gateway-config'')
         (Some (configmap_json ns ''gateway-config'' text h))
       \<or> fst x = api_request_of c ''POST'' (configmaps_path ns) (Some (configmap_json ns ''gateway-config'' text h))"
    "res = Inr () \<longrightarrow> (\<exists>x \<in> set new. created (snd x))"
    using patch_or_create_trace [OF assms [unfolded patchConfigMap_def]] by auto
  then show ?thesis by (intro exI [of _ new]) (auto simp: quiet_def rolls_out_def stores_def)
qed

lemma reconcile_tls_quiet:
  assumes "reconcile_tls api c ns cr k = (res, k')"
  shows "\<exists>new. k_trace k' = k_trace k @ new \<and> quiet new"
proof -
  have cert: "\<exists>new. k_trace k2 = k_trace k @ new \<and> quiet new"
    if "reconcileCertificate api c ns ir k = (r, k2)" for ir r k2
    using patch_or_create_trace [OF that [unfolded reconcileCertificate_def]]
    by (auto simp: quiet_def rolls_out_def)
  show ?thesis
    using assms cert by (auto simp: reconcile_tls_def quiet_def Let_def split: go_split)
qed

lemma reconcile_policy_quiet:
  assumes "reconcile_policy api c ns cr k = (res, k')"
  shows "\<exists>new. k_trace k' = k_trace k @ new \<and> quiet new"
  using assms
  by (auto simp: reconcile_policy_def reconcileNetworkPolicy_def deleteNetworkPolicy_def Let_def quiet_def rolls_out_def
      dest!: k8s_do_trace split: go_split)

lemma patchDeployment_trace:
  assumes "patchDeploymentAnnotation api c ns name h k = (res, k')"
  shows "\<exists>x. k_trace k' = k_trace k @ [x] \<and> rolls_out h x
    \<and> fst x = api_request_of c ''PATCH'' (deployment_path ns name) (Some (deployment_json h)) \<and> (res = Inr () \<longrightarrow> answer_code (snd x) = 200)"
proof -
  obtain ans k2 where d: "k8s_do api c ''PATCH'' (deployment_path ns name) (Some (deployment_json h)) k = (ans, k2)"
    by (rule prod.exhaust)
  with assms have "k' = k2" "res = Inr () \<longrightarrow> answer_code ans = 200"
    by (auto simp: patchDeploymentAnnotation_def answer_code_def split: go_split)
  with k8s_do_trace [OF d] show ?thesis
    by (intro exI [of _ "(api_request_of c ''PATCH'' (deployment_path ns name) (Some (deployment_json h)), ans)"])
       (simp add: rolls_out_def)
qed

text \<open>A quiet continuation of the exchanges.\<close>

definition extends :: "'a cluster \<Rightarrow> 'a cluster \<Rightarrow> bool" where
  "extends k k' \<longleftrightarrow> (\<exists>new. k_trace k' = k_trace k @ new \<and> quiet new)"

lemma extends_trans: "extends k k' \<Longrightarrow> extends k' k'' \<Longrightarrow> extends k k''"
  by (auto simp: extends_def quiet_def)

lemma extends_refl [simp]: "extends k k"
  by (simp add: extends_def quiet_def)

lemmas step_extends = fetch_quiet [folded extends_def] reconcile_tls_quiet [folded extends_def]
  reconcile_policy_quiet [folded extends_def]

lemma patchConfigMap_extends: "patchConfigMap api c ns ''gateway-config'' text h k = (res, k') \<Longrightarrow> extends k k'"
  unfolding extends_def by (drule patchConfigMap_trace) blast

text \<open>
  A reconciliation either stops before it touches the deployment, or gets through to the
  deployment after it stored the configuration.
\<close>

lemma reconcile_cases:
  assumes "reconcile lib api c ns crName k = (res, k')"
  obtains (stopped) err where "res = Inl err" "extends k k'"
  | (rolled) yml h k1 k2 k3 r where "extends k k1" "h = config_hash lib yml"
      "patchConfigMap api c ns ''gateway-config'' yml h k1 = (Inr (), k2)" "extends k2 k3"
      "patchDeploymentAnnotation api c ns ''gateway'' h k3 = (r, k')"
      "res = (case r of Inl err \<Rightarrow> Inl (Patch_deployment err) | Inr _ \<Rightarrow> Inr h)"
proof -
  note R = assms [unfolded reconcile_def]
  obtain rcr k1 where s1: "fetchCR lib api c ns crName k = (rcr, k1)" by (rule prod.exhaust)
  note e1 = step_extends(1) [OF s1]
  show thesis
  proof (cases rcr)
    case (Inl err)
    with R s1 e1 show thesis by (intro stopped [of "Fetch_CR err"]) auto
  next
    case cr: (Inr cr)
    obtain rk k2 where s2: "fetchClientKeys lib api c ns (ClientKeysSecretRef (sp_Auth (cr_Spec cr))) k1 = (rk, k2)"
      by (rule prod.exhaust)
    note e2 = extends_trans [OF e1 step_extends(2) [OF s2]]
    show thesis
    proof (cases rk)
      case (Inl err)
      with R s1 cr s2 e2 show thesis by (intro stopped [of "Fetch_client_keys err"]) auto
    next
      case ks: (Inr ks)
      obtain url k3 where s3: "fetchSecretKey lib api c ns ''redis-credentials'' ''redis_url'' k2 = (url, k3)" by (rule prod.exhaust)
      note e3 = extends_trans [OF e2 step_extends(3) [OF s3]]
      obtain rt k4 where s4: "reconcile_tls api c ns cr k3 = (rt, k4)" by (rule prod.exhaust)
      note e4 = extends_trans [OF e3 step_extends(4) [OF s4]]
      show thesis
      proof (cases rt)
        case (Inl err)
        with R s1 cr s2 ks s3 s4 e4 show thesis by (intro stopped [of "Reconcile_certificate err"]) auto
      next
        case rt: (Inr tls)
        show thesis
        proof (cases "renderConfig lib cr ks (case url of Inl _ \<Rightarrow> '''' | Inr u \<Rightarrow> u) tls")
          case (Inl err)
          with R s1 cr s2 ks s3 s4 rt e4 show thesis by (intro stopped [of "Render_config err"]) auto
        next
          case yml: (Inr yml)
          define h where "h = config_hash lib yml"
          obtain rc k5 where s5: "patchConfigMap api c ns ''gateway-config'' yml h k4 = (rc, k5)" by (rule prod.exhaust)
          note e5 = extends_trans [OF e4 patchConfigMap_extends [OF s5]]
          show thesis
          proof (cases rc)
            case (Inl err)
            with R s1 cr s2 ks s3 s4 rt yml s5 e5 show thesis
              by (intro stopped [of "Patch_configmap err"]) (auto simp: h_def)
          next
            case rc: (Inr u)
            obtain rp k6 where s6: "reconcile_policy api c ns cr k5 = (rp, k6)" by (rule prod.exhaust)
            note e6 = step_extends(5) [OF s6]
            show thesis
            proof (cases rp)
              case (Inl err)
              with R s1 cr s2 ks s3 s4 rt yml s5 rc s6 extends_trans [OF e5 e6] show thesis
                by (intro stopped [of "Reconcile_network_policy err"]) (auto simp: h_def)
            next
              case rp: (Inr v)
              obtain rd k7 where s7: "patchDeploymentAnnotation api c ns ''gateway'' h k6 = (rd, k7)" by (rule prod.exhaust)
              show thesis
                by (rule rolled [OF e4 h_def, of k5 k6 rd])
                   (use R s1 cr s2 ks s3 s4 rt yml s5 rc s6 rp s7 e6 in \<open>auto simp: h_def [symmetric] Let_def split: sum.splits\<close>)
            qed
          qed
        qed
      qed
    qed
  qed
qed

section \<open>A run of the controller\<close>

text \<open>Every rollout of a history comes after a stored configuration with the hash it announces.\<close>

definition ordered_rollouts :: "ctl_lib \<Rightarrow> k8sClient \<Rightarrow> string \<Rightarrow> (api_request \<times> api_answer) list \<Rightarrow> bool" where
  "ordered_rollouts lib c ns tr \<longleftrightarrow>
     (\<forall>n < length tr. \<forall>h. rolls_out h (tr ! n) \<longrightarrow>
        (\<exists>yml. h = config_hash lib yml \<and> (\<exists>m < n. stores c ns yml h (tr ! m))))"

lemma ordered_rolloutsE:
  assumes "ordered_rollouts lib c ns tr" and "n < length tr" and "rolls_out h (tr ! n)"
  obtains yml m where "h = config_hash lib yml" "m < n" "stores c ns yml h (tr ! m)"
  using assms by (force simp: ordered_rollouts_def)

lemma ordered_quiet:
  assumes "ordered_rollouts lib c ns tr" and "quiet new"
  shows "ordered_rollouts lib c ns (tr @ new)"
  unfolding ordered_rollouts_def
proof (intro allI impI)
  fix n h
  assume n: "n < length (tr @ new)" and r: "rolls_out h ((tr @ new) ! n)"
  have "n < length tr"
  proof (rule ccontr)
    assume "\<not> n < length tr"
    then have "(tr @ new) ! n \<in> set new" using n by (simp add: nth_append)
    with r assms(2) show False by (auto simp: quiet_def)
  qed
  moreover from this r have "rolls_out h (tr ! n)" by (simp add: nth_append)
  ultimately obtain yml m where "h = config_hash lib yml" "m < n" "stores c ns yml h (tr ! m)"
    using ordered_rolloutsE [OF assms(1)] by blast
  with \<open>n < length tr\<close> show "\<exists>yml. h = config_hash lib yml \<and> (\<exists>m < n. stores c ns yml h ((tr @ new) ! m))"
    by (intro exI [of _ yml] conjI exI [of _ m]) (simp_all add: nth_append)
qed

lemma ordered_rollout:
  assumes "ordered_rollouts lib c ns tr" and "y \<in> set tr" and "stores c ns yml (config_hash lib yml) y"
    and "rolls_out (config_hash lib yml) x"
  shows "ordered_rollouts lib c ns (tr @ [x])"
  unfolding ordered_rollouts_def
proof (intro allI impI)
  fix n h
  assume n: "n < length (tr @ [x])" and r: "rolls_out h ((tr @ [x]) ! n)"
  obtain m where m: "m < length tr" "tr ! m = y" using assms(2) by (auto simp: in_set_conv_nth)
  show "\<exists>yml. h = config_hash lib yml \<and> (\<exists>m < n. stores c ns yml h ((tr @ [x]) ! m))"
  proof (cases "n < length tr")
    case True
    with r have "rolls_out h (tr ! n)" by (simp add: nth_append)
    with True obtain yml' m' where "h = config_hash lib yml'" "m' < n" "stores c ns yml' h (tr ! m')"
      using ordered_rolloutsE [OF assms(1)] by blast
    with True show ?thesis by (intro exI [of _ yml'] conjI exI [of _ m']) (simp_all add: nth_append)
  next
    case False
    with n have "n = length tr" by simp
    with r assms(4) have "h = config_hash lib yml" by (simp add: rolls_out_def)
    with \<open>n = length tr\<close> m assms(3) show ?thesis
      by (intro exI [of _ yml] conjI exI [of _ m]) (simp_all add: nth_append)
  qed
qed

lemma extends_ordered: "extends k k' \<Longrightarrow> ordered_rollouts lib c ns (k_trace k) \<Longrightarrow> ordered_rollouts lib c ns (k_trace k')"
  by (auto simp: extends_def ordered_quiet)

lemma reconcile_ordered:
  assumes "reconcile lib api c ns crName k = (res, k')" and "ordered_rollouts lib c ns (k_trace k)"
  shows "ordered_rollouts lib c ns (k_trace k')"
proof (cases rule: reconcile_cases [OF assms(1), case_names stopped rolled])
  case (stopped err)
  then show ?thesis using assms(2) by (simp add: extends_ordered)
next
  case (rolled yml h k1 k2 k3 r)
  obtain b y where b: "k_trace k2 = k_trace k1 @ b" "y \<in> set b" "stores c ns yml h y"
    using patchConfigMap_trace [OF rolled(3)] by auto
  obtain d where d: "k_trace k3 = k_trace k2 @ d" using rolled(4) by (auto simp: extends_def)
  obtain x where x: "k_trace k' = k_trace k3 @ [x]" "rolls_out h x" using patchDeployment_trace [OF rolled(5)] by auto
  have "ordered_rollouts lib c ns (k_trace k3)"
    using assms(2) rolled(1,3,4) extends_ordered patchConfigMap_extends by blast
  moreover have "y \<in> set (k_trace k3)" using b d by simp
  ultimately show ?thesis using b(3) x unfolding rolled(2) by (simp add: ordered_rollout)
qed

lemma watch_events_ordered:
  "watch_events lib api c ns crName evs k = (res, k') \<Longrightarrow> ordered_rollouts lib c ns (k_trace k) \<Longrightarrow>
   ordered_rollouts lib c ns (k_trace k') \<and> length res = length (filter (\<lambda>ev. ev = ''ADDED'' \<or> ev = ''MODIFIED'') evs)"
proof (induction evs arbitrary: k res k')
  case (Cons ev evs)
  show ?case
  proof (cases "ev = ''ADDED'' \<or> ev = ''MODIFIED''")
    case True
    obtain r k1 where r: "reconcile lib api c ns crName k = (r, k1)" by (rule prod.exhaust)
    obtain rs k2 where rs: "watch_events lib api c ns crName evs k1 = (rs, k2)" by (rule prod.exhaust)
    have "res = r # rs" "k' = k2" using Cons.prems(1) True r rs by auto
    with Cons.IH [OF rs reconcile_ordered [OF r Cons.prems(2)]] True show ?thesis by auto
  next
    case False
    with Cons show ?thesis by auto
  qed
qed simp

lemma watch_rounds_ordered:
  "watch_rounds lib api c ns crName streams k = (res, pauses, k') \<Longrightarrow> ordered_rollouts lib c ns (k_trace k) \<Longrightarrow>
   ordered_rollouts lib c ns (k_trace k') \<and> pauses = replicate (length streams) (10 * second)"
proof (induction streams arbitrary: k res pauses k')
  case (Cons stream streams)
  obtain err rs k1 where w: "watchAndReconcile lib api stream c ns crName k = (err, rs, k1)" by (rule prod_cases3)
  have k1: "ordered_rollouts lib c ns (k_trace k1)"
    using w Cons.prems(2) by (auto simp: watchAndReconcile_def dest: watch_events_ordered split: go_split)
  obtain rs2 ps k2 where n: "watch_rounds lib api c ns crName streams k1 = (rs2, ps, k2)" by (rule prod_cases3)
  from Cons.IH [OF n k1] Cons.prems(1) w n show ?case by auto
qed simp

section \<open>The configuration the gateway loads\<close>

text \<open>
  The gateway's reading of a rendered configuration, field by field, with the duration its
  \<^verbatim>\<open>nonce_ttl\<close> is read as.
\<close>

definition loaded_as :: "duration \<Rightarrow> gatewayConfig \<Rightarrow> Config" where
  "loaded_as d g =
     \<lparr>ListenAddr = gc_ListenAddr g, MetricsAddr = gc_MetricsAddr g, cfg_Issuer = gc_Issuer g,
      cfg_Audience = gc_Audience g, NonceTTL = d, RedisURL = gc_RedisURL g,
      ListenCertPath = gc_ListenCert g, ListenKeyPath = gc_ListenKey g, CACertPath = gc_CACert g,
      GatewayCertPath = gc_GatewayCert g, GatewayKeyPath = gc_GatewayKey g,
      ClientKeys = map (\<lambda>k. \<lparr>ck_Kid = ke_Kid k, ck_PubBase64 = ke_Pub k, ck_Subject = ke_Sub k, ck_Scopes = ke_Scopes k\<rparr>)
        (gc_ClientKeys g),
      Services = map (\<lambda>s. \<lparr>svc_Name = gs_Name s, svc_HealthPath = gs_HealthPath s,
        svc_Backends = map (\<lambda>b. \<lparr>cb_ID = gb_ID b, cb_Addr = gb_Addr b\<rparr>) (gs_Backends s)\<rparr>) (gc_Services g),
      Routes = map (\<lambda>r. \<lparr>rt_Prefix = gr_Prefix r, rt_Service = gr_Service r, rt_RequiredScope = gr_RequiredScope r\<rparr>)
        (gc_Routes g)\<rparr>"

lemma decode_encoded_key:
  "decode_ClientKey (encode_ClientKeyEntry k) =
     Some \<lparr>ck_Kid = ke_Kid k, ck_PubBase64 = ke_Pub k, ck_Subject = ke_Sub k, ck_Scopes = ke_Scopes k\<rparr>"
  by (simp add: decode_ClientKey_def encode_ClientKeyEntry_def encode_field_def encode_list_def comp_def)

lemma decode_encoded_backend: "decode_CfgBackend (encode_backend b) = Some \<lparr>cb_ID = gb_ID b, cb_Addr = gb_Addr b\<rparr>"
  by (simp add: decode_CfgBackend_def encode_backend_def encode_field_def)

lemma decode_encoded_service:
  "decode_CfgService (encode_service s) = Some \<lparr>svc_Name = gs_Name s, svc_HealthPath = gs_HealthPath s,
     svc_Backends = map (\<lambda>b. \<lparr>cb_ID = gb_ID b, cb_Addr = gb_Addr b\<rparr>) (gs_Backends s)\<rparr>"
  by (simp add: decode_CfgService_def encode_service_def encode_field_def encode_list_def comp_def
      decode_encoded_backend)

lemma decode_encoded_route:
  "decode_CfgRoute (encode_route r) =
     Some \<lparr>rt_Prefix = gr_Prefix r, rt_Service = gr_Service r, rt_RequiredScope = gr_RequiredScope r\<rparr>"
  by (simp add: decode_CfgRoute_def encode_route_def encode_field_def encode_omitempty_def)

text \<open>The two sets of tags agree: what the gateway decodes is what the controller encoded.\<close>

lemma decode_encoded:
  "decode_Config dur (encode_gatewayConfig g) = map_option (\<lambda>d. loaded_as d g) (dur (gc_NonceTTL g))"
  by (cases "dur (gc_NonceTTL g)")
     (simp_all add: decode_Config_def encode_gatewayConfig_def encode_defs comp_def decode_encoded_key decode_encoded_service
       decode_encoded_route loaded_as_def)

text \<open>What is asked of the YAML library: it parses what it marshalled back to the same document.\<close>

definition yaml_roundtrip :: "(yaml \<Rightarrow> string + string) \<Rightarrow> (bytes \<Rightarrow> string + yaml) \<Rightarrow> bool" where
  "yaml_roundtrip marshal parse \<longleftrightarrow>
     (\<forall>g yml. marshal (encode_gatewayConfig g) = Inr yml \<longrightarrow> parse yml = Inr (encode_gatewayConfig g))"

section \<open>Properties\<close>

definition demo_spec :: SecureServiceGatewaySpec where
  "demo_spec = \<lparr>sp_Auth = \<lparr>as_Issuer = ''iss'', as_Audience = ''aud'', as_NonceTTL = ''5m'', ClientKeysSecretRef = ''keys''\<rparr>,
     sp_TLS = None,
     sp_Backends = \<lparr>be_Namespace = ''be'', CASecretRef = ''ca'', ClientCertSecretRef = ''crt'', be_FailThreshold = 5,
       be_PassThreshold = 1, HealthInterval = ''9s''\<rparr>,
     sp_Services = [\<lparr>ss_Name = ''llm'', ss_HealthPath = '''', ss_Port = 9001, ss_Backends = [''llm-1'']\<rparr>,
       \<lparr>ss_Name = ''embed'', ss_HealthPath = ''/ok'', ss_Port = 0, ss_Backends = [''embed-1'']\<rparr>],
     sp_Routes = [\<lparr>rs_Prefix = ''/v1/llm'', rs_Service = ''llm'', rs_RequiredScope = ''llm:invoke''\<rparr>],
     sp_NetworkPolicy = Some \<lparr>np_Enabled = True, BackendsPort = 0\<rparr>\<rparr>"

definition demo_cr :: SecureServiceGateway where
  "demo_cr = \<lparr>cr_APIVersion = ''v'', cr_Kind = ''k'', cr_Metadata = \<lparr>om_Name = ''main'', om_Namespace = ''gw'', om_Labels = []\<rparr>,
     cr_Spec = demo_spec\<rparr>"

text \<open>Libraries that accept the example, and an API server that accepts everything.\<close>

definition demo_ctl :: ctl_lib where
  "demo_ctl = \<lparr>json_CR = (\<lambda>_. Inr demo_cr), json_Secret = (\<lambda>_. Inr []), json_ClientKey = (\<lambda>_. Inl ''no''),
     map_order = (\<lambda>n xs. xs), yaml_Marshal = (\<lambda>_. Inr ''yaml''), sha256 = (\<lambda>_. ''hash'')\<rparr>"

definition demo_api :: "nat api" where
  "demo_api n req = (Inr (''{}'', 200), n + 1)"

definition demo_cluster :: "nat cluster" where
  "demo_cluster = \<lparr>k_server = 0, k_trace = []\<rparr>"

definition demo_k8s :: k8sClient where
  "demo_k8s = \<lparr>k_base = ''https://api'', k_token = ''t'', k_roots = [], k_timeout = 30 * second\<rparr>"

text \<open>
  C36: what is rendered for a service.  Its name, its health path with the default, and one
  address per backend in the backends' namespace; the port is its own when positive, and
  otherwise the last positive port of an \<^emph>\<open>earlier\<close> service in the list, 8443 only when there
  is none: the default declared for a service does not hold after a service with a port.
\<close>

theorem rendered_service:
  assumes "i < length (sp_Services (cr_Spec cr))"
  shows "let svc = sp_Services (cr_Spec cr) ! i; beNS = be_Namespace (sp_Backends (cr_Spec cr));
             earlier = filter (\<lambda>p. p > 0) (map ss_Port (take i (sp_Services (cr_Spec cr))));
             port = (if ss_Port svc > 0 then ss_Port svc else if earlier = [] then 8443 else last earlier)
         in gc_Services (gateway_config cr ks url tls) ! i =
              \<lparr>gs_Name = ss_Name svc,
               gs_HealthPath = (if ss_HealthPath svc = '''' then ''/healthz'' else ss_HealthPath svc),
               gs_Backends = map (\<lambda>bid. \<lparr>gb_ID = bid, gb_Addr = backend_addr bid beNS port\<rparr>) (ss_Backends svc)\<rparr>"
proof -
  have p: "port_after p xs = (if filter (\<lambda>p. p > 0) (map ss_Port xs) = [] then p
      else last (filter (\<lambda>p. p > 0) (map ss_Port xs)))" for p xs
  proof (induction xs arbitrary: p)
    case (Cons s xs)
    show ?case
      using Cons.IH [of "ss_Port s"] Cons.IH [of p] by (cases "ss_Port s > 0") (simp_all add: port_after_def)
  qed (simp add: port_after_def)
  have app: "port_after p (take (Suc i) xs) = (if ss_Port (xs ! i) > 0 then ss_Port (xs ! i) else port_after p (take i xs))"
    if "i < length xs" for p xs
    using that by (simp add: port_after_def take_Suc_conv_app_nth)
  have s: "gc_Services (gateway_config cr ks url tls) =
      render_services (be_Namespace (sp_Backends (cr_Spec cr))) default_port (sp_Services (cr_Spec cr))"
    by (simp add: gateway_config_def Let_def)
  show ?thesis
    unfolding s render_services_nth [OF assms] app [OF assms] p [of default_port "take i (sp_Services (cr_Spec cr))"]
    by (simp only: Let_def default_port_def if_split_eq1)
qed

theorem rendered_service_witness:
  "gb_Addr (hd (gs_Backends (gc_Services (gateway_config demo_cr [] '''' '''') ! 1))) =
     ''https://embed-1.be.svc.cluster.local:9001''"
proof -
  have "strconv_Itoa 9001 = ''9001''" by (simp add: strconv_Itoa_def digit_char_def nat_digits.simps char_of_def bit_Suc_0_iff)
  then show ?thesis
    using rendered_service [of 1 demo_cr "[]" "''''" "''''"]
    by (simp add: demo_cr_def demo_spec_def backend_addr_def)
qed

text \<open>
  C33: a rollout follows its configuration.  However the API server answers, a
  reconciliation touches the deployment at most once and last, and only after it stored the
  rendered configuration, with the hash it annotates, in the ConfigMap and was told so; and
  it reports success exactly when the deployment was patched with status 200.
\<close>

theorem rollout_after_store:
  assumes "reconcile lib api c ns crName k = (res, k')"
  shows "\<exists>new. k_trace k' = k_trace k @ new
    \<and> (quiet new \<and> (\<nexists>h. res = Inr h)
       \<or> (\<exists>pre x yml. new = pre @ [x] \<and> quiet pre \<and> rolls_out (config_hash lib yml) x
            \<and> fst x = api_request_of c ''PATCH'' (deployment_path ns ''gateway'') (Some (deployment_json (config_hash lib yml)))
            \<and> (\<exists>y \<in> set pre. stores c ns yml (config_hash lib yml) y)
            \<and> (res = Inr (config_hash lib yml) \<or> (\<exists>err. res = Inl (Patch_deployment err)))
            \<and> (res = Inr (config_hash lib yml) \<longrightarrow> answer_code (snd x) = 200)))"
proof (cases rule: reconcile_cases [OF assms, case_names stopped rolled])
  case (stopped err)
  then show ?thesis by (auto simp: extends_def)
next
  case (rolled yml h k1 k2 k3 r)
  obtain a where a: "k_trace k1 = k_trace k @ a" "quiet a" using rolled(1) by (auto simp: extends_def)
  obtain b y where b: "k_trace k2 = k_trace k1 @ b" "quiet b" "y \<in> set b" "stores c ns yml h y"
    using patchConfigMap_trace [OF rolled(3)] by auto
  obtain d where d: "k_trace k3 = k_trace k2 @ d" "quiet d" using rolled(4) by (auto simp: extends_def)
  obtain x where x: "k_trace k' = k_trace k3 @ [x]" "rolls_out h x" "r = Inr () \<longrightarrow> answer_code (snd x) = 200"
    "fst x = api_request_of c ''PATCH'' (deployment_path ns ''gateway'') (Some (deployment_json h))"
    using patchDeployment_trace [OF rolled(5)] by auto
  have "k_trace k' = k_trace k @ (a @ b @ d) @ [x]" "quiet (a @ b @ d)" using a b d x by (auto simp: quiet_def)
  moreover have "res = Inr h \<or> (\<exists>err. res = Inl (Patch_deployment err))" "res = Inr h \<longrightarrow> answer_code (snd x) = 200"
    using rolled(6) x(3) by (cases r; simp)+
  moreover have "y \<in> set (a @ b @ d)" using b(3) by simp
  ultimately show ?thesis
    using b(4) x(2,4) unfolding rolled(2) by blast
qed

theorem rollout_after_store_witness:
  "\<exists>k'. reconcile demo_ctl demo_api demo_k8s ''gw'' ''main'' demo_cluster = (Inr (config_hash demo_ctl ''yaml''), k')
     \<and> rolls_out (config_hash demo_ctl ''yaml'') (last (k_trace k'))"
proof -
  obtain res k' where r: "reconcile demo_ctl demo_api demo_k8s ''gw'' ''main'' demo_cluster = (res, k')" by (rule prod.exhaust)
  have "res = Inr (config_hash demo_ctl ''yaml'')"
    using r
    by (simp add: reconcile_def fetchCR_def fetchClientKeys_def fetchSecretKey_def k8s_do_def Let_def demo_api_def demo_ctl_def
        reconcile_tls_def demo_cr_def demo_spec_def renderConfig_def patchConfigMap_def patch_or_create_def
        reconcile_policy_def reconcileNetworkPolicy_def patchDeploymentAnnotation_def)
  with rollout_after_store [OF r] r show ?thesis by (auto simp: demo_cluster_def rolls_out_def)
qed

text \<open>
  A refused network policy is reported as reconciled.  The answer to the PATCH decides
  alone unless it is 404: any other status, a refusal or a server error included, counts as
  success and nothing more is tried; only after a 404 is the outcome of the creation looked at.
\<close>

lemma network_policy_outcome:
  assumes "k8s_do api c ''PATCH'' (policies_path beNS @ ''/backends-only-from-gateway'')
      (Some (policy_json beNS gwNS port)) k = (Inr (data, code), k1)"
    and "k8s_do api c ''POST'' (policies_path beNS) (Some (policy_json beNS gwNS port)) k1 = (ans, k2)"
  shows "reconcileNetworkPolicy api c beNS gwNS port k =
    (if code \<noteq> 404 then (Inr (), k1)
     else (if created ans then Inr () else Inl (Create_NetworkPolicy (answer_code ans)), k2))"
  using assms by (simp add: reconcileNetworkPolicy_def)

text \<open>
  C35: from the resource to the running configuration.  The tags of the controller's structs
  and of the gateway's agree: where the YAML library parses what it marshalled back to the same
  document, the gateway that reads what the controller stored loads exactly the rendered
  configuration with its defaults.  There are three exceptions, which the controller rolls out
  all the same and the gateway refuses to start with: a \<^verbatim>\<open>nonceTTL\<close> that is not a duration, no
  route, and no service.  The thresholds and the probe interval of the resource do not reach
  the configuration at all.
\<close>

theorem gateway_loads_rendered:
  assumes "yaml_roundtrip (yaml_Marshal lib) parse"
    and "renderConfig lib cr ks url tls = Inr yml" and "readFile path = Inr yml"
  shows "Load readFile (Config_Unmarshal parse dur) path =
      (case dur (as_NonceTTL (sp_Auth (cr_Spec cr))) of
         None \<Rightarrow> Inl (ParseConfig ''yaml: unmarshal errors'')
       | Some d \<Rightarrow>
           if sp_Routes (cr_Spec cr) = [] then Inl NoRoutes
           else if sp_Services (cr_Spec cr) = [] then Inl NoServices
           else Inr (with_defaults (loaded_as d (gateway_config cr ks url tls))))
    \<and> gateway_config (cr\<lparr>cr_Spec := (cr_Spec cr)\<lparr>sp_Backends := (sp_Backends (cr_Spec cr))
        \<lparr>be_FailThreshold := ft, be_PassThreshold := pt, HealthInterval := hi\<rparr>\<rparr>\<rparr>) ks url tls = gateway_config cr ks url tls"
proof -
  define g where "g = gateway_config cr ks url tls"
  have "yaml_Marshal lib (encode_gatewayConfig g) = Inr yml"
    using assms(2) by (simp add: renderConfig_def g_def split: sum.splits)
  then have p: "parse yml = Inr (encode_gatewayConfig g)"
    using assms(1) by (simp add: yaml_roundtrip_def)
  have ttl: "gc_NonceTTL g = as_NonceTTL (sp_Auth (cr_Spec cr))"
    by (simp add: g_def gateway_config_def Let_def)
  have "Routes (loaded_as d g) = [] \<longleftrightarrow> sp_Routes (cr_Spec cr) = []" for d
    by (simp add: loaded_as_def g_def gateway_config_def Let_def)
  moreover have "Services (loaded_as d g) = [] \<longleftrightarrow> sp_Services (cr_Spec cr) = []" for d
    by (cases "sp_Services (cr_Spec cr)") (simp_all add: loaded_as_def g_def gateway_config_def Let_def)
  ultimately have "Load readFile (Config_Unmarshal parse dur) path =
      (case dur (as_NonceTTL (sp_Auth (cr_Spec cr))) of
         None \<Rightarrow> Inl (ParseConfig ''yaml: unmarshal errors'')
       | Some d \<Rightarrow> if sp_Routes (cr_Spec cr) = [] then Inl NoRoutes
           else if sp_Services (cr_Spec cr) = [] then Inl NoServices else Inr (with_defaults (loaded_as d g)))"
    by (simp add: Load_cases assms(3) Config_Unmarshal_def yaml_Unmarshal_with_def p decode_encoded ttl split: option.split)
  moreover have "gateway_config (cr\<lparr>cr_Spec := (cr_Spec cr)\<lparr>sp_Backends := (sp_Backends (cr_Spec cr))
        \<lparr>be_FailThreshold := ft, be_PassThreshold := pt, HealthInterval := hi\<rparr>\<rparr>\<rparr>) ks url tls = gateway_config cr ks url tls"
    by (simp add: gateway_config_def Let_def)
  ultimately show ?thesis unfolding g_def by (rule conjI)
qed

theorem gateway_loads_rendered_witness:
  "let g = gateway_config demo_cr [] '''' ''''; dur = (\<lambda>x. if x = ''5m'' then Some (5 * minute) else None);
       lib = demo_ctl\<lparr>yaml_Marshal := \<lambda>t. if t = encode_gatewayConfig g then Inr ''yaml'' else Inl ''unknown''\<rparr>;
       parse = (\<lambda>_. Inr (encode_gatewayConfig g))
   in yaml_roundtrip (yaml_Marshal lib) parse
      \<and> Load (\<lambda>_. Inr ''yaml'') (Config_Unmarshal parse dur) ''p'' = Inr (with_defaults (loaded_as (5 * minute) g))"
proof -
  define g where "g = gateway_config demo_cr [] '''' ''''"
  define lib where "lib = demo_ctl\<lparr>yaml_Marshal := \<lambda>t. if t = encode_gatewayConfig g then Inr ''yaml'' else Inl ''unknown''\<rparr>"
  have a: "yaml_roundtrip (yaml_Marshal lib) (\<lambda>_. Inr (encode_gatewayConfig g))"
    by (simp add: yaml_roundtrip_def lib_def)
  have r: "renderConfig lib demo_cr [] '''' '''' = Inr ''yaml''" by (simp add: renderConfig_def lib_def g_def)
  from gateway_loads_rendered [OF a r, of "\<lambda>_. Inr ''yaml''" "''p''"
      "\<lambda>x. if x = ''5m'' then Some (5 * minute) else None"] a show ?thesis
    unfolding g_def [symmetric] lib_def [symmetric] Let_def by (simp add: demo_cr_def demo_spec_def)
qed

text \<open>
  C34: over the whole life of the controller, whatever the API server answers and however
  often the watch breaks, no pod template is ever annotated with the hash of a configuration
  that the ConfigMap had not been given before; every broken watch is followed by a pause of
  ten seconds.
\<close>

theorem controller_run_ordered:
  assumes "controller_main lib api getenv readFile streams srv = (results, pauses, k)"
  shows "ordered_rollouts lib (newK8sClient readFile (api_server getenv))
      (controller_envOr getenv ''CONTROLLER_NAMESPACE'' ''secure-svc-gw'') (k_trace k)
    \<and> pauses = replicate (length streams) (10 * second)"
proof -
  define ns crName c where "ns = controller_envOr getenv ''CONTROLLER_NAMESPACE'' ''secure-svc-gw''"
    and "crName = controller_envOr getenv ''CONTROLLER_CR_NAME'' ''main''"
    and "c = newK8sClient readFile (api_server getenv)"
  obtain r k1 where r: "reconcile lib api c ns crName \<lparr>k_server = srv, k_trace = []\<rparr> = (r, k1)" by (rule prod.exhaust)
  have "ordered_rollouts lib c ns (k_trace k1)" by (rule reconcile_ordered [OF r]) (simp add: ordered_rollouts_def)
  moreover obtain rs where "watch_rounds lib api c ns crName streams k1 = (rs, pauses, k)"
    using assms r by (auto simp: controller_main_def Let_def ns_def crName_def c_def split: prod.splits)
  ultimately show ?thesis using watch_rounds_ordered unfolding ns_def c_def by blast
qed

theorem controller_run_ordered_witness:
  "let (results, pauses, k) = controller_main demo_ctl demo_api (\<lambda>_. '''') (\<lambda>_. Inl ''absent'')
       [\<lambda>_. Inr ([''ADDED'', ''DELETED''], ''EOF''), \<lambda>_. Inl ''refused''] 0
   in ordered_rollouts demo_ctl (newK8sClient (\<lambda>_. Inl ''absent'') (api_server (\<lambda>_. '''')))
        ''secure-svc-gw'' (k_trace k) \<and> pauses = [10 * second, 10 * second]"
proof -
  obtain results pauses k where m: "controller_main demo_ctl demo_api (\<lambda>_. '''') (\<lambda>_. Inl ''absent'')
      [\<lambda>_. Inr ([''ADDED'', ''DELETED''], ''EOF''), \<lambda>_. Inl ''refused''] 0 = (results, pauses, k)" by (rule prod_cases3)
  from controller_run_ordered [OF m] m show ?thesis
    by (simp add: controller_envOr_def numeral_2_eq_2)
qed

end
