(* ===== verification/Spec2Isabelle.thy ===== *)
theory Spec2Isabelle
  imports Rogue_Backend Gateway_Fleet Gateway_Lifecycle Serve_Types Metric_Series Controller
begin

text \<open>
  A verification of \<^verbatim>\<open>secure-svc-gw\<close>, a gateway that authenticates requests with Ed25519 tokens,
  authorizes them by scope, refuses replays, and forwards them over mutual TLS to
  health-checked, load-balanced backends; of the controller that configures it in a
  Kubernetes cluster; and of the generator of its demo artifacts.

  \<^bold>\<open>The parts and how they interact.\<close>  \<^verbatim>\<open>cmd/gateway\<close> loads a configuration, opens a nonce store,
  builds a token verifier, and gives each service a pool, an mTLS client and a health
  checker.  A request passes the handler: route match, bearer token, \<^verbatim>\<open>Verify\<close> (which spends
  the nonce), scope, \<^verbatim>\<open>Pick\<close>, one attempt and at most one retry.  Pools are shared by the handler and
  the checkers, the nonce store by all requests.  \<^verbatim>\<open>cmd/controller\<close> renders a custom resource to the
  configuration the gateway loads; \<^verbatim>\<open>cmd/gen-artifacts\<close> writes one for the demo.

  \<^bold>\<open>Theories.\<close>
  \<^item> \<^verbatim>\<open>Prelude\<close>, \<^verbatim>\<open>Go_Time\<close>, \<^verbatim>\<open>Go_Base64\<close>, \<^verbatim>\<open>Go_Header\<close>, \<^verbatim>\<open>Go_Float\<close>: what the code uses of the Go
    language and library: strings, 64-bit times and durations with wrap-around and
    saturation, base64 with its round trip, header maps with canonical keys, IEEE doubles;
    \<^verbatim>\<open>Go_Yaml\<close>: YAML documents and how struct tags select from them, the parser being a parameter.
  \<^item> \<^verbatim>\<open>Nonce\<close> (\<^verbatim>\<open>internal/auth/nonce.go\<close>), \<^verbatim>\<open>Redis_Nonce\<close> (\<^verbatim>\<open>redis_nonce.go\<close>): the two stores.  The locale
    \<^verbatim>\<open>nonce_store\<close> states what a store promises: a jti is refused while it is held, and held until the
    deadline of its acceptance; both stores interpret it, Redis under the documented behaviour
    of \<^verbatim>\<open>SET NX\<close> and of expiry, on a clock of its own.
  \<^item> \<^verbatim>\<open>Jwt\<close> (\<^verbatim>\<open>internal/auth/jwt.go\<close>): registration, \<^verbatim>\<open>Verify\<close> with every rejection, scopes.  When a token is
    accepted, the exact time window, what a rejection leaves, where the clock lets a replay in.
  \<^item> \<^verbatim>\<open>Config\<close> (\<^verbatim>\<open>internal/config\<close>, its YAML tags included), \<^verbatim>\<open>Metrics\<close> (\<^verbatim>\<open>internal/metrics\<close>, \<^verbatim>\<open>internal/logging\<close>), \<^verbatim>\<open>Proxy_Tls\<close> (\<^verbatim>\<open>internal/proxy/tls.go\<close>).
  \<^item> \<^verbatim>\<open>Lb_Pool\<close> (\<^verbatim>\<open>internal/lb\<close>): backends, latency averages, power-of-two-choices.  \<^verbatim>\<open>Pick\<close> returns a healthy
    backend and never the worst; averages stay within their samples; \<^verbatim>\<open>score\<close> agrees with \<^verbatim>\<open>SafeScore\<close>.  The
    locale \<^verbatim>\<open>traffic_op\<close> is what request traffic may do to a backend.
  \<^item> \<^verbatim>\<open>Health_Checker\<close> (\<^verbatim>\<open>internal/health\<close>): the checker as a step relation with overlapping probes; it
    refines a hysteresis automaton, and its gauge agrees with the health bit.
  \<^item> \<^verbatim>\<open>Handler\<close> (\<^verbatim>\<open>internal/proxy/handler.go\<close>): the whole request path with case rules for every branch;
    \<^verbatim>\<open>Request_Path\<close>: what may reach a backend and at which URL, refusals, headers, retries, accounting,
    panics, and that registered scopes play no part;
    \<^verbatim>\<open>Serve_Types\<close>: state and response stay well formed; \<^verbatim>\<open>Metric_Series\<close>: the metric series are finitely many.
  \<^item> \<^verbatim>\<open>Gateway_Main\<close> (\<^verbatim>\<open>cmd/gateway\<close>): start-up, the Redis connection loop, the wiring of services;
    \<^verbatim>\<open>Gateway_Lifecycle\<close>: the running process as a step relation with every way it can end: the signal
    and the shutdown within five seconds, a failing listener, a panicking probe, a signal that
    is not handled.
  \<^item> \<^verbatim>\<open>Gateway_System\<close>: one service's pool under any number of concurrent requests and its checker, as a
    step relation; in-flight counters are exact, every step is a step of the checker, and
    everything \<^verbatim>\<open>ServeHTTP\<close> does with a request, retry included, is a run of the system.
  \<^item> \<^verbatim>\<open>Gateway_Fleet\<close>: the life of one gateway, or of any number that share a Redis server, as a list of
    events; replay protection end to end, proved once in the locale \<^verbatim>\<open>nonce_store\<close> for both stores.
    Clock readings are free: with the in-memory store a replay gets through only in the race of
    the sweeper with a late store operation; with Redis only within twice the clock skew and a
    millisecond of the expiry.
  \<^item> \<^verbatim>\<open>V1alpha1\<close> (\<^verbatim>\<open>api/v1alpha1\<close>), \<^verbatim>\<open>Controller\<close> (\<^verbatim>\<open>cmd/controller\<close>): the renderer, every API request with its
    body, reconciliation and the watch loop.  Roll-outs follow stores, over the whole run; the
    tags of both sides agree, so the gateway loads what is rendered; which failures are silent.
  \<^item> \<^verbatim>\<open>Gen_Artifacts\<close> (\<^verbatim>\<open>cmd/gen-artifacts\<close>): certificates, client keys, configuration text, and every call that may
    fail.  Which certificates are accepted for what; that the configuration text is the
    block-style form of a document from which the gateway's tags select the configuration, and
    that the generated files fit together; what a failing run leaves.
  \<^item> \<^verbatim>\<open>Rogue_Backend\<close>: generator, TLS set-up, checker and request path together: the rogue replica is ejected
    by its third probe and never gets an answer through.

  \<^bold>\<open>How state and effects are modelled.\<close>  A struct is a record with the source's fields, prefixed where
  names clash; a pointer to a backend is its index in the pool.  State is passed explicitly;
  errors are values of sum types with one constructor per error of the source; a panic is a
  flag of the result.  Metrics and log lines are lists of events.  The clock, the random
  source, the network, the file system and other goroutines are arguments of the operations
  (\<^verbatim>\<open>serve_env\<close>, \<^verbatim>\<open>attempt_env\<close>, \<^verbatim>\<open>outside\<close>, \<^verbatim>\<open>gen_env\<close>), so that a theorem for all arguments covers every outcome.
  Third-party code (YAML, go-redis, the API server) and the cryptographic primitives are
  parameters too; where a theorem relies on their behaviour it says so in a named
  hypothesis, and its witness instantiates them.

  \<^bold>\<open>Bounds.\<close>  No definition uses fuel.  Loops are structural, or recurse on a decreasing measure (the
  ten attempts of \<^verbatim>\<open>redis_connect\<close>); the endless loops of the checker, the sweeper and the watch
  are step relations or runs over a list of events of any length.  Times are signed 64-bit
  seconds and durations signed 64-bit nanoseconds; the hypothesis \<^verbatim>\<open>sane_time\<close> (a clock after
  1970 and far from wrap-around) is named where a theorem needs it.

  \<^bold>\<open>Not modelled.\<close>  The values the Prometheus library keeps for a series, and its HTTP handler; log lines
  of the controller; data races below the atomic operations of the pool; what \<^verbatim>\<open>net/http\<close> does
  with a panic of the handler; the fused multiply-add that Go permits on some platforms in
  \<^verbatim>\<open>RecordLatency\<close>; keys that a Redis server loses to eviction or a
  restart; the Python demo programs.
\<close>

end
